(* ===== verification/Prelude.thy ===== *)
theory Prelude
  imports Main "HOL-Library.Code_Target_Nat"
begin

text \<open>
  Shared vocabulary of the development: Rust strings as lists of Unicode scalar values with the
  operations of \<^verbatim>\<open>str\<close> that the sources call, results as sums with an early-return
  combinator for the \<^verbatim>\<open>?\<close> operator, the loop \<^verbatim>\<open>for x in xs { self.step(x)?; }\<close>
  as \<open>try_fold\<close>, and the list lemmas the component theories share.
\<close>

named_theorems str_simps \<open>evaluation of string literals and markers\<close>
named_theorems ws_simps \<open>how trimming acts on strings of a known shape\<close>

section \<open>Strings\<close>

text \<open>
  A Rust \<^verbatim>\<open>char\<close> is a Unicode scalar value, kept here as its number; a
  \<^verbatim>\<open>str\<close> or \<^verbatim>\<open>String\<close> is a list of them. Where the source walks the UTF-8
  bytes looking for ASCII bytes, the walk over scalar values is the same one, because a byte below
  128 of a UTF-8 string always is a whole character.
\<close>

type_synonym uchar = nat
type_synonym ustr = "uchar list"

definition str :: "string \<Rightarrow> ustr" where
  "str s = map of_char s"

declare str_def [str_simps]

abbreviation LF :: uchar where "LF \<equiv> 10"
abbreviation CR :: uchar where "CR \<equiv> 13"

definition squote :: "ustr \<Rightarrow> ustr" where
  "squote s = 39 # s @ [39]"

text \<open>\<^verbatim>\<open>char::is_whitespace\<close>: the Unicode property White\_Space.\<close>

definition is_whitespace :: "uchar \<Rightarrow> bool" where
  "is_whitespace c \<longleftrightarrow>
     9 \<le> c \<and> c \<le> 13 \<or> c = 32 \<or> c = 133 \<or> c = 160 \<or> c = 5760 \<or>
     8192 \<le> c \<and> c \<le> 8202 \<or> c = 8232 \<or> c = 8233 \<or> c = 8239 \<or> c = 8287 \<or> c = 12288"

definition trim_start :: "ustr \<Rightarrow> ustr" where
  "trim_start s = dropWhile is_whitespace s"

definition trim_end :: "ustr \<Rightarrow> ustr" where
  "trim_end s = rev (dropWhile is_whitespace (rev s))"

definition trim :: "ustr \<Rightarrow> ustr" where
  "trim s = trim_end (trim_start s)"

fun strip_prefix :: "'a list \<Rightarrow> 'a list \<Rightarrow> 'a list option" where
  "strip_prefix [] s = Some s"
| "strip_prefix (p # ps) [] = None"
| "strip_prefix (p # ps) (c # cs) = (if p = c then strip_prefix ps cs else None)"

definition strip_suffix :: "'a list \<Rightarrow> 'a list \<Rightarrow> 'a list option" where
  "strip_suffix q s = map_option rev (strip_prefix (rev q) (rev s))"

definition starts_with :: "'a list \<Rightarrow> 'a list \<Rightarrow> bool" where
  "starts_with p s \<longleftrightarrow> strip_prefix p s \<noteq> None"

definition ends_with :: "'a list \<Rightarrow> 'a list \<Rightarrow> bool" where
  "ends_with q s \<longleftrightarrow> strip_suffix q s \<noteq> None"

text \<open>\<^verbatim>\<open>s.split(c)\<close>: the pieces between the separators, one more than there are
  separators.\<close>

fun split_on :: "'a \<Rightarrow> 'a list \<Rightarrow> 'a list list" where
  "split_on d [] = [[]]"
| "split_on d (c # cs) =
     (if c = d then [] # split_on d cs
      else case split_on d cs of [] \<Rightarrow> [[c]] | x # xs \<Rightarrow> (c # x) # xs)"

text \<open>\<^verbatim>\<open>xs.join(sep)\<close>.\<close>

fun join :: "'a list \<Rightarrow> 'a list list \<Rightarrow> 'a list" where
  "join d [] = []"
| "join d [x] = x"
| "join d (x # y # xs) = x @ d @ join d (y # xs)"

text \<open>\<^verbatim>\<open>str::lines\<close>: the pieces ended by a line feed, with one carriage return before
  the line feed dropped, and a last piece only when it is not empty; a carriage return at the very
  end of the text stays.\<close>

definition drop_cr :: "ustr \<Rightarrow> ustr" where
  "drop_cr l = (case strip_suffix [CR] l of None \<Rightarrow> l | Some l' \<Rightarrow> l')"

definition lines :: "ustr \<Rightarrow> ustr list" where
  "lines s =
     (let ps = split_on LF s
      in map drop_cr (butlast ps) @ (if last ps = [] then [] else [last ps]))"

text \<open>A \<^verbatim>\<open>usize\<close> in a format string.\<close>

fun nat_str :: "nat \<Rightarrow> ustr" where
  "nat_str n = (if n < 10 then [48 + n] else nat_str (n div 10) @ [48 + n mod 10])"

declare nat_str.simps [simp del]

text \<open>The text of lines that each end in a line feed.\<close>

definition lf_text :: "ustr list \<Rightarrow> ustr" where
  "lf_text ls = concat (map (\<lambda>l. l @ [LF]) ls)"

section \<open>Results and loops\<close>

text \<open>The \<^verbatim>\<open>?\<close> operator on \<^verbatim>\<open>Result\<close>: an error returns at once.\<close>

fun and_then :: "'e + 'a \<Rightarrow> ('a \<Rightarrow> 'e + 'b) \<Rightarrow> 'e + 'b" where
  "and_then (Inl e) f = Inl e"
| "and_then (Inr a) f = f a"

text \<open>\<^verbatim>\<open>for x in xs { self.step(x)?; }\<close>: the state survives an early return.\<close>

fun try_fold :: "('s \<Rightarrow> 'c \<Rightarrow> 's \<times> ('e + unit)) \<Rightarrow> 's \<Rightarrow> 'c list \<Rightarrow> 's \<times> ('e + unit)" where
  "try_fold f s [] = (s, Inr ())"
| "try_fold f s (x # xs) =
     (case f s x of (s', Inl e) \<Rightarrow> (s', Inl e) | (s', Inr u) \<Rightarrow> try_fold f s' xs)"

text \<open>\<^verbatim>\<open>std::io::Error\<close>: the kinds the sources tell apart, and the message.\<close>

datatype io_error_kind = NotFound | InvalidInput | AlreadyExists | OtherKind

datatype io_error = IoErr io_error_kind ustr

text \<open>A step on a world \<open>'w\<close> that may fail, and the sequence \<^verbatim>\<open>first?; second\<close>: what the first
  step did to the world stays when it fails.\<close>

type_synonym ('w, 'e, 'a) effect = "'w \<Rightarrow> 'w \<times> ('e + 'a)"

definition io_then :: "('w, 'e, 'a) effect \<Rightarrow> ('a \<Rightarrow> ('w, 'e, 'b) effect) \<Rightarrow> ('w, 'e, 'b) effect" where
  "io_then m f w = (case m w of (w', Inl e) \<Rightarrow> (w', Inl e) | (w', Inr a) \<Rightarrow> f a w')"

definition io_pure :: "'e + 'a \<Rightarrow> ('w, 'e, 'a) effect" where
  "io_pure r w = (w, r)"

definition io_map_err :: "('e \<Rightarrow> 'd) \<Rightarrow> ('w, 'e, 'a) effect \<Rightarrow> ('w, 'd, 'a) effect" where
  "io_map_err g m w = (case m w of (w', Inl e) \<Rightarrow> (w', Inl (g e)) | (w', Inr a) \<Rightarrow> (w', Inr a))"

text \<open>\<^verbatim>\<open>iter.map(f).collect::<Result<Vec<_>, _>>()\<close>: the first error ends the loop.\<close>

primrec try_map :: "('a \<Rightarrow> 'e + 'b) \<Rightarrow> 'a list \<Rightarrow> 'e + 'b list" where
  "try_map f [] = Inr []"
| "try_map f (x # xs) = and_then (f x) (\<lambda>y. and_then (try_map f xs) (\<lambda>ys. Inr (y # ys)))"

text \<open>\<^verbatim>\<open>iter.find_map(f)\<close>: the first result there is.\<close>

fun find_map :: "('a \<Rightarrow> 'b option) \<Rightarrow> 'a list \<Rightarrow> 'b option" where
  "find_map f [] = None"
| "find_map f (x # xs) = (case f x of Some y \<Rightarrow> Some y | None \<Rightarrow> find_map f xs)"

lemma find_map_cong [fundef_cong]:
  "xs = ys \<Longrightarrow> (\<And>x. x \<in> set ys \<Longrightarrow> f x = g x) \<Longrightarrow> find_map f xs = find_map g ys"
  by (induction xs arbitrary: ys) (auto split: option.split)

lemma find_map_None: "find_map f xs = None \<longleftrightarrow> (\<forall>x \<in> set xs. f x = None)"
  by (induction xs) (auto split: option.split)

lemma find_map_hit: "x \<in> set xs \<Longrightarrow> f x \<noteq> None \<Longrightarrow> find_map f xs \<noteq> None"
  by (metis find_map_None)

lemma find_map_Some: "find_map f xs = Some y \<Longrightarrow> \<exists>x \<in> set xs. f x = Some y"
  by (induction xs) (auto split: option.splits)

text \<open>\<^verbatim>\<open>iter.max_by_key(key)\<close>: of several maximal elements, the last.\<close>

fun max_by_key :: "('a \<Rightarrow> 'k::linorder) \<Rightarrow> 'a list \<Rightarrow> 'a option" where
  "max_by_key key [] = None"
| "max_by_key key (x # xs) = Some (fold (\<lambda>y m. if key m \<le> key y then y else m) xs x)"

lemma fold_max_by_key:
  fixes key :: "'a \<Rightarrow> 'k::linorder"
  defines "step \<equiv> \<lambda>y m. if key m \<le> key y then y else m"
  shows "fold step xs x \<in> insert x (set xs) \<and> (\<forall>y \<in> insert x (set xs). key y \<le> key (fold step xs x))"
proof (induction xs arbitrary: x)
  case (Cons y ys)
  from Cons [of "step y x"] show ?case by (auto simp: step_def split: if_splits)
qed simp

lemma max_by_key_Some:
  assumes "max_by_key key xs = Some x"
  shows "x \<in> set xs" "\<And>y. y \<in> set xs \<Longrightarrow> key y \<le> key x"
  using assms fold_max_by_key [where key = key] by (cases xs; fastforce)+

lemma max_by_key_None: "max_by_key key xs = None \<longleftrightarrow> xs = []"
  by (cases xs) simp_all

text \<open>\<^verbatim>\<open>vec.last_mut()\<close> followed by an update of the element, when there is one.\<close>

definition map_last :: "('a \<Rightarrow> 'a) \<Rightarrow> 'a list \<Rightarrow> 'a list" where
  "map_last f xs = (if xs = [] then [] else butlast xs @ [f (last xs)])"

section \<open>Lemmas\<close>

subsection \<open>Results\<close>

lemma try_map_Inl: "try_map f xs = Inl e \<Longrightarrow> \<exists>x \<in> set xs. f x = Inl e"
proof (induction xs)
  case (Cons x xs)
  then show ?case by (cases "f x"; cases "try_map f xs") auto
qed simp

lemma map_filter_set: "set (List.map_filter f xs) = {y. \<exists>x \<in> set xs. f x = Some y}"
  by (auto simp: List.map_filter_def image_iff) force+

lemma map_filter_append: "List.map_filter f (xs @ ys) = List.map_filter f xs @ List.map_filter f ys"
  by (induction xs) (auto simp: List.map_filter_simps split: option.split)

lemma and_then_eq_Inr: "and_then r f = Inr b \<longleftrightarrow> (\<exists>a. r = Inr a \<and> f a = Inr b)"
  by (cases r) auto

lemma and_then_eq_Inl: "and_then r f = Inl e \<longleftrightarrow> r = Inl e \<or> (\<exists>a. r = Inr a \<and> f a = Inl e)"
  by (cases r) auto

lemma and_then_cong [fundef_cong]:
  "r = r' \<Longrightarrow> (\<And>a. r' = Inr a \<Longrightarrow> f a = g a) \<Longrightarrow> and_then r f = and_then r' g"
  by (cases r') auto

lemma try_map_Inr: "try_map f xs = Inr ys \<longleftrightarrow> list_all2 (\<lambda>x y. f x = Inr y) xs ys"
  by (induction xs arbitrary: ys) (auto simp: and_then_eq_Inr list_all2_Cons1)

lemma io_then_Inr:
  "io_then m f w = (w', Inr b) \<longleftrightarrow> (\<exists>u a. m w = (u, Inr a) \<and> f a u = (w', Inr b))"
  by (auto simp: io_then_def split: prod.splits sum.splits)

lemma io_map_err_Inr [simp]: "io_map_err g m w = (w', Inr a) \<longleftrightarrow> m w = (w', Inr a)"
  by (auto simp: io_map_err_def split: prod.splits sum.splits)

lemma io_pure_Inr [simp]: "io_pure r w = (w', Inr a) \<longleftrightarrow> w' = w \<and> r = Inr a"
  by (auto simp: io_pure_def)

lemma try_fold_append:
  "try_fold f s (xs @ ys) =
     (case try_fold f s xs of (s', Inl e) \<Rightarrow> (s', Inl e) | (s', Inr u) \<Rightarrow> try_fold f s' ys)"
  by (induction xs arbitrary: s) (auto split: prod.splits sum.splits)

subsection \<open>Last elements\<close>

lemma map_last_append [simp]: "map_last f (xs @ [x]) = xs @ [f x]"
  by (simp add: map_last_def)

lemma map_last_Nil [simp]: "map_last f [] = []"
  by (simp add: map_last_def)

lemma map_last_eq_Nil [simp]: "map_last f xs = [] \<longleftrightarrow> xs = []"
  by (simp add: map_last_def)

lemma snoc_cases:
  obtains (Nil) "xs = []" | (snoc) ys y where "xs = ys @ [y]"
  by (cases xs rule: rev_cases) auto

subsection \<open>Prefixes and suffixes\<close>

lemma strip_prefix_append [simp]: "strip_prefix p (p @ s) = Some s"
  by (induction p) auto

lemma strip_prefix_self [simp]: "strip_prefix p p = Some []"
  using strip_prefix_append [of p "[]"] by simp

lemma strip_prefix_eq_Some [simp]: "strip_prefix p s = Some r \<longleftrightarrow> s = p @ r"
  by (induction p s rule: strip_prefix.induct) auto

lemma strip_suffix_eq_Some [simp]: "strip_suffix q s = Some r \<longleftrightarrow> s = r @ q"
proof -
  have "strip_suffix q s = Some r \<longleftrightarrow> rev s = rev q @ rev r"
    by (auto simp: strip_suffix_def)
  also have "\<dots> \<longleftrightarrow> s = r @ q"
    by (metis rev_append rev_rev_ident)
  finally show ?thesis .
qed

lemma strip_suffix_append [simp]: "strip_suffix q (s @ q) = Some s"
  by simp

lemma starts_with_iff: "starts_with p s \<longleftrightarrow> (\<exists>r. s = p @ r)"
  by (auto simp: starts_with_def)

lemma ends_with_iff: "ends_with q s \<longleftrightarrow> (\<exists>r. s = r @ q)"
  by (auto simp: ends_with_def)

subsection \<open>Trimming\<close>

lemma trim_end_Nil [simp]: "trim_end [] = []"
  by (simp add: trim_end_def)

lemma trim_start_Nil [simp]: "trim_start [] = []"
  by (simp add: trim_start_def)

lemma trim_Nil [simp]: "trim [] = []"
  by (simp add: trim_def)

lemma trim_end_snoc [ws_simps]:
  "trim_end (s @ [c]) = (if is_whitespace c then trim_end s else s @ [c])"
  by (simp add: trim_end_def)

lemma trim_start_Cons [ws_simps]:
  "trim_start (c # s) = (if is_whitespace c then trim_start s else c # s)"
  by (simp add: trim_start_def)

lemma trim_end_idem [simp]: "trim_end (trim_end s) = trim_end s"
  by (simp add: trim_end_def)

lemma trim_end_eq_self: "s = [] \<or> \<not> is_whitespace (last s) \<Longrightarrow> trim_end s = s"
  by (cases s rule: rev_cases) (auto simp: ws_simps)

lemma trim_end_last: "trim_end s \<noteq> [] \<Longrightarrow> \<not> is_whitespace (last (trim_end s))"
  unfolding trim_end_def
  by (metis hd_dropWhile last_rev rev_is_Nil_conv)

lemma trim_end_append_nonws:
  assumes "r \<noteq> []" "\<not> is_whitespace (last r)"
  shows "trim_end (s @ r) = s @ r"
  using assms by (intro trim_end_eq_self) simp

lemma trim_end_append:
  "trim_end (s @ r) = (if trim_end r = [] then trim_end s else s @ trim_end r)"
  by (simp add: trim_end_def dropWhile_append dropWhile_eq_Nil_conv)

lemma trim_end_trim_start: "trim_end (trim_start s) = trim_start (trim_end s)"
proof (induction s)
  case (Cons c s)
  show ?case
  proof (cases "is_whitespace c")
    case True
    have "trim_end (c # s) = (if trim_end s = [] then [] else c # trim_end s)"
      using trim_end_append [of "[c]" s] True trim_end_snoc [of "[]" c] by simp
    with True Cons.IH show ?thesis
      by (auto simp: trim_start_Cons)
  next
    case False
    have "trim_end (c # s) = c # trim_end s"
      using trim_end_append [of "[c]" s] False trim_end_snoc [of "[]" c] by auto
    with False show ?thesis
      by (simp add: trim_start_Cons)
  qed
qed simp

lemma trim_of_trim_end: "trim s = trim_start (trim_end s)"
  by (simp add: trim_def trim_end_trim_start)

lemma trim_trim_end [simp]: "trim (trim_end s) = trim s"
  by (simp add: trim_of_trim_end)

lemma trim_eq_self:
  assumes "s = [] \<or> \<not> is_whitespace (hd s) \<and> \<not> is_whitespace (last s)"
  shows "trim s = s"
proof (cases s)
  case (Cons c cs)
  with assms have "trim_start s = s" by (simp add: ws_simps)
  with assms show ?thesis by (auto simp: trim_def intro: trim_end_eq_self)
qed simp

subsection \<open>Lines\<close>

lemma split_on_not_Nil [simp]: "split_on d s \<noteq> []"
  by (induction s) (auto split: list.splits)

lemma split_on_append:
  "d \<notin> set x \<Longrightarrow> split_on d (x @ d # s) = x # split_on d s"
  by (induction x) auto

lemma split_on_none: "d \<notin> set x \<Longrightarrow> split_on d x = [x]"
  by (induction x) auto

lemma split_on_pieces: "x \<in> set (split_on d s) \<Longrightarrow> d \<notin> set x"
  by (induction s arbitrary: x) (auto split: list.splits if_splits)

lemma join_split_on: "join [d] (split_on d s) = s"
proof (induction s)
  case (Cons c s)
  obtain x xs where sp: "split_on d s = x # xs"
    by (cases "split_on d s") auto
  with Cons show ?case by (cases xs) auto
qed simp

lemma split_on_join:
  "xs \<noteq> [] \<Longrightarrow> (\<And>x. x \<in> set xs \<Longrightarrow> d \<notin> set x) \<Longrightarrow> split_on d (join [d] xs) = xs"
  by (induction "[d]" xs rule: join.induct) (auto simp: split_on_none split_on_append)

lemma split_on_split: "split_on d (s @ d # t) = split_on d s @ split_on d t"
  by (induction s) (auto split: list.splits)

lemma join_snoc: "xs \<noteq> [] \<Longrightarrow> join d (xs @ [x]) = join d xs @ d @ x"
  by (induction d xs rule: join.induct) auto

lemma drop_cr_no_cr: "l = [] \<or> last l \<noteq> CR \<Longrightarrow> drop_cr l = l"
  by (auto simp: drop_cr_def split: option.splits)

lemma drop_cr_snoc [simp]: "drop_cr (l @ [CR]) = l"
  by (simp add: drop_cr_def)

end
