(* ===== verification/Patch_Parser.thy ===== *)
theory Patch_Parser
  imports Prelude
begin

text \<open>
  The patch language of \<^verbatim>\<open>codex-rs/apply-patch\<close>: the data of \<^verbatim>\<open>src/parser.rs\<close>
  (hunks, update chunks, parse errors), the line-driven state machine of
  \<^verbatim>\<open>src/streaming_parser.rs\<close> and the boundary checks and whole-text entry point of
  \<^verbatim>\<open>src/parser.rs\<close>. A method with \<^verbatim>\<open>&mut self\<close> takes the parser and returns the new
  one. No failing path of \<open>process_line\<close> writes to the parser first, so it returns either the error
  or the new parser; \<open>push_delta\<close> and \<open>finish\<close> return the parser in both cases, because the
  line buffer and the line counter have already moved when a line is rejected.
\<close>

section \<open>Data\<close>

datatype parse_error =
    InvalidPatchError ustr
  | InvalidHunkError ustr nat

record update_file_chunk =
  change_context :: "ustr option"
  old_lines :: "ustr list"
  new_lines :: "ustr list"
  context_line_indices :: "(nat \<times> nat) list"
  is_end_of_file :: bool

datatype hunk =
    AddFile ustr ustr
  | DeleteFile ustr
  | UpdateFile ustr "ustr option" "update_file_chunk list"

datatype streaming_parser_mode =
    NotStarted
  | StartedPatch
  | InAddFile
  | InDeleteFile
  | InUpdateFile nat
  | EndedPatch

record streaming_parser_state =
  mode :: streaming_parser_mode
  hunks :: "hunk list"
  environment_id :: "ustr option"

record streaming_patch_parser =
  line_buffer :: ustr
  state :: streaming_parser_state
  line_number :: nat

record apply_patch_args =
  args_patch :: ustr
  args_hunks :: "hunk list"
  args_workdir :: "ustr option"
  args_environment_id :: "ustr option"

datatype parse_mode = Strict | Lenient

definition BEGIN_PATCH_MARKER :: ustr where "BEGIN_PATCH_MARKER = str ''*** Begin Patch''"
definition END_PATCH_MARKER :: ustr where "END_PATCH_MARKER = str ''*** End Patch''"
definition ADD_FILE_MARKER :: ustr where "ADD_FILE_MARKER = str ''*** Add File: ''"
definition DELETE_FILE_MARKER :: ustr where "DELETE_FILE_MARKER = str ''*** Delete File: ''"
definition UPDATE_FILE_MARKER :: ustr where "UPDATE_FILE_MARKER = str ''*** Update File: ''"
definition MOVE_TO_MARKER :: ustr where "MOVE_TO_MARKER = str ''*** Move to: ''"
definition EOF_MARKER :: ustr where "EOF_MARKER = str ''*** End of File''"
definition CHANGE_CONTEXT_MARKER :: ustr where "CHANGE_CONTEXT_MARKER = str ''@@ ''"
definition EMPTY_CHANGE_CONTEXT_MARKER :: ustr where "EMPTY_CHANGE_CONTEXT_MARKER = str ''@@''"
definition ENVIRONMENT_ID_MARKER :: ustr where "ENVIRONMENT_ID_MARKER = str ''*** Environment ID:''"
definition PARSE_IN_STRICT_MODE :: bool where "PARSE_IN_STRICT_MODE = False"

lemmas marker_defs [str_simps] =
  BEGIN_PATCH_MARKER_def END_PATCH_MARKER_def ADD_FILE_MARKER_def DELETE_FILE_MARKER_def
  UPDATE_FILE_MARKER_def MOVE_TO_MARKER_def EOF_MARKER_def CHANGE_CONTEXT_MARKER_def
  EMPTY_CHANGE_CONTEXT_MARKER_def ENVIRONMENT_ID_MARKER_def

definition default_chunk :: update_file_chunk where
  "default_chunk =
     \<lparr>change_context = None, old_lines = [], new_lines = [], context_line_indices = [],
      is_end_of_file = False\<rparr>"

definition default_parser :: streaming_patch_parser where
  "default_parser =
     \<lparr>line_buffer = [], state = \<lparr>mode = NotStarted, hunks = [], environment_id = None\<rparr>,
      line_number = 0\<rparr>"

definition hunk_path :: "hunk \<Rightarrow> ustr" where
  "hunk_path h =
     (case h of
        AddFile p contents \<Rightarrow> p
      | DeleteFile p \<Rightarrow> p
      | UpdateFile p move chunks \<Rightarrow> (case move of Some q \<Rightarrow> q | None \<Rightarrow> p))"

text \<open>The path \<^verbatim>\<open>Hunk::resolve_path\<close> joins to the working directory: the source side of a
  rename.\<close>

definition hunk_source_path :: "hunk \<Rightarrow> ustr" where
  "hunk_source_path h = (case h of UpdateFile p move chunks \<Rightarrow> p | _ \<Rightarrow> hunk_path h)"

definition push_context_line :: "ustr \<Rightarrow> update_file_chunk \<Rightarrow> update_file_chunk" where
  "push_context_line line c =
     c\<lparr>context_line_indices :=
         context_line_indices c @ [(length (old_lines c), length (new_lines c))],
       old_lines := old_lines c @ [line],
       new_lines := new_lines c @ [line]\<rparr>"

definition push_new_line :: "ustr \<Rightarrow> update_file_chunk \<Rightarrow> update_file_chunk" where
  "push_new_line line c = c\<lparr>new_lines := new_lines c @ [line]\<rparr>"

definition push_old_line :: "ustr \<Rightarrow> update_file_chunk \<Rightarrow> update_file_chunk" where
  "push_old_line line c = c\<lparr>old_lines := old_lines c @ [line]\<rparr>"

section \<open>The state machine\<close>

definition chunk_is_blank :: "update_file_chunk \<Rightarrow> bool" where
  "chunk_is_blank c \<longleftrightarrow> old_lines c = [] \<and> new_lines c = []"

definition last_chunk_blank :: "update_file_chunk list \<Rightarrow> bool" where
  "last_chunk_blank cs \<longleftrightarrow> cs \<noteq> [] \<and> chunk_is_blank (last cs)"

definition unexpected_line_msg :: "ustr \<Rightarrow> ustr" where
  "unexpected_line_msg line =
     str ''Unexpected line found in update hunk: '' @ squote line @
     str ''. Every line should start with ' ' (context line), '+' (added line), or '-' (removed line)''"

definition expected_context_msg :: "ustr \<Rightarrow> ustr" where
  "expected_context_msg line =
     str ''Expected update hunk to start with a @@ context marker, got: '' @ squote line"

definition not_a_header_msg :: "ustr \<Rightarrow> ustr" where
  "not_a_header_msg trimmed =
     squote trimmed @ str '' is not a valid hunk header. Valid hunk headers: '' @
     squote (str ''*** Add File: {path}'') @ str '', '' @
     squote (str ''*** Delete File: {path}'') @ str '', '' @
     squote (str ''*** Update File: {path}'')"

definition first_line_msg :: ustr where
  "first_line_msg = str ''The first line of the patch must be '' @ squote BEGIN_PATCH_MARKER"

definition last_line_msg :: ustr where
  "last_line_msg = str ''The last line of the patch must be '' @ squote END_PATCH_MARKER"

definition ensure_update_hunk_is_not_empty ::
  "streaming_patch_parser \<Rightarrow> ustr \<Rightarrow> parse_error + unit" where
  "ensure_update_hunk_is_not_empty p line =
     (let hs = hunks (state p) in
      if hs = [] then Inr ()
      else case last hs of
        UpdateFile path move chunks \<Rightarrow>
          (case (chunks, mode (state p)) of
             ([], InUpdateFile hunk_line_number) \<Rightarrow>
               Inl (InvalidHunkError
                 (str ''Update file hunk for path '' @ squote path @ str '' is empty'')
                 hunk_line_number)
           | _ \<Rightarrow>
               if last_chunk_blank chunks then
                 if line = END_PATCH_MARKER then
                   Inl (InvalidHunkError (str ''Update hunk does not contain any lines'')
                     (line_number p))
                 else Inl (InvalidHunkError (unexpected_line_msg line) (line_number p))
               else Inr ())
      | _ \<Rightarrow> Inr ())"

text \<open>\<open>self.state.hunks.push(h); self.state.mode = m\<close>.\<close>

definition push_hunk ::
  "hunk \<Rightarrow> streaming_parser_mode \<Rightarrow> streaming_patch_parser \<Rightarrow> streaming_patch_parser" where
  "push_hunk h m p = p\<lparr>state := (state p)\<lparr>mode := m, hunks := hunks (state p) @ [h]\<rparr>\<rparr>"

definition set_mode :: "streaming_parser_mode \<Rightarrow> streaming_patch_parser \<Rightarrow> streaming_patch_parser" where
  "set_mode m p = p\<lparr>state := (state p)\<lparr>mode := m\<rparr>\<rparr>"

definition handle_environment_id ::
  "streaming_patch_parser \<Rightarrow> ustr \<Rightarrow> parse_error + streaming_patch_parser" where
  "handle_environment_id p rest =
     (if environment_id (state p) \<noteq> None then
        Inl (InvalidPatchError (str ''apply_patch environment_id cannot be specified more than once''))
      else if trim rest = [] then
        Inl (InvalidPatchError (str ''apply_patch environment_id cannot be empty''))
      else Inr (p\<lparr>state := (state p)\<lparr>environment_id := Some (trim rest)\<rparr>\<rparr>))"

text \<open>The Boolean of the source says whether the line was consumed: \<open>None\<close> is \<^verbatim>\<open>Ok(false)\<close>.\<close>

definition handle_hunk_headers_and_end_patch ::
  "streaming_patch_parser \<Rightarrow> ustr \<Rightarrow> parse_error + streaming_patch_parser option" where
  "handle_hunk_headers_and_end_patch p trimmed =
     (if mode (state p) = StartedPatch \<and> starts_with ENVIRONMENT_ID_MARKER trimmed then
        and_then (handle_environment_id p (drop (length ENVIRONMENT_ID_MARKER) trimmed))
          (\<lambda>p'. Inr (Some p'))
      else if trimmed = END_PATCH_MARKER then
        and_then (ensure_update_hunk_is_not_empty p trimmed)
          (\<lambda>_. Inr (Some (set_mode EndedPatch p)))
      else case strip_prefix ADD_FILE_MARKER trimmed of
        Some path \<Rightarrow>
          and_then (ensure_update_hunk_is_not_empty p trimmed)
            (\<lambda>_. Inr (Some (push_hunk (AddFile path []) InAddFile p)))
      | None \<Rightarrow> (case strip_prefix DELETE_FILE_MARKER trimmed of
        Some path \<Rightarrow>
          and_then (ensure_update_hunk_is_not_empty p trimmed)
            (\<lambda>_. Inr (Some (push_hunk (DeleteFile path) InDeleteFile p)))
      | None \<Rightarrow> (case strip_prefix UPDATE_FILE_MARKER trimmed of
        Some path \<Rightarrow>
          and_then (ensure_update_hunk_is_not_empty p trimmed)
            (\<lambda>_. Inr (Some (push_hunk (UpdateFile path None []) (InUpdateFile (line_number p)) p)))
      | None \<Rightarrow> Inr None)))"

text \<open>\<open>if chunks.is_empty() { chunks.push(default) }\<close>, then the update of the last chunk.\<close>

definition update_last_chunk ::
  "(update_file_chunk \<Rightarrow> update_file_chunk) \<Rightarrow> update_file_chunk list \<Rightarrow> update_file_chunk list" where
  "update_last_chunk f chunks = map_last f (if chunks = [] then [default_chunk] else chunks)"

text \<open>A line inside an update hunk that is not a header: the new move path and chunks of the last
  hunk, or the error. The error carries the line as it came and the number of the line.\<close>

definition update_body_line ::
  "nat \<Rightarrow> ustr option \<Rightarrow> update_file_chunk list \<Rightarrow> ustr \<Rightarrow>
     parse_error + (ustr option \<times> update_file_chunk list)" where
  "update_body_line n move chunks line =
     (let update_line = trim_end line;
          at_context = update_line = EMPTY_CHANGE_CONTEXT_MARKER \<or>
            starts_with CHANGE_CONTEXT_MARKER update_line;
          after_eof = chunks \<noteq> [] \<and> is_end_of_file (last chunks)
      in
      if after_eof \<and> update_line = [] then Inr (move, chunks)
      else if after_eof \<and> \<not> at_context then
        Inl (InvalidHunkError (expected_context_msg line) n)
      else if chunks = [] \<and> move = None \<and> starts_with MOVE_TO_MARKER update_line then
        Inr (Some (drop (length MOVE_TO_MARKER) update_line), chunks)
      else if at_context \<and> last_chunk_blank chunks then
        Inl (InvalidHunkError (unexpected_line_msg line) n)
      else if update_line = EMPTY_CHANGE_CONTEXT_MARKER then
        Inr (move, chunks @ [default_chunk])
      else if starts_with CHANGE_CONTEXT_MARKER update_line then
        Inr (move, chunks @
          [default_chunk\<lparr>change_context :=
             Some (drop (length CHANGE_CONTEXT_MARKER) update_line)\<rparr>])
      else if update_line = EOF_MARKER then
        if last_chunk_blank chunks then
          Inl (InvalidHunkError (str ''Update hunk does not contain any lines'') n)
        else Inr (move, map_last (\<lambda>c. c\<lparr>is_end_of_file := True\<rparr>) chunks)
      else case line of
        [] \<Rightarrow> Inr (move, update_last_chunk (push_context_line []) chunks)
      | c # rest \<Rightarrow>
          if c = 32 then Inr (move, update_last_chunk (push_context_line rest) chunks)
          else if c = 43 then Inr (move, update_last_chunk (push_new_line rest) chunks)
          else if c = 45 then Inr (move, update_last_chunk (push_old_line rest) chunks)
          else if chunks \<noteq> [] \<and> \<not> last_chunk_blank chunks then
            Inl (InvalidHunkError (expected_context_msg line) n)
          else Inl (InvalidHunkError (unexpected_line_msg line) n))"

definition replace_last_hunk :: "hunk \<Rightarrow> streaming_patch_parser \<Rightarrow> streaming_patch_parser" where
  "replace_last_hunk h p =
     p\<lparr>state := (state p)\<lparr>hunks := butlast (hunks (state p)) @ [h]\<rparr>\<rparr>"

definition process_add_line ::
  "streaming_patch_parser \<Rightarrow> ustr \<Rightarrow> parse_error + streaming_patch_parser" where
  "process_add_line p line =
     (case (strip_prefix [43] line, hunks (state p) = [], last (hunks (state p))) of
        (Some line_to_add, False, AddFile path contents) \<Rightarrow>
          Inr (replace_last_hunk (AddFile path (contents @ line_to_add @ [LF])) p)
      | _ \<Rightarrow> Inl (InvalidHunkError (not_a_header_msg (trim line)) (line_number p)))"

definition process_update_line ::
  "streaming_patch_parser \<Rightarrow> ustr \<Rightarrow> parse_error + streaming_patch_parser" where
  "process_update_line p line =
     (case (hunks (state p) = [], last (hunks (state p))) of
        (False, UpdateFile path move chunks) \<Rightarrow>
          and_then (update_body_line (line_number p) move chunks line)
            (\<lambda>(move', chunks'). Inr (replace_last_hunk (UpdateFile path move' chunks') p))
      | _ \<Rightarrow> Inl (InvalidHunkError (unexpected_line_msg line) (line_number p)))"

definition process_line ::
  "streaming_patch_parser \<Rightarrow> ustr \<Rightarrow> parse_error + streaming_patch_parser" where
  "process_line p line =
     (let trimmed = trim line in
      case mode (state p) of
        NotStarted \<Rightarrow>
          if trimmed = BEGIN_PATCH_MARKER then Inr (set_mode StartedPatch p)
          else Inl (InvalidPatchError first_line_msg)
      | StartedPatch \<Rightarrow>
          and_then (handle_hunk_headers_and_end_patch p trimmed)
            (\<lambda>r. case r of Some p' \<Rightarrow> Inr p'
               | None \<Rightarrow> Inl (InvalidHunkError (not_a_header_msg trimmed) (line_number p)))
      | InAddFile \<Rightarrow>
          and_then (handle_hunk_headers_and_end_patch p trimmed)
            (\<lambda>r. case r of Some p' \<Rightarrow> Inr p' | None \<Rightarrow> process_add_line p line)
      | InDeleteFile \<Rightarrow>
          and_then (handle_hunk_headers_and_end_patch p trimmed)
            (\<lambda>r. case r of Some p' \<Rightarrow> Inr p'
               | None \<Rightarrow> Inl (InvalidHunkError (not_a_header_msg trimmed) (line_number p)))
      | InUpdateFile hunk_line_number \<Rightarrow>
          and_then (handle_hunk_headers_and_end_patch p (trim_end line))
            (\<lambda>r. case r of Some p' \<Rightarrow> Inr p' | None \<Rightarrow> process_update_line p line)
      | EndedPatch \<Rightarrow>
          if trimmed = [] then Inr p else Inl (InvalidPatchError last_line_msg))"

text \<open>One character of \<^verbatim>\<open>push_delta\<close>'s loop.\<close>

definition push_char ::
  "streaming_patch_parser \<Rightarrow> uchar \<Rightarrow> streaming_patch_parser \<times> (parse_error + unit)" where
  "push_char p ch =
     (if ch = LF then
        let line = drop_cr (line_buffer p);
            p' = p\<lparr>line_buffer := [], line_number := line_number p + 1\<rparr>
        in case process_line p' line of Inl e \<Rightarrow> (p', Inl e) | Inr p'' \<Rightarrow> (p'', Inr ())
      else (p\<lparr>line_buffer := line_buffer p @ [ch]\<rparr>, Inr ()))"

definition push_delta ::
  "streaming_patch_parser \<Rightarrow> ustr \<Rightarrow> streaming_patch_parser \<times> (parse_error + hunk list)" where
  "push_delta p delta =
     (case try_fold push_char p delta of
        (p', Inl e) \<Rightarrow> (p', Inl e)
      | (p', Inr u) \<Rightarrow> (p', Inr (hunks (state p'))))"

definition finish_line ::
  "streaming_patch_parser \<Rightarrow> ustr \<Rightarrow> parse_error + streaming_patch_parser" where
  "finish_line p line =
     (if trim line = END_PATCH_MARKER then
        and_then (ensure_update_hunk_is_not_empty p (trim line))
          (\<lambda>_. Inr (set_mode EndedPatch p))
      else process_line p line)"

definition finish ::
  "streaming_patch_parser \<Rightarrow> streaming_patch_parser \<times> (parse_error + hunk list)" where
  "finish p =
     (let p' = p\<lparr>line_buffer := [], line_number := line_number p + 1\<rparr> in
      case (if line_buffer p = [] then Inr p else finish_line p' (line_buffer p)) of
        Inl e \<Rightarrow> (p', Inl e)
      | Inr p'' \<Rightarrow>
          (p'', if mode (state p'') = EndedPatch then Inr (hunks (state p''))
                else Inl (InvalidPatchError last_line_msg)))"

section \<open>Whole texts\<close>

definition check_start_and_end_lines_strict ::
  "ustr option \<Rightarrow> ustr option \<Rightarrow> parse_error + unit" where
  "check_start_and_end_lines_strict first_line last_line =
     (case (map_option trim first_line, map_option trim last_line) of
        (Some f, Some l) \<Rightarrow>
          if f = BEGIN_PATCH_MARKER \<and> l = END_PATCH_MARKER then Inr ()
          else if f \<noteq> BEGIN_PATCH_MARKER then Inl (InvalidPatchError first_line_msg)
          else Inl (InvalidPatchError last_line_msg)
      | (Some f, None) \<Rightarrow>
          if f \<noteq> BEGIN_PATCH_MARKER then Inl (InvalidPatchError first_line_msg)
          else Inl (InvalidPatchError last_line_msg)
      | (None, _) \<Rightarrow> Inl (InvalidPatchError last_line_msg))"

definition check_patch_boundaries_strict :: "ustr list \<Rightarrow> parse_error + ustr list" where
  "check_patch_boundaries_strict ls =
     and_then
       (case ls of
          [] \<Rightarrow> check_start_and_end_lines_strict None None
        | f # _ \<Rightarrow> check_start_and_end_lines_strict (Some f) (Some (last ls)))
       (\<lambda>_. Inr ls)"

definition heredoc_openers :: "ustr list" where
  "heredoc_openers = [str ''<<EOF'', str ''<<'' @ squote (str ''EOF''), str ''<<'' @ [34] @ str ''EOF'' @ [34]]"

definition check_patch_boundaries_lenient :: "ustr list \<Rightarrow> parse_error + ustr list" where
  "check_patch_boundaries_lenient original_lines =
     (case check_patch_boundaries_strict original_lines of
        Inr ls \<Rightarrow> Inr ls
      | Inl original_parse_error \<Rightarrow>
          if 2 \<le> length original_lines \<and> hd original_lines \<in> set heredoc_openers \<and>
             ends_with (str ''EOF'') (last original_lines) \<and> 4 \<le> length original_lines
          then check_patch_boundaries_strict (butlast (tl original_lines))
          else Inl original_parse_error)"

definition parse_patch_text :: "ustr \<Rightarrow> parse_mode \<Rightarrow> parse_error + apply_patch_args" where
  "parse_patch_text patch m =
     and_then
       (case m of
          Strict \<Rightarrow> check_patch_boundaries_strict (lines (trim patch))
        | Lenient \<Rightarrow> check_patch_boundaries_lenient (lines (trim patch)))
       (\<lambda>patch_lines.
          let text = join [LF] patch_lines in
          case push_delta default_parser text of
            (p, Inl e) \<Rightarrow> Inl e
          | (p, Inr hs) \<Rightarrow>
              (case finish p of
                 (p', Inl e) \<Rightarrow> Inl e
               | (p', Inr hs') \<Rightarrow>
                   Inr \<lparr>args_patch = text, args_hunks = hs', args_workdir = None,
                        args_environment_id = environment_id (state p')\<rparr>))"

definition parse_patch :: "ustr \<Rightarrow> parse_error + apply_patch_args" where
  "parse_patch patch = parse_patch_text patch (if PARSE_IN_STRICT_MODE then Strict else Lenient)"

end
