(* ===== verification/Streaming.thy ===== *)
theory Streaming
  imports Prelude
begin

text \<open>
  Machines that consume a stream in pieces: the loop a caller runs over the deltas it receives, that
  cutting the stream differently gives the same result, and the contract of an invariant of one step,
  from which the invariant of every run follows. The patch parser and the agent's text parsers are
  instances.
\<close>

text \<open>One call with a delta: the result is read off the state reached, unless a step fails.\<close>

definition feed ::
  "('s \<Rightarrow> 'c \<Rightarrow> 's \<times> ('e + unit)) \<Rightarrow> ('s \<Rightarrow> 'v) \<Rightarrow> 's \<Rightarrow> 'c list \<Rightarrow> 's \<times> ('e + 'v)" where
  "feed step view s delta =
     (case try_fold step s delta of
        (s', Inl e) \<Rightarrow> (s', Inl e)
      | (s', Inr u) \<Rightarrow> (s', Inr (view s')))"

text \<open>The caller's loop: one call per delta, until one fails.\<close>

fun feed_all ::
  "('s \<Rightarrow> 'c \<Rightarrow> 's \<times> ('e + unit)) \<Rightarrow> ('s \<Rightarrow> 'v) \<Rightarrow> 's \<Rightarrow> 'c list list \<Rightarrow> 's \<times> ('e + 'v)" where
  "feed_all step view s [] = (s, Inr (view s))"
| "feed_all step view s (d # ds) =
     (case feed step view s d of
        (s', Inl e) \<Rightarrow> (s', Inl e)
      | (s', Inr v) \<Rightarrow> feed_all step view s' ds)"

lemma feed_all_concat: "feed_all step view s ds = feed step view s (concat ds)"
  by (induction ds arbitrary: s)
     (auto simp: feed_def try_fold_append split: prod.splits sum.splits)

locale step_invariant =
  fixes step :: "'s \<Rightarrow> 'c \<Rightarrow> 's \<times> ('e + unit)"
    and inv :: "'s \<Rightarrow> bool"
  assumes step_inv: "inv s \<Longrightarrow> step s c = (s', r) \<Longrightarrow> inv s'"
begin

lemma try_fold_inv: "inv s \<Longrightarrow> try_fold step s cs = (s', r) \<Longrightarrow> inv s'"
proof (induction cs arbitrary: s)
  case (Cons c cs)
  obtain t q where t: "step s c = (t, q)" by fastforce
  with Cons.prems have "inv t" by (auto intro: step_inv)
  with Cons t show ?case by (cases q) auto
qed simp

lemma feed_inv: "inv s \<Longrightarrow> feed step view s d = (s', r) \<Longrightarrow> inv s'"
  by (auto simp: feed_def dest: try_fold_inv split: prod.splits sum.splits)

lemma feed_all_inv: "inv s \<Longrightarrow> feed_all step view s ds = (s', r) \<Longrightarrow> inv s'"
  unfolding feed_all_concat by (rule feed_inv)

end

text \<open>A transitive and reflexive relation every step respects relates the ends of every run.\<close>

locale step_relation =
  fixes step :: "'s \<Rightarrow> 'c \<Rightarrow> 's \<times> ('e + unit)"
    and inv :: "'s \<Rightarrow> bool"
    and rel :: "'s \<Rightarrow> 's \<Rightarrow> bool"
  assumes rel_refl: "rel s s"
    and rel_trans: "rel s t \<Longrightarrow> rel t u \<Longrightarrow> rel s u"
    and inv_kept: "inv s \<Longrightarrow> step s c = (s', r) \<Longrightarrow> inv s'"
    and rel_step: "inv s \<Longrightarrow> step s c = (s', r) \<Longrightarrow> rel s s'"
begin

sublocale step_invariant step inv
  by unfold_locales (rule inv_kept)

lemma try_fold_rel: "inv s \<Longrightarrow> try_fold step s cs = (s', r) \<Longrightarrow> rel s s'"
proof (induction cs arbitrary: s)
  case (Cons c cs)
  obtain t q where t: "step s c = (t, q)" by fastforce
  with Cons.prems have "inv t" "rel s t" by (auto intro: step_inv rel_step)
  with Cons t show ?case by (cases q) (auto intro: rel_trans)
qed (auto intro: rel_refl)

lemma feed_rel: "inv s \<Longrightarrow> feed step view s d = (s', r) \<Longrightarrow> rel s s'"
  by (auto simp: feed_def dest: try_fold_rel split: prod.splits sum.splits)

end

end
