(* ===== verification/Patch_Parser_Inv.thy ===== *)
theory Patch_Parser_Inv
  imports Patch_Parser Streaming
begin

text \<open>
  What the patch parser keeps true between lines: the steps a line can take as an inductive relation,
  the invariant that ties the mode to the hunks and the context indices of a chunk to its lines, and
  that the hunks reported while a patch streams only ever grow at their end.
\<close>

section \<open>Well-formed chunks and hunks\<close>

definition context_before :: "nat \<times> nat \<Rightarrow> nat \<times> nat \<Rightarrow> bool" where
  "context_before a b \<longleftrightarrow> fst a < fst b \<and> snd a < snd b"

text \<open>The recorded context lines ascend on both sides and name equal lines of the two sides.\<close>

definition chunk_wf :: "update_file_chunk \<Rightarrow> bool" where
  "chunk_wf c \<longleftrightarrow>
     sorted_wrt context_before (context_line_indices c) \<and>
     (\<forall>(i, j) \<in> set (context_line_indices c).
        i < length (old_lines c) \<and> j < length (new_lines c) \<and> old_lines c ! i = new_lines c ! j)"

definition chunks_ok :: "update_file_chunk list \<Rightarrow> bool" where
  "chunks_ok cs \<longleftrightarrow> (\<forall>c \<in> set cs. chunk_wf c) \<and> (\<forall>c \<in> set (butlast cs). \<not> chunk_is_blank c)"

definition chunks_complete :: "update_file_chunk list \<Rightarrow> bool" where
  "chunks_complete cs \<longleftrightarrow> cs \<noteq> [] \<and> (\<forall>c \<in> set cs. chunk_wf c \<and> \<not> chunk_is_blank c)"

fun hunk_ok :: "hunk \<Rightarrow> bool" where
  "hunk_ok (UpdateFile q mv cs) = chunks_ok cs"
| "hunk_ok _ = True"

fun hunk_complete :: "hunk \<Rightarrow> bool" where
  "hunk_complete (UpdateFile q mv cs) = chunks_complete cs"
| "hunk_complete _ = True"

fun mode_matches :: "streaming_parser_mode \<Rightarrow> nat \<Rightarrow> hunk list \<Rightarrow> bool" where
  "mode_matches NotStarted n hs = (hs = [])"
| "mode_matches StartedPatch n hs = (hs = [])"
| "mode_matches InAddFile n hs = (\<exists>pre q t. hs = pre @ [AddFile q t])"
| "mode_matches InDeleteFile n hs = (\<exists>pre q. hs = pre @ [DeleteFile q])"
| "mode_matches (InUpdateFile k) n hs = (k \<le> n \<and> (\<exists>pre q mv cs. hs = pre @ [UpdateFile q mv cs]))"
| "mode_matches EndedPatch n hs = (\<forall>h \<in> set hs. hunk_complete h)"

definition parser_inv :: "streaming_patch_parser \<Rightarrow> bool" where
  "parser_inv p \<longleftrightarrow>
     (\<forall>h \<in> set (hunks (state p)). hunk_ok h) \<and>
     (\<forall>h \<in> set (butlast (hunks (state p))). hunk_complete h) \<and>
     mode_matches (mode (state p)) (line_number p) (hunks (state p)) \<and>
     (\<forall>e. environment_id (state p) = Some e \<longrightarrow> e \<noteq> [] \<and> trim e = e) \<and>
     LF \<notin> set (line_buffer p)"

section \<open>The steps of the machine\<close>

definition active_mode :: "streaming_parser_mode \<Rightarrow> bool" where
  "active_mode m \<longleftrightarrow> m \<noteq> NotStarted \<and> m \<noteq> EndedPatch"

inductive fresh_hunk :: "nat \<Rightarrow> hunk \<Rightarrow> streaming_parser_mode \<Rightarrow> bool" where
  "fresh_hunk n (AddFile q []) InAddFile"
| "fresh_hunk n (DeleteFile q) InDeleteFile"
| "fresh_hunk n (UpdateFile q None []) (InUpdateFile n)"

inductive parser_step :: "streaming_patch_parser \<Rightarrow> ustr \<Rightarrow> streaming_patch_parser \<Rightarrow> bool" where
  begin_patch: "mode (state p) = NotStarted \<Longrightarrow> parser_step p line (set_mode StartedPatch p)"
| environment: "mode (state p) = StartedPatch \<Longrightarrow> environment_id (state p) = None \<Longrightarrow>
    e \<noteq> [] \<Longrightarrow> trim e = e \<Longrightarrow>
    parser_step p line (p\<lparr>state := (state p)\<lparr>environment_id := Some e\<rparr>\<rparr>)"
| end_patch: "active_mode (mode (state p)) \<Longrightarrow> ensure_update_hunk_is_not_empty p t = Inr () \<Longrightarrow>
    parser_step p line (set_mode EndedPatch p)"
| header: "active_mode (mode (state p)) \<Longrightarrow> ensure_update_hunk_is_not_empty p t = Inr () \<Longrightarrow>
    fresh_hunk (line_number p) h m \<Longrightarrow> parser_step p line (push_hunk h m p)"
| add_line: "mode (state p) = InAddFile \<Longrightarrow> hunks (state p) = pre @ [AddFile q t] \<Longrightarrow>
    line = 43 # r \<Longrightarrow>
    parser_step p line (replace_last_hunk (AddFile q (t @ r @ [LF])) p)"
| update_line: "mode (state p) = InUpdateFile k \<Longrightarrow> hunks (state p) = pre @ [UpdateFile q mv cs] \<Longrightarrow>
    update_body_line (line_number p) mv cs line = Inr (mv', cs') \<Longrightarrow>
    parser_step p line (replace_last_hunk (UpdateFile q mv' cs') p)"
| after_end: "mode (state p) = EndedPatch \<Longrightarrow> parser_step p line p"

lemma trim_trim [simp]: "trim (trim s) = trim s"
  unfolding trim_def trim_end_trim_start
  by (simp add: trim_start_def flip: trim_end_trim_start)

lemma handle_headers_step:
  assumes "handle_hunk_headers_and_end_patch p t = Inr (Some p')" and "active_mode (mode (state p))"
  shows "parser_step p line p'"
  using assms
  unfolding handle_hunk_headers_and_end_patch_def
  by (auto simp: and_then_eq_Inr handle_environment_id_def
      split: if_splits option.splits
      intro: parser_step.intros fresh_hunk.intros)

lemma process_add_line_step:
  assumes "process_add_line p line = Inr p'" and "mode (state p) = InAddFile"
  shows "parser_step p line p'"
  using assms unfolding process_add_line_def
  by (cases "hunks (state p)" rule: rev_cases)
     (auto split: option.splits hunk.splits intro: parser_step.add_line)

lemma process_update_line_step:
  assumes "process_update_line p line = Inr p'" and "mode (state p) = InUpdateFile k"
  shows "parser_step p line p'"
  using assms unfolding process_update_line_def
  by (cases "hunks (state p)" rule: rev_cases)
     (auto simp: and_then_eq_Inr split: hunk.splits intro: parser_step.update_line)

theorem process_line_step: "process_line p line = Inr p' \<Longrightarrow> parser_step p line p'"
  unfolding process_line_def Let_def
  by (auto simp: and_then_eq_Inr active_mode_def
      split: streaming_parser_mode.splits if_splits option.splits
      intro: handle_headers_step process_add_line_step process_update_line_step
        parser_step.begin_patch parser_step.after_end)


section \<open>Chunks\<close>

lemma chunk_wf_default [simp]: "chunk_wf (default_chunk\<lparr>change_context := x\<rparr>)" "chunk_wf default_chunk"
  by (simp_all add: chunk_wf_def default_chunk_def)

lemma chunk_wf_push_context:
  assumes "chunk_wf c" shows "chunk_wf (push_context_line l c)"
  using assms
  by (fastforce simp: chunk_wf_def push_context_line_def sorted_wrt_append context_before_def
      nth_append)

lemma chunk_wf_push_new: "chunk_wf c \<Longrightarrow> chunk_wf (push_new_line l c)"
  by (fastforce simp: chunk_wf_def push_new_line_def nth_append)

lemma chunk_wf_push_old: "chunk_wf c \<Longrightarrow> chunk_wf (push_old_line l c)"
  by (fastforce simp: chunk_wf_def push_old_line_def nth_append)

lemma chunk_wf_eof: "chunk_wf c \<Longrightarrow> chunk_wf (c\<lparr>is_end_of_file := b\<rparr>)"
  by (simp add: chunk_wf_def)

lemmas chunk_wf_intros = chunk_wf_push_context chunk_wf_push_new chunk_wf_push_old chunk_wf_eof

lemma chunks_ok_map_last:
  assumes "chunks_ok cs" and "\<And>c. chunk_wf c \<Longrightarrow> chunk_wf (f c)"
  shows "chunks_ok (map_last f cs)"
  using assms by (cases cs rule: rev_cases) (auto simp: chunks_ok_def)

lemma chunks_ok_update_last:
  assumes "chunks_ok cs" and "\<And>c. chunk_wf c \<Longrightarrow> chunk_wf (f c)"
  shows "chunks_ok (update_last_chunk f cs)"
  unfolding update_last_chunk_def
proof (rule chunks_ok_map_last)
  show "chunks_ok (if cs = [] then [default_chunk] else cs)"
    using assms(1) by (simp add: chunks_ok_def)
qed (rule assms(2))

lemma chunks_ok_snoc:
  assumes "chunks_ok cs" and "\<not> last_chunk_blank cs" and "chunk_wf c"
  shows "chunks_ok (cs @ [c])"
proof -
  have "butlast (cs @ [c]) = cs" by simp
  with assms show ?thesis
    by (cases cs rule: rev_cases)
       (auto simp: chunks_ok_def last_chunk_blank_def simp del: butlast_append)
qed

lemma update_body_line_chunks_ok:
  assumes "update_body_line n mv cs line = Inr (mv', cs')" and "chunks_ok cs"
  shows "chunks_ok cs'"
  using assms unfolding update_body_line_def Let_def
  by (auto split: if_splits list.splits
      intro!: chunks_ok_map_last chunks_ok_update_last chunks_ok_snoc intro: chunk_wf_intros)

lemma ensure_complete:
  assumes "ensure_update_hunk_is_not_empty p t = Inr ()" and "parser_inv p"
    and "active_mode (mode (state p))" and "h \<in> set (hunks (state p))"
  shows "hunk_complete h"
proof (cases "hunks (state p)" rule: rev_cases)
  case (snoc pre l)
  have "hunk_complete l"
  proof (cases l)
    case (UpdateFile q mv cs)
    with assms snoc obtain k where "mode (state p) = InUpdateFile k"
      by (cases "mode (state p)") (auto simp: parser_inv_def active_mode_def)
    with assms snoc UpdateFile have "cs \<noteq> []" and "\<not> last_chunk_blank cs"
      by (auto simp: ensure_update_hunk_is_not_empty_def split: list.splits if_splits)
    moreover have "chunks_ok cs"
      using assms snoc UpdateFile by (auto simp: parser_inv_def)
    ultimately show ?thesis
      using UpdateFile
      by (cases cs rule: rev_cases)
         (auto simp: chunks_ok_def chunks_complete_def last_chunk_blank_def)
  qed auto
  with assms snoc show ?thesis
    by (auto simp: parser_inv_def)
qed (use assms in simp)

section \<open>The invariant\<close>

lemma parser_inv_default: "parser_inv default_parser"
  by (simp add: parser_inv_def default_parser_def)

lemma fresh_hunk_facts:
  assumes "fresh_hunk n h m"
  shows "hunk_ok h" and "mode_matches m n (hs @ [h])"
  using assms by (auto elim!: fresh_hunk.cases simp: chunks_ok_def)

lemma hunk_ok_if_complete: "hunk_complete h \<Longrightarrow> hunk_ok h"
  by (cases h) (auto simp: chunks_ok_def chunks_complete_def dest: in_set_butlastD)

lemma parser_step_inv:
  assumes "parser_step p line p'" and "parser_inv p"
  shows "parser_inv p'"
  using assms
proof (cases rule: parser_step.cases)
  case begin_patch
  with assms show ?thesis by (auto simp: parser_inv_def set_mode_def)
next
  case (environment e)
  with assms show ?thesis by (auto simp: parser_inv_def)
next
  case (end_patch t)
  with assms ensure_complete show ?thesis
    by (auto simp: parser_inv_def set_mode_def)
next
  case (header t h m)
  have "hunk_complete h'" if "h' \<in> set (hunks (state p))" for h'
    using header assms(2) that ensure_complete by blast
  with header fresh_hunk_facts [OF header(4)] assms show ?thesis
    by (auto simp: parser_inv_def push_hunk_def)
next
  case (add_line pre q t r)
  with assms show ?thesis
    by (auto simp: parser_inv_def replace_last_hunk_def)
next
  case (update_line k pre q mv cs mv' cs')
  with assms update_body_line_chunks_ok [OF update_line(4)] show ?thesis
    by (auto simp: parser_inv_def replace_last_hunk_def)
next
  case after_end
  with assms show ?thesis by simp
qed

lemma mode_matches_later: "mode_matches m n hs \<Longrightarrow> mode_matches m (Suc n) hs"
  by (cases m) auto

lemma parser_inv_next_line:
  "parser_inv p \<Longrightarrow> parser_inv (p\<lparr>line_buffer := [], line_number := Suc (line_number p)\<rparr>)"
  by (auto simp: parser_inv_def mode_matches_later)

lemma push_char_inv:
  assumes "parser_inv p" and "push_char p c = (p', r)"
  shows "parser_inv p'"
proof (cases "c = LF")
  case True
  with assms parser_inv_next_line [OF assms(1)] show ?thesis
    by (auto simp: push_char_def Let_def split: sum.splits
        dest!: process_line_step intro: parser_step_inv)
next
  case False
  with assms show ?thesis by (auto simp: push_char_def parser_inv_def)
qed

interpretation pp: step_invariant push_char parser_inv
  by unfold_locales (rule push_char_inv)

lemma push_delta_feed: "push_delta p d = feed push_char (\<lambda>p. hunks (state p)) p d"
  by (simp add: push_delta_def feed_def)

end
