(* ===== verification/Seek_Sequence.thy ===== *)
theory Seek_Sequence
  imports Prelude
begin

text \<open>
  \<^verbatim>\<open>codex-rs/apply-patch/src/seek_sequence.rs\<close>: where a run of pattern lines sits in a file,
  searched in four passes that compare the lines ever more loosely. Each pass compares the lines
  under a key (the line itself, trimmed at the end, trimmed on both sides, with typographic
  punctuation normalised); the contract between two passes is the locale \<open>coarser_key\<close>, which says
  that the later key identifies at least the lines the earlier one does.
\<close>

datatype apply_patch_file_update_mode = NormalizeToLf | PreserveLineEndings

definition normalise_char :: "uchar \<Rightarrow> uchar" where
  "normalise_char c =
     (if 8208 \<le> c \<and> c \<le> 8213 \<or> c = 8722 then 45
      else if 8216 \<le> c \<and> c \<le> 8219 then 39
      else if 8220 \<le> c \<and> c \<le> 8223 then 34
      else if c = 160 \<or> 8194 \<le> c \<and> c \<le> 8202 \<or> c = 8239 \<or> c = 8287 \<or> c = 12288 then 32
      else c)"

definition normalise :: "ustr \<Rightarrow> ustr" where
  "normalise s = map normalise_char (trim s)"

text \<open>One window of the file against the pattern, the lines compared under \<open>key\<close>.\<close>

definition window_matches :: "(ustr \<Rightarrow> ustr) \<Rightarrow> ustr list \<Rightarrow> ustr list \<Rightarrow> nat \<Rightarrow> bool" where
  "window_matches key ls pattern i \<longleftrightarrow>
     map key (take (length pattern) (drop i ls)) = map key pattern"

text \<open>Where the search starts: with \<open>eof\<close> at the last window of the file.\<close>

definition search_start ::
  "ustr list \<Rightarrow> ustr list \<Rightarrow> nat \<Rightarrow> bool \<Rightarrow> apply_patch_file_update_mode \<Rightarrow> nat" where
  "search_start ls pattern start eof update_mode =
     (if eof \<and> length pattern \<le> length ls then
        let eof_start = length ls - length pattern in
        case update_mode of
          NormalizeToLf \<Rightarrow> eof_start
        | PreserveLineEndings \<Rightarrow> max eof_start start
      else start)"

definition search_positions :: "ustr list \<Rightarrow> ustr list \<Rightarrow> nat \<Rightarrow> nat list" where
  "search_positions ls pattern from = [from ..< Suc (length ls - length pattern)]"

definition seek_pass ::
  "(ustr \<Rightarrow> ustr) \<Rightarrow> ustr list \<Rightarrow> ustr list \<Rightarrow> nat \<Rightarrow> nat option" where
  "seek_pass key ls pattern from =
     find (window_matches key ls pattern) (search_positions ls pattern from)"

definition seek_sequence ::
  "ustr list \<Rightarrow> ustr list \<Rightarrow> nat \<Rightarrow> bool \<Rightarrow> apply_patch_file_update_mode \<Rightarrow> nat option" where
  "seek_sequence ls pattern start eof update_mode =
     (if pattern = [] then Some start
      else if length ls < length pattern then None
      else
        let from = search_start ls pattern start eof update_mode in
        case seek_pass id ls pattern from of
          Some i \<Rightarrow> Some i
        | None \<Rightarrow> (case seek_pass trim_end ls pattern from of
          Some i \<Rightarrow> Some i
        | None \<Rightarrow> (case seek_pass trim ls pattern from of
          Some i \<Rightarrow> Some i
        | None \<Rightarrow> seek_pass normalise ls pattern from)))"

section \<open>One pass\<close>

lemma find_upt_Some:
  "find P [a..<b] = Some i \<longleftrightarrow> a \<le> i \<and> i < b \<and> P i \<and> (\<forall>j. a \<le> j \<and> j < i \<longrightarrow> \<not> P j)"
proof (induction "b - a" arbitrary: a)
  case 0
  then show ?case by auto
next
  case (Suc n)
  then have ab: "a < b" and n: "n = b - Suc a" by auto
  show ?case
  proof (cases "P a")
    case True
    with ab show ?thesis by (force simp: upt_conv_Cons not_less)
  next
    case False
    have le: "a \<le> j \<longleftrightarrow> j = a \<or> Suc a \<le> j" for j by auto
    from False ab have "find P [a..<b] = find P [Suc a..<b]" by (simp add: upt_conv_Cons)
    with Suc.hyps(1) [OF n] False show ?thesis by (auto simp: le)
  qed
qed

lemma find_upt_None: "find P [a..<b] = None \<longleftrightarrow> (\<forall>j. a \<le> j \<and> j < b \<longrightarrow> \<not> P j)"
  by (auto simp: find_None_iff)

lemma seek_pass_Some:
  "seek_pass key ls pattern from = Some i \<longleftrightarrow>
     from \<le> i \<and> i \<le> length ls - length pattern \<and> window_matches key ls pattern i \<and>
     (\<forall>j. from \<le> j \<and> j < i \<longrightarrow> \<not> window_matches key ls pattern j)"
  by (auto simp: seek_pass_def search_positions_def find_upt_Some simp del: upt_Suc)

lemma seek_pass_None:
  "seek_pass key ls pattern from = None \<longleftrightarrow>
     (\<forall>j. from \<le> j \<and> j \<le> length ls - length pattern \<longrightarrow> \<not> window_matches key ls pattern j)"
  by (auto simp: seek_pass_def search_positions_def find_upt_None simp del: upt_Suc)

section \<open>Passes of increasing tolerance\<close>

locale coarser_key =
  fixes fine coarse :: "ustr \<Rightarrow> ustr"
  assumes refines: "fine x = fine y \<Longrightarrow> coarse x = coarse y"
begin

lemma window_coarser:
  assumes "window_matches fine ls pattern i" shows "window_matches coarse ls pattern i"
proof -
  have maps: "map coarse xs = map coarse ys" if "map fine xs = map fine ys" for xs ys
    using that
  proof (induction xs arbitrary: ys)
    case (Cons x xs)
    then obtain y zs where "ys = y # zs" "fine x = fine y" "map fine xs = map fine zs"
      by (auto simp: Cons_eq_map_conv)
    with Cons.IH [of zs] refines [of x y] show ?case by simp
  qed simp
  from assms show ?thesis
    unfolding window_matches_def by (rule maps)
qed

lemma pass_None_finer:
  "seek_pass coarse ls pattern from = None \<Longrightarrow> seek_pass fine ls pattern from = None"
  by (auto simp: seek_pass_None dest: window_coarser)

end

interpretation exact_rstrip: coarser_key id trim_end
  by unfold_locales simp

interpretation rstrip_strip: coarser_key trim_end trim
  by unfold_locales (simp add: trim_of_trim_end)

interpretation strip_normal: coarser_key trim normalise
  by unfold_locales (simp add: normalise_def)

lemma seek_sequence_cases:
  assumes "pattern \<noteq> []" and "seek_sequence ls pattern start eof m = Some i"
  shows "\<exists>key \<in> {id, trim_end, trim, normalise}.
    seek_pass key ls pattern (search_start ls pattern start eof m) = Some i"
  using assms by (auto simp: seek_sequence_def Let_def split: if_splits option.splits)

lemma window_any_normal:
  assumes "key \<in> {id, trim_end, trim, normalise}" and "window_matches key ls pattern i"
  shows "window_matches normalise ls pattern i"
  using assms
  by (auto dest: exact_rstrip.window_coarser rstrip_strip.window_coarser
      strip_normal.window_coarser)

lemma seek_sequence_bounds:
  assumes "pattern \<noteq> []" and "seek_sequence ls pattern start eof m = Some i"
  shows "search_start ls pattern start eof m \<le> i" and "i + length pattern \<le> length ls"
    and "window_matches normalise ls pattern i"
proof -
  from assms have len: "length pattern \<le> length ls"
    by (auto simp: seek_sequence_def split: if_splits)
  from seek_sequence_cases [OF assms] obtain key where key: "key \<in> {id, trim_end, trim, normalise}"
    and pass: "seek_pass key ls pattern (search_start ls pattern start eof m) = Some i"
    by blast
  from pass len show "search_start ls pattern start eof m \<le> i" "i + length pattern \<le> length ls"
    by (auto simp: seek_pass_Some)
  from pass show "window_matches normalise ls pattern i"
    by (intro window_any_normal [OF key]) (simp add: seek_pass_Some)
qed

section \<open>What the search promises\<close>

lemma seek_sequence_first:
  assumes "pattern \<noteq> []" and "search_start ls pattern start eof m \<le> i"
    and "i + length pattern \<le> length ls" and "take (length pattern) (drop i ls) = pattern"
    and "\<And>j. search_start ls pattern start eof m \<le> j \<Longrightarrow> j < i \<Longrightarrow>
      take (length pattern) (drop j ls) \<noteq> pattern"
  shows "seek_sequence ls pattern start eof m = Some i"
proof -
  from assms have "seek_pass id ls pattern (search_start ls pattern start eof m) = Some i"
    by (auto simp: seek_pass_Some window_matches_def)
  with assms show ?thesis
    by (simp add: seek_sequence_def Let_def)
qed


end
