(* ===== verification/Edits.thy ===== *)
theory Edits
  imports Prelude
begin

text \<open>
  The abstract edit both file updaters implement: a list of replacements \<open>(start, old_len, new)\<close>,
  in ascending order and without overlap, and the text it produces. Here are also the facts about
  stable sorting that show when a list of replacements collected in any order becomes such a list.
\<close>

type_synonym 'a replacement = "nat \<times> nat \<times> 'a list"

text \<open>Ascending, disjoint, inside a text of \<open>n\<close> lines, from line \<open>i\<close> on.\<close>

fun ordered_edits :: "nat \<Rightarrow> nat \<Rightarrow> 'a replacement list \<Rightarrow> bool" where
  "ordered_edits i n [] = (i \<le> n)"
| "ordered_edits i n ((s, l, new) # rs) = (i \<le> s \<and> s + l \<le> n \<and> ordered_edits (s + l) n rs)"

text \<open>The text with the replacements made, from line \<open>i\<close> on.\<close>

fun splice :: "'a list \<Rightarrow> nat \<Rightarrow> 'a replacement list \<Rightarrow> 'a list" where
  "splice xs i [] = drop i xs"
| "splice xs i ((s, l, new) # rs) = take (s - i) (drop i xs) @ new @ splice xs (s + l) rs"

lemma ordered_edits_weaken: "ordered_edits i n rs \<Longrightarrow> j \<le> i \<Longrightarrow> ordered_edits j n rs"
  by (cases rs) auto

lemma ordered_edits_bound: "ordered_edits i n rs \<Longrightarrow> i \<le> n"
  by (induction i n rs rule: ordered_edits.induct) auto

lemma ordered_edits_append:
  "ordered_edits i n (rs @ [(s, l, new)]) \<longleftrightarrow> ordered_edits i s rs \<and> s + l \<le> n"
  by (induction i n rs rule: ordered_edits.induct) (auto dest: ordered_edits_bound)

text \<open>The same edit with the replacements made from the last to the first.\<close>

lemma splice_snoc:
  assumes "ordered_edits i s rs" and "s + l \<le> length xs"
  shows "splice xs i (rs @ [(s, l, new)]) = splice (take s xs @ new @ drop (s + l) xs) i rs"
  using assms
proof (induction rs arbitrary: i)
  case Nil
  then show ?case by (simp add: take_drop)
next
  case (Cons r rs)
  obtain s' l' new' where r: "r = (s', l', new')" by (cases r)
  let ?ys = "take s xs @ new @ drop (s + l) xs"
  from Cons.prems r have s': "i \<le> s'" "s' + l' \<le> s" and rs: "ordered_edits (s' + l') s rs"
    by auto
  have "take (s' - i) (drop i ?ys) = take (s' - i) (drop i xs)"
    using s' Cons.prems(2) by (simp add: take_drop)
  with Cons.IH [OF rs Cons.prems(2)] r show ?case by simp
qed

lemma splice_map: "map f (splice xs i rs) = splice (map f xs) i (map (\<lambda>(s, l, new). (s, l, map f new)) rs)"
  by (induction xs i rs rule: splice.induct) (auto simp: take_map drop_map)

lemma ordered_edits_map [simp]:
  "ordered_edits i n (map (\<lambda>(s, l, new). (s, l, f new)) rs) = ordered_edits i n rs"
  by (induction i n rs rule: ordered_edits.induct) auto

section \<open>Pairs of edits\<close>

definition edit_end :: "'a replacement \<Rightarrow> nat" where
  "edit_end r = fst r + fst (snd r)"

text \<open>\<open>before r r'\<close>: \<open>r\<close> ends where \<open>r'\<close> starts, or earlier.\<close>

definition edit_before :: "'a replacement \<Rightarrow> 'a replacement \<Rightarrow> bool" where
  "edit_before r r' \<longleftrightarrow> edit_end r \<le> fst r'"

text \<open>Two edits collected in this order do not overlap, and only the later one can come to stand
  before the earlier one by having a smaller start.\<close>

definition edit_apart :: "'a replacement \<Rightarrow> 'a replacement \<Rightarrow> bool" where
  "edit_apart r r' \<longleftrightarrow> edit_before r r' \<or> edit_before r' r \<and> fst r' < fst r"

lemma ordered_edits_iff:
  assumes "i \<le> n"
  shows "ordered_edits i n rs \<longleftrightarrow>
    sorted_wrt edit_before rs \<and> (\<forall>r \<in> set rs. i \<le> fst r \<and> edit_end r \<le> n)"
  using assms
proof (induction rs arbitrary: i)
  case (Cons r rs)
  obtain s l new where r: "r = (s, l, new)" by (cases r)
  show ?case
  proof (cases "s + l \<le> n")
    case True
    with Cons.IH [OF True] r show ?thesis
      by (fastforce simp: edit_before_def edit_end_def)
  next
    case False
    with r show ?thesis by (auto simp: edit_end_def)
  qed
qed simp

lemma sorted_wrt_insort_key:
  assumes "sorted_wrt P ys"
    and "sorted (map f ys)"
    and "\<And>y. y \<in> set ys \<Longrightarrow> f x \<le> f y \<Longrightarrow> P x y"
    and "\<And>y. y \<in> set ys \<Longrightarrow> f y < f x \<Longrightarrow> P y x"
  shows "sorted_wrt P (insort_key f x ys)"
  using assms
proof (induction ys)
  case (Cons y ys)
  show ?case
  proof (cases "f x \<le> f y")
    case True
    with Cons.prems show ?thesis by force
  next
    case False
    with Cons show ?thesis by (auto simp: set_insort_key)
  qed
qed simp

text \<open>A stable sort by a key turns a relation between earlier and later elements into one between
  neighbours of the sorted list.\<close>

lemma sorted_wrt_sort_key:
  fixes f :: "'b \<Rightarrow> 'c :: linorder"
  assumes "sorted_wrt Q xs"
    and "\<And>a b. Q a b \<Longrightarrow> f a \<le> f b \<Longrightarrow> P a b"
    and "\<And>a b. Q a b \<Longrightarrow> f b < f a \<Longrightarrow> P b a"
  shows "sorted_wrt P (sort_key f xs)"
  using assms(1)
proof (induction xs)
  case (Cons x xs)
  then show ?case
    by (auto simp: assms(2,3) intro!: sorted_wrt_insort_key)
qed simp

lemma ordered_edits_sort:
  assumes "sorted_wrt edit_apart rs" and "\<And>r. r \<in> set rs \<Longrightarrow> edit_end r \<le> n"
  shows "ordered_edits 0 n (sort_key fst rs)"
proof -
  have "sorted_wrt edit_before (sort_key fst rs)"
    using assms(1)
    by (rule sorted_wrt_sort_key) (auto simp: edit_apart_def edit_before_def edit_end_def)
  with assms(2) show ?thesis by (simp add: ordered_edits_iff)
qed

end
