(* ===== verification/Text_File.thy ===== *)
theory Text_File
  imports Edits
begin

text \<open>
  \<^verbatim>\<open>codex-rs/apply-patch/src/text_file.rs\<close>: a file as its lines, each with the ending it
  had, so that an update can leave the endings of untouched lines alone. The byte cursor of
  \<open>SourceFile::parse\<close> is the remaining text, the slice from \<open>line_start\<close> to the cursor is the
  accumulated line. \<open>apply_replacements\<close> subtracts line numbers of type \<^verbatim>\<open>usize\<close> under a
  \<^verbatim>\<open>debug_assert!\<close>: \<open>None\<close> is the panic (the assertion, or the subtraction overflow).
\<close>

datatype line_ending = Lf | CrLf | Cr

fun as_str :: "line_ending \<Rightarrow> ustr" where
  "as_str Lf = [LF]"
| "as_str CrLf = [CR, LF]"
| "as_str Cr = [CR]"

record source_line =
  line_text :: ustr
  line_ending :: "line_ending option"

record source_file =
  source_lines :: "source_line list"
  preferred_ending :: line_ending

text \<open>The line ending at the cursor, and what follows it.\<close>

definition ending_at :: "uchar \<Rightarrow> ustr \<Rightarrow> (line_ending \<times> ustr) option" where
  "ending_at c cs =
     (if c = CR then
        (case cs of
           [] \<Rightarrow> Some (Cr, [])
         | d # ds \<Rightarrow> if d = LF then Some (CrLf, ds) else Some (Cr, cs))
      else if c = LF then Some (Lf, cs)
      else None)"

lemma ending_at_Some: "ending_at c cs = Some (e, rest) \<Longrightarrow> c # cs = as_str e @ rest"
  by (auto simp: ending_at_def split: if_splits list.splits)

lemma ending_at_None: "ending_at c cs = None \<longleftrightarrow> c \<noteq> CR \<and> c \<noteq> LF"
  by (auto simp: ending_at_def split: list.splits)

lemma ending_at_shorter [termination_simp]:
  "ending_at c cs = Some (e, rest) \<Longrightarrow> length rest < Suc (length cs)"
  by (auto simp: ending_at_def split: if_splits list.splits)

definition get_or_insert :: "'a option \<Rightarrow> 'a \<Rightarrow> 'a option" where
  "get_or_insert x a = (case x of None \<Rightarrow> Some a | Some b \<Rightarrow> Some b)"

text \<open>The loop of \<open>SourceFile::parse\<close>: the line so far, the first ending seen so far and the rest
  of the contents.\<close>

fun parse_loop ::
  "ustr \<Rightarrow> line_ending option \<Rightarrow> ustr \<Rightarrow> source_line list \<times> line_ending option" where
  "parse_loop cur pref [] =
     (if cur = [] then [] else [\<lparr>line_text = cur, line_ending = None\<rparr>], pref)"
| "parse_loop cur pref (c # cs) =
     (case ending_at c cs of
        None \<Rightarrow> parse_loop (cur @ [c]) pref cs
      | Some (ending, rest) \<Rightarrow>
          (case parse_loop [] (get_or_insert pref ending) rest of
             (ls, p) \<Rightarrow> (\<lparr>line_text = cur, line_ending = Some ending\<rparr> # ls, p)))"

definition source_file_parse :: "ustr \<Rightarrow> source_file" where
  "source_file_parse contents =
     (let (ls, pref) = parse_loop [] None contents
      in \<lparr>source_lines = ls,
          preferred_ending = (case pref of None \<Rightarrow> Lf | Some e \<Rightarrow> e)\<rparr>)"

definition line_texts :: "source_file \<Rightarrow> ustr list" where
  "line_texts f = map line_text (source_lines f)"

text \<open>The main loop of \<open>SourceFile::apply_replacements\<close>: the source lines left, the index of the
  first of them, the replacements left, and the new lines so far.\<close>

fun replace_loop ::
  "line_ending \<Rightarrow> source_line list \<Rightarrow> nat \<Rightarrow> ustr replacement list \<Rightarrow> source_line list \<Rightarrow>
     source_line list option" where
  "replace_loop pref src i [] acc = Some (acc @ src)"
| "replace_loop pref src i ((start_idx, old_len, new_segment) # rs) acc =
     (if start_idx < i then None
      else
        let kept = take (start_idx - i) src;
            src' = drop old_len (drop (start_idx - i) src)
        in replace_loop pref src' (start_idx + old_len) rs
             (acc @ kept @
              map (\<lambda>t. \<lparr>line_text = t, line_ending = Some pref\<rparr>) new_segment))"

definition fill_ending :: "line_ending \<Rightarrow> source_line \<Rightarrow> source_line" where
  "fill_ending pref l =
     l\<lparr>line_ending := get_or_insert (line_ending l) pref\<rparr>"

definition source_file_apply_replacements ::
  "source_file \<Rightarrow> ustr replacement list \<Rightarrow> source_file option" where
  "source_file_apply_replacements f rs =
     (case replace_loop (preferred_ending f) (source_lines f) 0 rs [] of
        None \<Rightarrow> None
      | Some ls \<Rightarrow> Some (f\<lparr>source_lines := map (fill_ending (preferred_ending f)) ls\<rparr>))"

definition line_contents :: "source_line \<Rightarrow> ustr" where
  "line_contents l = line_text l @ (case line_ending l of None \<Rightarrow> [] | Some e \<Rightarrow> as_str e)"

definition into_contents :: "source_file \<Rightarrow> ustr" where
  "into_contents f = concat (map line_contents (source_lines f))"

section \<open>Parsing keeps every character\<close>

lemma line_contents_simps [simp]:
  "line_contents \<lparr>line_text = t, line_ending = None\<rparr> = t"
  "line_contents \<lparr>line_text = t, line_ending = Some e\<rparr> = t @ as_str e"
  by (simp_all add: line_contents_def)

lemma parse_loop_contents: "concat (map line_contents (fst (parse_loop cur pref cs))) = cur @ cs"
proof (induction cur pref cs rule: parse_loop.induct)
  case (2 cur pref c cs)
  show ?case
  proof (cases "ending_at c cs")
    case None
    with "2.IH"(1) show ?thesis by simp
  next
    case (Some er)
    obtain e rest where er: "er = (e, rest)" by (cases er)
    have "concat (map line_contents (fst (parse_loop cur pref (c # cs)))) = cur @ as_str e @ rest"
      using "2.IH"(2) [OF Some, of e rest] Some er
      by (auto split: prod.splits)
    also have "as_str e @ rest = c # cs"
      using Some er by (simp add: ending_at_Some)
    finally show ?thesis .
  qed
qed simp

text \<open>Reading a file into lines and writing it back gives the same text: every character and
  every line ending, in files of mixed endings and with or without a final one, survives.\<close>

theorem into_contents_parse: "into_contents (source_file_parse contents) = contents"
  using parse_loop_contents [of "[]" None contents]
  by (auto simp: into_contents_def source_file_parse_def split: prod.splits)

text \<open>The lines of a parsed file hold no ending of their own, and only the last may lack one.\<close>

definition lines_clean :: "source_line list \<Rightarrow> bool" where
  "lines_clean ls \<longleftrightarrow>
     (\<forall>l \<in> set ls. LF \<notin> set (line_text l) \<and> CR \<notin> set (line_text l)) \<and>
     (\<forall>l \<in> set (butlast ls). line_ending l \<noteq> None)"

lemma parse_loop_clean:
  "LF \<notin> set cur \<Longrightarrow> CR \<notin> set cur \<Longrightarrow> lines_clean (fst (parse_loop cur pref cs))"
proof (induction cur pref cs rule: parse_loop.induct)
  case (2 cur pref c cs)
  show ?case
  proof (cases "ending_at c cs")
    case None
    moreover from None have "c \<noteq> CR" "c \<noteq> LF" by (simp_all add: ending_at_None)
    ultimately show ?thesis using 2 by simp
  next
    case (Some er)
    obtain e rest where er: "er = (e, rest)" by (cases er)
    with Some 2 show ?thesis
      by (auto simp: lines_clean_def split: prod.splits)
  qed
qed (simp add: lines_clean_def)

section \<open>The edit\<close>

definition line_edit :: "line_ending \<Rightarrow> ustr replacement \<Rightarrow> source_line replacement" where
  "line_edit pref = (\<lambda>(s, l, new).
     (s, l, map (\<lambda>t. \<lparr>line_text = t, line_ending = Some pref\<rparr>) new))"

lemma replace_loop_splice:
  assumes "ordered_edits i (length xs) rs"
  shows "replace_loop pref (drop i xs) i rs acc = Some (acc @ splice xs i (map (line_edit pref) rs))"
  using assms
proof (induction rs arbitrary: i acc)
  case (Cons r rs)
  obtain s l new where r: "r = (s, l, new)" by (cases r)
  from Cons.prems r have s: "i \<le> s" and rs: "ordered_edits (s + l) (length xs) rs" by auto
  from s have "drop l (drop (s - i) (drop i xs)) = drop (s + l) xs"
    by (simp add: add.commute)
  with s Cons.IH [OF rs] r show ?case
    by (simp add: Let_def line_edit_def)
qed simp


lemma source_file_apply_replacements_Some:
  assumes "ordered_edits 0 (length (source_lines f)) rs"
  obtains f' where "source_file_apply_replacements f rs = Some f'"
  using replace_loop_splice [OF assms, of "preferred_ending f" "[]"]
  by (simp add: source_file_apply_replacements_def)

lemma line_texts_replaced:
  assumes "ordered_edits 0 (length (source_lines f)) rs"
    and "source_file_apply_replacements f rs = Some f'"
  shows "line_texts f' = splice (line_texts f) 0 rs"
proof -
  let ?pref = "preferred_ending f"
  have ends: "map line_text (map (fill_ending ?pref) ls) = map line_text ls" for ls
    by (simp add: fill_ending_def)
  have edits: "map (\<lambda>(s, l, new). (s, l, map line_text new)) (map (line_edit ?pref) rs) = rs"
    unfolding map_map by (rule map_idI) (auto simp: line_edit_def comp_def)
  have "source_lines f' =
      map (fill_ending ?pref) (splice (source_lines f) 0 (map (line_edit ?pref) rs))"
    using assms(2) replace_loop_splice [OF assms(1), of ?pref "[]"]
    by (auto simp: source_file_apply_replacements_def)
  then have "line_texts f' = map line_text (splice (source_lines f) 0 (map (line_edit ?pref) rs))"
    by (simp only: line_texts_def ends)
  then show ?thesis
    by (simp only: splice_map edits line_texts_def)
qed

end
