(* ===== verification/File_Update.thy ===== *)
theory File_Update
  imports Patch_Parser_Inv Seek_Sequence Text_File
begin

text \<open>
  \<^verbatim>\<open>codex-rs/apply-patch/src/file_update.rs\<close>: from the chunks of an update hunk and the
  contents of a file to the new contents. The outer \<open>option\<close> of a result is the process: \<open>None\<close>
  is a panic (a slice or an insertion out of range, a subtraction of \<^verbatim>\<open>usize\<close> below zero), the
  sum inside is the \<^verbatim>\<open>Result\<close> of the source. Reading the file is left to the caller, which has
  the file system.
\<close>

section \<open>Errors\<close>

text \<open>The error of parsing a path is opaque here: its message.\<close>

datatype apply_patch_error =
    ParseError parse_error
  | IoError ustr io_error
  | ComputeReplacements ustr
  | PathUri ustr
  | ImplicitInvocation

section \<open>Which lines are replaced\<close>

definition insertion_idx :: "apply_patch_file_update_mode \<Rightarrow> ustr list \<Rightarrow> nat" where
  "insertion_idx m ls =
     (case m of
        NormalizeToLf \<Rightarrow> if ls \<noteq> [] \<and> last ls = [] then length ls - 1 else length ls
      | PreserveLineEndings \<Rightarrow> length ls)"

text \<open>The search for the old lines, with the retry that drops a final empty line: the pattern and
  the new lines in force, and where the pattern was found.\<close>

definition seek_chunk ::
  "apply_patch_file_update_mode \<Rightarrow> ustr list \<Rightarrow> nat \<Rightarrow> update_file_chunk \<Rightarrow>
     ustr list \<times> ustr list \<times> nat option" where
  "seek_chunk m ls line_index c =
     (let found = seek_sequence ls (old_lines c) line_index (is_end_of_file c) m in
      if found = None \<and> old_lines c \<noteq> [] \<and> last (old_lines c) = [] then
        let pattern = butlast (old_lines c);
            new_slice = (if new_lines c \<noteq> [] \<and> last (new_lines c) = []
                         then butlast (new_lines c) else new_lines c)
        in (pattern, new_slice, seek_sequence ls pattern line_index (is_end_of_file c) m)
      else (old_lines c, new_lines c, found))"

text \<open>The loop over the context lines of a chunk that keeps them in place: what lies between two
  of them is replaced. The first equation is the code after the loop, where a \<^verbatim>\<open>break\<close> goes
  too.\<close>

fun context_replacements ::
  "nat \<Rightarrow> nat \<Rightarrow> ustr list \<Rightarrow> (nat \<times> nat) list \<Rightarrow> nat \<Rightarrow> nat \<Rightarrow> ustr replacement list option" where
  "context_replacements start_idx pat_len new_slice [] old_start new_start =
     (if old_start \<noteq> pat_len \<or> new_start \<noteq> length new_slice then
        if old_start \<le> pat_len \<and> new_start \<le> length new_slice then
          Some [(start_idx + old_start, pat_len - old_start, drop new_start new_slice)]
        else None
      else Some [])"
| "context_replacements start_idx pat_len new_slice ((old_context, new_context) # cs) old_start new_start =
     (if pat_len \<le> old_context \<or> length new_slice \<le> new_context then
        context_replacements start_idx pat_len new_slice [] old_start new_start
      else if old_start \<noteq> old_context \<or> new_start \<noteq> new_context then
        if old_start \<le> old_context \<and> new_start \<le> new_context then
          map_option ((#) (start_idx + old_start, old_context - old_start,
              take (new_context - new_start) (drop new_start new_slice)))
            (context_replacements start_idx pat_len new_slice cs (old_context + 1) (new_context + 1))
        else None
      else context_replacements start_idx pat_len new_slice cs (old_context + 1) (new_context + 1))"

text \<open>The replacements of one chunk that was found at \<open>start_idx\<close>.\<close>

definition found_replacements ::
  "apply_patch_file_update_mode \<Rightarrow> nat \<Rightarrow> ustr list \<Rightarrow> ustr list \<Rightarrow> update_file_chunk \<Rightarrow>
     ustr replacement list option" where
  "found_replacements m start_idx pattern new_slice c =
     (case m of
        NormalizeToLf \<Rightarrow> Some [(start_idx, length pattern, new_slice)]
      | PreserveLineEndings \<Rightarrow>
          context_replacements start_idx (length pattern) new_slice (context_line_indices c) 0 0)"

text \<open>Moving past the line named by \<open>@@\<close>.\<close>

definition seek_context ::
  "apply_patch_file_update_mode \<Rightarrow> ustr list \<Rightarrow> ustr \<Rightarrow> update_file_chunk \<Rightarrow> nat \<Rightarrow>
     apply_patch_error + nat" where
  "seek_context m ls path c line_index =
     (case change_context c of
        None \<Rightarrow> Inr line_index
      | Some ctx_line \<Rightarrow>
          (case seek_sequence ls [ctx_line] line_index False m of
             Some idx \<Rightarrow> Inr (idx + 1)
           | None \<Rightarrow> Inl (ComputeReplacements
               (str ''Failed to find context '' @ squote ctx_line @ str '' in '' @ path))))"

fun compute_loop ::
  "apply_patch_file_update_mode \<Rightarrow> ustr list \<Rightarrow> ustr \<Rightarrow> update_file_chunk list \<Rightarrow>
     ustr replacement list \<Rightarrow> nat \<Rightarrow> (apply_patch_error + ustr replacement list) option" where
  "compute_loop m ls path [] reps line_index = Some (Inr reps)"
| "compute_loop m ls path (c # cs) reps line_index =
     (case seek_context m ls path c line_index of
        Inl e \<Rightarrow> Some (Inl e)
      | Inr line_index' \<Rightarrow>
          if old_lines c = [] then
            compute_loop m ls path cs (reps @ [(insertion_idx m ls, 0, new_lines c)]) line_index'
          else
            (case seek_chunk m ls line_index' c of
               (pattern, new_slice, None) \<Rightarrow>
                 Some (Inl (ComputeReplacements
                   (str ''Failed to find expected lines in '' @ path @ str '':'' @ [LF] @
                    join [LF] (old_lines c))))
             | (pattern, new_slice, Some start_idx) \<Rightarrow>
                 (case found_replacements m start_idx pattern new_slice c of
                    None \<Rightarrow> None
                  | Some new_reps \<Rightarrow>
                      compute_loop m ls path cs (reps @ new_reps) (start_idx + length pattern))))"

definition compute_replacements ::
  "ustr list \<Rightarrow> ustr \<Rightarrow> update_file_chunk list \<Rightarrow> apply_patch_file_update_mode \<Rightarrow>
     (apply_patch_error + ustr replacement list) option" where
  "compute_replacements original_lines path chunks m =
     (case compute_loop m original_lines path chunks [] 0 of
        None \<Rightarrow> None
      | Some (Inl e) \<Rightarrow> Some (Inl e)
      | Some (Inr reps) \<Rightarrow> Some (Inr (sort_key fst reps)))"

section \<open>Making the replacements\<close>

text \<open>\<open>for _ in 0..old_len { if start_idx < lines.len() { lines.remove(start_idx) } }\<close>\<close>

fun remove_loop :: "nat \<Rightarrow> nat \<Rightarrow> 'a list \<Rightarrow> 'a list" where
  "remove_loop 0 i xs = xs"
| "remove_loop (Suc n) i xs =
     remove_loop n i (if i < length xs then take i xs @ drop (Suc i) xs else xs)"

text \<open>\<open>Vec::insert\<close> panics beyond the end.\<close>

definition insert_at :: "nat \<Rightarrow> 'a \<Rightarrow> 'a list \<Rightarrow> 'a list option" where
  "insert_at i x xs = (if i \<le> length xs then Some (take i xs @ x # drop i xs) else None)"

fun insert_loop :: "nat \<Rightarrow> 'a list \<Rightarrow> 'a list \<Rightarrow> 'a list option" where
  "insert_loop i [] xs = Some xs"
| "insert_loop i (y # ys) xs =
     (case insert_at i y xs of None \<Rightarrow> None | Some xs' \<Rightarrow> insert_loop (Suc i) ys xs')"

fun apply_loop :: "'a replacement list \<Rightarrow> 'a list \<Rightarrow> 'a list option" where
  "apply_loop [] xs = Some xs"
| "apply_loop ((start_idx, old_len, new_segment) # rs) xs =
     (case insert_loop start_idx new_segment (remove_loop old_len start_idx xs) of
        None \<Rightarrow> None
      | Some ys \<Rightarrow> apply_loop rs ys)"

definition apply_replacements :: "'a list \<Rightarrow> 'a replacement list \<Rightarrow> 'a list option" where
  "apply_replacements xs reps = apply_loop (rev reps) xs"

section \<open>The new contents\<close>

definition normalized_lines :: "ustr \<Rightarrow> ustr list" where
  "normalized_lines contents =
     (let pieces = split_on LF contents
      in if pieces \<noteq> [] \<and> last pieces = [] then butlast pieces else pieces)"

definition derive_normalized ::
  "ustr \<Rightarrow> ustr \<Rightarrow> update_file_chunk list \<Rightarrow> (apply_patch_error + ustr) option" where
  "derive_normalized path_text original_contents chunks =
     (let original_lines = normalized_lines original_contents
      in case compute_replacements original_lines path_text chunks NormalizeToLf of
           None \<Rightarrow> None
         | Some (Inl e) \<Rightarrow> Some (Inl e)
         | Some (Inr reps) \<Rightarrow>
             (case apply_replacements original_lines reps of
                None \<Rightarrow> None
              | Some updated \<Rightarrow>
                  Some (Inr (join [LF]
                    (if updated \<noteq> [] \<and> last updated = [] then updated else updated @ [[]])))))"

definition derive_preserving ::
  "ustr \<Rightarrow> ustr \<Rightarrow> update_file_chunk list \<Rightarrow> (apply_patch_error + ustr) option" where
  "derive_preserving path_text original_contents chunks =
     (let source_file = source_file_parse original_contents;
          original_lines = line_texts source_file
      in case compute_replacements original_lines path_text chunks PreserveLineEndings of
           None \<Rightarrow> None
         | Some (Inl e) \<Rightarrow> Some (Inl e)
         | Some (Inr reps) \<Rightarrow>
             map_option (\<lambda>f. Inr (into_contents f)) (source_file_apply_replacements source_file reps))"

definition derive_new_contents ::
  "apply_patch_file_update_mode \<Rightarrow> ustr \<Rightarrow> ustr \<Rightarrow> update_file_chunk list \<Rightarrow>
     (apply_patch_error + ustr) option" where
  "derive_new_contents m path_text original_contents chunks =
     (case m of
        NormalizeToLf \<Rightarrow> derive_normalized path_text original_contents chunks
      | PreserveLineEndings \<Rightarrow> derive_preserving path_text original_contents chunks)"

section \<open>The in-place updater implements the edit\<close>

lemma remove_loop_eq: "remove_loop l i xs = take i xs @ drop (i + l) xs"
  by (induction l i xs rule: remove_loop.induct) (auto simp: not_less min_def add.commute)

lemma insert_loop_eq: "i \<le> length xs \<Longrightarrow> insert_loop i ys xs = Some (take i xs @ ys @ drop i xs)"
proof (induction ys arbitrary: i xs)
  case (Cons y ys)
  then show ?case by (simp add: insert_at_def Cons.IH [of "Suc i"] min_def)
qed simp

lemma replace_one:
  assumes "s \<le> length xs"
  shows "insert_loop s new (remove_loop l s xs) = Some (take s xs @ new @ drop (s + l) xs)"
  using assms by (simp add: remove_loop_eq insert_loop_eq min_def)

lemma ordered_edits_mono: "ordered_edits i n rs \<Longrightarrow> n \<le> k \<Longrightarrow> ordered_edits i k rs"
  by (induction i n rs rule: ordered_edits.induct) auto

text \<open>The in-place updater, which removes and inserts lines from the last replacement to the
  first, makes exactly the given replacements whenever they are in ascending order and do not overlap,
  and does not panic.\<close>

theorem apply_replacements_splice:
  assumes "ordered_edits 0 (length xs) rs"
  shows "apply_replacements xs rs = Some (splice xs 0 rs)"
  using assms
proof (induction rs arbitrary: xs rule: rev_induct)
  case Nil
  then show ?case by (simp add: apply_replacements_def)
next
  case (snoc r rs)
  obtain s l new where r: "r = (s, l, new)" by (cases r)
  let ?ys = "take s xs @ new @ drop (s + l) xs"
  from snoc.prems r have rs: "ordered_edits 0 s rs" and s: "s + l \<le> length xs"
    by (simp_all add: ordered_edits_append)
  from rs s have "ordered_edits 0 (length ?ys) rs"
    by (auto intro: ordered_edits_mono)
  from snoc.IH [OF this] have "apply_replacements ?ys rs = Some (splice ?ys 0 rs)" .
  with r s splice_snoc [OF rs s, of new] show ?case
    by (simp add: apply_replacements_def replace_one)
qed

lemma apply_replacements_total:
  assumes "sorted (map fst rs)" and "\<And>r. r \<in> set rs \<Longrightarrow> fst r \<le> length xs"
  shows "\<exists>ys. apply_replacements xs rs = Some ys"
  using assms
proof (induction rs arbitrary: xs rule: rev_induct)
  case Nil
  then show ?case by (simp add: apply_replacements_def)
next
  case (snoc r rs)
  obtain s l new where r: "r = (s, l, new)" by (cases r)
  let ?ys = "take s xs @ new @ drop (s + l) xs"
  from snoc.prems r have s: "s \<le> length xs" by force
  from snoc.prems(1) r have "\<And>r'. r' \<in> set rs \<Longrightarrow> fst r' \<le> s"
    by (auto simp: sorted_append)
  with s have "\<And>r'. r' \<in> set rs \<Longrightarrow> fst r' \<le> length ?ys"
    by fastforce
  with snoc.prems(1) have "\<exists>zs. apply_replacements ?ys rs = Some zs"
    by (intro snoc.IH) (auto simp: sorted_append)
  with r s show ?case by (simp add: apply_replacements_def replace_one)
qed

end
