(* ===== verification/Update_Plan.thy ===== *)
theory Update_Plan
  imports File_Update
begin

text \<open>
  The replacements that \<^verbatim>\<open>compute_replacements\<close> plans: they lie inside the file, they do not
  overlap when every chunk is searched from the end of the one before, and planning and replacing
  never panic for the chunks a parsed patch can hold.
\<close>

section \<open>The search of one chunk\<close>

text \<open>The search honours the current line: the modes differ for a chunk at the end of the file.\<close>

definition seeks_forward :: "apply_patch_file_update_mode \<Rightarrow> update_file_chunk \<Rightarrow> bool" where
  "seeks_forward m c \<longleftrightarrow> m = PreserveLineEndings \<or> \<not> is_end_of_file c"

lemma seek_sequence_within:
  assumes "seek_sequence ls pattern i eof m = Some s" and "i \<le> length ls"
  shows "s + length pattern \<le> length ls"
  using assms seek_sequence_bounds(2) [of pattern ls i eof m s]
  by (cases "pattern = []") (auto simp: seek_sequence_def)

lemma seek_sequence_forward:
  assumes "seek_sequence ls pattern i eof m = Some s" and "m = PreserveLineEndings \<or> \<not> eof"
  shows "i \<le> s"
proof (cases "pattern = []")
  case True
  with assms show ?thesis by (simp add: seek_sequence_def)
next
  case False
  from seek_sequence_bounds(1) [OF False assms(1)] assms(2) show ?thesis
    by (auto simp: search_start_def Let_def split: if_splits apply_patch_file_update_mode.splits)
qed

text \<open>The pattern in force is a prefix of the old lines, the new lines in force of the new ones.\<close>

lemma seek_chunk_Some:
  assumes "seek_chunk m ls i c = (pattern, new_slice, Some s)"
  shows "seek_sequence ls pattern i (is_end_of_file c) m = Some s"
    and "\<exists>k. pattern = take k (old_lines c)" and "\<exists>k. new_slice = take k (new_lines c)"
proof -
  have all: "\<exists>k. xs = take k xs" and but: "\<exists>k. butlast xs = take k xs" for xs :: "ustr list"
    by (metis take_all order_refl, metis butlast_conv_take)
  show "seek_sequence ls pattern i (is_end_of_file c) m = Some s"
    using assms by (auto simp: seek_chunk_def Let_def split: if_splits)
  show "\<exists>k. pattern = take k (old_lines c)" "\<exists>k. new_slice = take k (new_lines c)"
    using assms all but by (auto simp: seek_chunk_def Let_def split: if_splits)
qed

lemma seek_context_bounds:
  assumes "seek_context m ls path c i = Inr j" and "i \<le> length ls"
  shows "i \<le> j" and "j \<le> length ls"
proof -
  show "j \<le> length ls"
    using assms seek_sequence_within [of ls "[the (change_context c)]" i False m]
    by (auto simp: seek_context_def split: option.splits)
  show "i \<le> j"
    using assms seek_sequence_forward [of ls "[the (change_context c)]" i False m]
    by (fastforce simp: seek_context_def split: option.splits)
qed

section \<open>The replacements between context lines\<close>

lemma context_replacements_ordered:
  assumes "sorted_wrt context_before cs"
    and "\<And>a b. (a, b) \<in> set cs \<Longrightarrow> old_start \<le> a \<and> new_start \<le> b"
    and "old_start \<le> pat_len" and "new_start \<le> length new"
  shows "\<exists>rs. context_replacements s pat_len new cs old_start new_start = Some rs \<and>
    ordered_edits (s + old_start) (s + pat_len) rs"
  using assms
proof (induction cs arbitrary: old_start new_start)
  case Nil
  then show ?case by simp
next
  case (Cons ctx cs)
  obtain a b where ctx: "ctx = (a, b)" by (cases ctx)
  show ?case
  proof (cases "pat_len \<le> a \<or> length new \<le> b")
    case True
    with Cons.prems ctx show ?thesis by simp
  next
    case False
    from Cons.prems(2) [of a b] ctx have here: "old_start \<le> a" "new_start \<le> b" by simp_all
    have "\<And>x y. (x, y) \<in> set cs \<Longrightarrow> a + 1 \<le> x \<and> b + 1 \<le> y"
      using Cons.prems(1) ctx by (force simp: context_before_def)
    with Cons.IH [of "a + 1" "b + 1"] Cons.prems(1) False obtain rs where
      rs: "context_replacements s pat_len new cs (a + 1) (b + 1) = Some rs"
        "ordered_edits (s + (a + 1)) (s + pat_len) rs" by auto
    then have "ordered_edits (s + a) (s + pat_len) rs" by (auto intro: ordered_edits_weaken)
    with rs ctx here False show ?thesis by (auto intro: ordered_edits_weaken)
  qed
qed

lemma found_replacements_ordered:
  assumes "chunk_wf c"
  shows "\<exists>rs. found_replacements m s pattern new c = Some rs \<and>
    ordered_edits s (s + length pattern) rs"
proof (cases m)
  case PreserveLineEndings
  with assms context_replacements_ordered [of "context_line_indices c" 0 0 "length pattern" new s]
  show ?thesis by (simp add: found_replacements_def chunk_wf_def)
qed (simp add: found_replacements_def)

section \<open>The plan\<close>

text \<open>What has been planned so far lies before the current line, or is an insertion at the end.\<close>

definition plan_inv :: "ustr list \<Rightarrow> ustr replacement list \<Rightarrow> nat \<Rightarrow> bool" where
  "plan_inv ls rs i \<longleftrightarrow> i \<le> length ls \<and> sorted_wrt edit_apart rs \<and>
     (\<forall>r \<in> set rs. edit_end r \<le> length ls \<and> (edit_end r \<le> i \<or> fst r = length ls))"

lemma plan_inv_mono: "plan_inv ls rs i \<Longrightarrow> i \<le> j \<Longrightarrow> j \<le> length ls \<Longrightarrow> plan_inv ls rs j"
  by (auto simp: plan_inv_def)

lemma plan_inv_insertion:
  "plan_inv ls rs i \<Longrightarrow> plan_inv ls (rs @ [(length ls, 0, new)]) i"
  by (auto simp: plan_inv_def sorted_wrt_append edit_apart_def edit_before_def edit_end_def)

lemma plan_inv_found:
  assumes inv: "plan_inv ls rs i" and i: "i \<le> s" and new: "ordered_edits s e new_rs"
    and e: "e \<le> length ls"
  shows "plan_inv ls (rs @ new_rs) e"
proof -
  have se: "s \<le> e" using new by (rule ordered_edits_bound)
  from new se have sorted: "sorted_wrt edit_before new_rs"
    and bounds: "\<And>r. r \<in> set new_rs \<Longrightarrow> s \<le> fst r \<and> edit_end r \<le> e"
    by (simp_all add: ordered_edits_iff)
  have "sorted_wrt edit_apart new_rs"
    using sorted by (rule sorted_wrt_mono_rel [rotated]) (simp add: edit_apart_def)
  moreover have "edit_apart r r'" if "r \<in> set rs" "r' \<in> set new_rs" for r r'
  proof -
    from bounds [OF that(2)] e have r': "s \<le> fst r'" "edit_end r' \<le> length ls" by simp_all
    then have "fst r' \<le> length ls" by (simp add: edit_end_def)
    moreover from inv that(1) have "edit_end r \<le> i \<or> fst r = length ls" "edit_end r \<le> length ls"
      by (auto simp: plan_inv_def)
    ultimately show ?thesis using r' i
      by (auto simp: edit_apart_def edit_before_def)
  qed
  ultimately show ?thesis using inv bounds i se e
    by (fastforce simp: plan_inv_def sorted_wrt_append)
qed

text \<open>The plan of a list of chunks, each of them searched from the end of the one before.\<close>

definition planned :: "apply_patch_file_update_mode \<Rightarrow> ustr list \<Rightarrow> update_file_chunk \<Rightarrow> bool" where
  "planned m ls c \<longleftrightarrow> chunk_wf c \<and> seeks_forward m c \<and>
     (old_lines c = [] \<longrightarrow> insertion_idx m ls = length ls)"

lemma compute_loop_plan:
  assumes "\<And>c. c \<in> set cs \<Longrightarrow> planned m ls c" and "plan_inv ls rs i"
  shows "\<exists>r. compute_loop m ls path cs rs i = Some r \<and> (\<forall>out. r = Inr out \<longrightarrow> (\<exists>j. plan_inv ls out j))"
  using assms
proof (induction cs arbitrary: rs i)
  case Nil
  then show ?case by auto
next
  case (Cons c cs)
  note ih = Cons.IH and plan = Cons.prems(1) and inv = Cons.prems(2)
  have i: "i \<le> length ls" and c: "planned m ls c" using inv plan by (simp_all add: plan_inv_def)
  show ?case
  proof (cases "seek_context m ls path c i")
    case (Inl e)
    then show ?thesis by simp
  next
    case (Inr j)
    from seek_context_bounds [OF Inr i] inv have j: "plan_inv ls rs j" "j \<le> length ls"
      by (auto intro: plan_inv_mono)
    show ?thesis
    proof (cases "old_lines c = []")
      case True
      with c have "insertion_idx m ls = length ls" by (simp add: planned_def)
      with ih plan plan_inv_insertion [OF j(1)] Inr True show ?thesis by simp
    next
      case False
      obtain pattern new found where seek: "seek_chunk m ls j c = (pattern, new, found)"
        by (cases "seek_chunk m ls j c")
      show ?thesis
      proof (cases found)
        case None
        with Inr False seek show ?thesis by simp
      next
        case (Some s)
        note sq = seek_chunk_Some(1) [OF seek [unfolded Some]]
        from c obtain rs' where rs': "found_replacements m s pattern new c = Some rs'"
          "ordered_edits s (s + length pattern) rs'"
          using found_replacements_ordered [of c m s pattern new] by (auto simp: planned_def)
        have "plan_inv ls (rs @ rs') (s + length pattern)"
          using j(1) _ rs'(2) seek_sequence_within [OF sq j(2)]
          by (rule plan_inv_found)
            (use c seek_sequence_forward [OF sq] in \<open>auto simp: planned_def seeks_forward_def\<close>)
        with ih plan Inr False seek Some rs'(1)
        show ?thesis by simp
      qed
    qed
  qed
qed


text \<open>When every chunk is searched from the end of the one before (always so in the
  line-ending preserving mode), planning does not panic, and a successful plan is a list of
  replacements in ascending order that do not overlap and lie inside the file.\<close>

theorem compute_replacements_ordered:
  assumes "\<And>c. c \<in> set chunks \<Longrightarrow> planned m ls c"
  shows "\<exists>r. compute_replacements ls path chunks m = Some r \<and>
    (\<forall>rs. r = Inr rs \<longrightarrow> ordered_edits 0 (length ls) rs)"
proof -
  have "plan_inv ls [] 0" by (simp add: plan_inv_def)
  from compute_loop_plan [of chunks, OF assms this] obtain r where
    r: "compute_loop m ls path chunks [] 0 = Some r"
      "\<And>out. r = Inr out \<Longrightarrow> \<exists>j. plan_inv ls out j" by blast
  then show ?thesis
    by (cases r) (auto simp: compute_replacements_def plan_inv_def intro!: ordered_edits_sort)
qed

text \<open>In the mode that normalises line endings a chunk at the end of the file may be found before
  the current line; then the plan is still inside the file.\<close>

lemma compute_loop_normalized:
  assumes "\<forall>r \<in> set rs. fst r \<le> length ls" and "i \<le> length ls"
  shows "\<exists>r. compute_loop NormalizeToLf ls path cs rs i = Some r \<and>
    (\<forall>out. r = Inr out \<longrightarrow> (\<forall>r \<in> set out. fst r \<le> length ls))"
  using assms
proof (induction cs arbitrary: rs i)
  case (Cons c cs)
  show ?case
  proof (cases "seek_context NormalizeToLf ls path c i")
    case (Inr j)
    from seek_context_bounds [OF Inr Cons.prems(2)] have j: "j \<le> length ls" by simp
    obtain pattern new found where seek: "seek_chunk NormalizeToLf ls j c = (pattern, new, found)"
      by (cases "seek_chunk NormalizeToLf ls j c")
    have ins: "insertion_idx NormalizeToLf ls \<le> length ls" by (simp add: insertion_idx_def)
    show ?thesis
    proof (cases "old_lines c = [] \<or> found = None")
      case True
      have "\<forall>r \<in> set (rs @ [(insertion_idx NormalizeToLf ls, 0, new_lines c)]). fst r \<le> length ls"
        using Cons.prems(1) ins by simp
      from Cons.IH [OF this j] Inr seek True show ?thesis by (cases "old_lines c = []") auto
    next
      case False
      then obtain s where s: "found = Some s" "old_lines c \<noteq> []" by auto
      from seek_sequence_within [OF seek_chunk_Some(1) [OF seek [unfolded s]] j]
      have e: "s + length pattern \<le> length ls" .
      then have "\<forall>r \<in> set (rs @ [(s, length pattern, new)]). fst r \<le> length ls"
        using Cons.prems(1) by simp
      from Cons.IH [OF this e] Inr seek s show ?thesis by (simp add: found_replacements_def)
    qed
  qed simp
qed auto

lemma derive_total:
  assumes "\<And>c. c \<in> set chunks \<Longrightarrow> chunk_wf c"
  shows "\<exists>r. derive_new_contents m path contents chunks = Some r"
proof (cases m)
  case NormalizeToLf
  have "\<exists>r. derive_normalized path contents chunks = Some r"
  proof -
    let ?ls = "normalized_lines contents"
    obtain r where r: "compute_loop NormalizeToLf ?ls path chunks [] 0 = Some r"
      "\<And>out. r = Inr out \<Longrightarrow> \<forall>x \<in> set out. fst x \<le> length ?ls"
      using compute_loop_normalized [of "[]" ?ls 0 path chunks] by auto
    show ?thesis
    proof (cases r)
      case (Inr out)
      from apply_replacements_total [of "sort_key fst out" ?ls] r(2) [OF Inr]
      obtain ys where "apply_replacements ?ls (sort_key fst out) = Some ys" by auto
      with r(1) Inr show ?thesis
        by (simp add: derive_normalized_def compute_replacements_def Let_def)
    qed (use r(1) in \<open>simp add: derive_normalized_def compute_replacements_def Let_def\<close>)
  qed
  with NormalizeToLf show ?thesis by (simp add: derive_new_contents_def)
next
  case PreserveLineEndings
  let ?f = "source_file_parse contents"
  have "plan_inv (line_texts ?f) [] 0" by (simp add: plan_inv_def)
  moreover have "\<And>c. c \<in> set chunks \<Longrightarrow> planned PreserveLineEndings (line_texts ?f) c"
    using assms by (simp add: planned_def seeks_forward_def insertion_idx_def)
  ultimately obtain r where r:
    "compute_loop PreserveLineEndings (line_texts ?f) path chunks [] 0 = Some r"
    "\<And>out. r = Inr out \<Longrightarrow> \<exists>j. plan_inv (line_texts ?f) out j"
    using compute_loop_plan by blast
  show ?thesis
  proof (cases r)
    case (Inr out)
    from r(2) [OF Inr] have "ordered_edits 0 (length (source_lines ?f)) (sort_key fst out)"
      by (auto simp: plan_inv_def line_texts_def intro: ordered_edits_sort)
    from source_file_apply_replacements_Some [OF this] r(1) Inr PreserveLineEndings show ?thesis
      by (auto simp: derive_new_contents_def derive_preserving_def compute_replacements_def Let_def)
  qed (use r(1) PreserveLineEndings in
      \<open>simp add: derive_new_contents_def derive_preserving_def compute_replacements_def Let_def\<close>)
qed

text \<open>The updater never panics on the chunks of a parsed patch: for any file and either mode it
  returns the new contents or an error.\<close>

theorem derive_new_contents_total:
  assumes "\<And>c. c \<in> set chunks \<Longrightarrow> chunk_wf c"
  shows "\<exists>r. derive_new_contents m path contents chunks = Some r"
  using assms by (rule derive_total)

end
