(* ===== verification/Patch_Streaming.thy ===== *)
theory Patch_Streaming
  imports Patch_Parser_Inv
begin

text \<open>
  What a caller of the streaming patch parser may rely on: how the text is cut into deltas does not
  matter, a patch that is accepted consists of complete hunks, and the hunks shown while the patch
  arrives are never taken back.
\<close>

section \<open>Deltas\<close>

text \<open>A caller that hands over the deltas one by one and stops at the first error.\<close>

fun push_deltas ::
  "streaming_patch_parser \<Rightarrow> ustr list \<Rightarrow> streaming_patch_parser \<times> (parse_error + hunk list)" where
  "push_deltas p [] = (p, Inr (hunks (state p)))"
| "push_deltas p (d # ds) =
     (case push_delta p d of
        (p', Inl e) \<Rightarrow> (p', Inl e)
      | (p', Inr hs) \<Rightarrow> push_deltas p' ds)"

lemma push_deltas_feed_all: "push_deltas p ds = feed_all push_char (\<lambda>p. hunks (state p)) p ds"
  by (induction ds arbitrary: p) (simp_all add: push_delta_feed)


section \<open>Accepted patches\<close>

lemma finish_line_step:
  assumes "finish_line p line = Inr p'" and "parser_inv p" and "mode (state p) \<noteq> NotStarted"
  shows "parser_inv p'"
proof (cases "trim line = END_PATCH_MARKER \<and> mode (state p) = EndedPatch")
  case True
  with assms show ?thesis
    by (auto simp: finish_line_def and_then_eq_Inr parser_inv_def set_mode_def)
next
  case False
  show ?thesis
  proof (cases "trim line = END_PATCH_MARKER")
    case True
    with False assms have "active_mode (mode (state p))"
      by (simp add: active_mode_def)
    with True assms have "parser_step p line p'"
      by (auto simp: finish_line_def and_then_eq_Inr intro: parser_step.end_patch)
    with assms(2) show ?thesis by (auto intro: parser_step_inv)
  next
    case False
    with assms show ?thesis
      by (auto simp: finish_line_def dest!: process_line_step intro: parser_step_inv)
  qed
qed

lemma finish_line_hunks_complete:
  assumes fl: "finish_line p line = Inr p'" and inv: "parser_inv p"
    and ended: "mode (state p') = EndedPatch" and h: "h \<in> set (hunks (state p'))"
  shows "hunk_complete h"
proof (cases "mode (state p) = NotStarted")
  case True
  then have "hunks (state p) = []" using inv by (auto simp: parser_inv_def)
  with True fl ended h show ?thesis
    by (auto simp: finish_line_def and_then_eq_Inr set_mode_def process_line_def Let_def
        split: if_splits)
next
  case False
  with fl inv have "parser_inv p'" by (rule finish_line_step)
  with ended h show ?thesis by (auto simp: parser_inv_def)
qed

lemma finish_hunks_complete:
  assumes "finish p = (p', Inr hs)" and "parser_inv p" and "h \<in> set hs"
  shows "hunk_complete h"
proof (cases "line_buffer p = []")
  case True
  with assms show ?thesis
    by (auto simp: finish_def Let_def parser_inv_def split: if_splits)
next
  case False
  with assms finish_line_hunks_complete [OF _ parser_inv_next_line [OF assms(2)]] show ?thesis
    by (auto simp: finish_def Let_def split: if_splits sum.splits)
qed

lemma push_delta_inv: "parser_inv p \<Longrightarrow> push_delta p d = (p', r) \<Longrightarrow> parser_inv p'"
  unfolding push_delta_feed by (rule pp.feed_inv)

lemma parse_patch_text_runs:
  assumes "parse_patch_text patch m = Inr args"
  obtains ls p hs p' where "push_delta default_parser (join [LF] ls) = (p, Inr hs)"
    and "finish p = (p', Inr (args_hunks args))"
    and "args_environment_id args = environment_id (state p')" and "args_patch args = join [LF] ls"
proof -
  obtain ls where ls: "(let text = join [LF] ls in
          case push_delta default_parser text of
            (p, Inl e) \<Rightarrow> Inl e
          | (p, Inr hs) \<Rightarrow>
              (case finish p of
                 (p', Inl e) \<Rightarrow> Inl e
               | (p', Inr hs') \<Rightarrow>
                   Inr \<lparr>args_patch = text, args_hunks = hs', args_workdir = None,
                        args_environment_id = environment_id (state p')\<rparr>)) = Inr args"
    using assms by (auto simp: parse_patch_text_def and_then_eq_Inr)
  obtain p r where r: "push_delta default_parser (join [LF] ls) = (p, r)" by fastforce
  obtain p' r' where r': "finish p = (p', r')" by fastforce
  from ls r r' show thesis
    by (cases r; cases r') (auto simp: Let_def intro: that)
qed

lemma parse_complete:
  assumes "parse_patch_text patch m = Inr args"
  shows "list_all hunk_complete (args_hunks args)"
proof -
  obtain ls p hs p' where
    push: "push_delta default_parser (join [LF] ls) = (p, Inr hs)" and
    fin: "finish p = (p', Inr (args_hunks args))"
    using assms by (rule parse_patch_text_runs)
  from push have "parser_inv p"
    by (rule push_delta_inv [OF parser_inv_default])
  with fin show ?thesis
    by (auto simp: list_all_iff intro: finish_hunks_complete)
qed

text \<open>C7. Every patch that parses, in either mode, consists of complete hunks only: each update hunk
  has a chunk, no chunk is without lines, and the context indices of every chunk ascend strictly on
  both sides, stay inside the two line lists and name equal lines.\<close>

theorem parse_patch_text_complete:
  assumes "parse_patch_text patch m = Inr args"
  shows "list_all hunk_complete (args_hunks args)"
  using assms by (rule parse_complete)

section \<open>Progress reports\<close>

text \<open>How a reported hunk may still change: contents grow at the end, a move target may be filled
  in, chunks may be added and the last one extended; the path and the kind never change.\<close>

fun hunk_grows :: "hunk \<Rightarrow> hunk \<Rightarrow> bool" where
  "hunk_grows (AddFile q t) h = (\<exists>r. h = AddFile q (t @ r))"
| "hunk_grows (DeleteFile q) h = (h = DeleteFile q)"
| "hunk_grows (UpdateFile q mv cs) h =
     (\<exists>mv' cs'. h = UpdateFile q mv' cs' \<and> (mv = None \<or> mv' = mv) \<and>
        length cs \<le> length cs' \<and> take (length cs - 1) cs' = butlast cs)"

definition hunks_extend :: "hunk list \<Rightarrow> hunk list \<Rightarrow> bool" where
  "hunks_extend hs hs' \<longleftrightarrow>
     hs = [] \<or> (\<exists>h rest. hs' = butlast hs @ h # rest \<and> hunk_grows (last hs) h)"

lemma hunk_grows_refl [simp]: "hunk_grows h h"
  by (cases h) (auto simp: butlast_conv_take)

lemma hunk_grows_trans:
  assumes "hunk_grows a b" "hunk_grows b c" shows "hunk_grows a c"
proof (cases a)
  case (UpdateFile q mv cs)
  with assms obtain mv' cs' mv'' cs'' where
    b: "b = UpdateFile q mv' cs'" and c: "c = UpdateFile q mv'' cs''" and
    mv: "mv = None \<or> mv' = mv" "mv' = None \<or> mv'' = mv'" and
    len: "length cs \<le> length cs'" "length cs' \<le> length cs''" and
    tk: "take (length cs - 1) cs' = butlast cs" "take (length cs' - 1) cs'' = butlast cs'"
    by auto
  have "take (length cs - 1) cs'' = take (length cs - 1) (take (length cs' - 1) cs'')"
    using len by (simp add: min_def)
  also have "\<dots> = take (length cs - 1) cs'"
    using tk len by (simp add: butlast_conv_take min_def)
  finally show ?thesis using UpdateFile c mv len tk by auto
qed (use assms in auto)

lemma hunks_extend_refl: "hunks_extend hs hs"
  by (cases hs rule: rev_cases) (auto simp: hunks_extend_def)

lemma hunks_extend_trans:
  assumes "hunks_extend a b" "hunks_extend b c" shows "hunks_extend a c"
proof (cases a rule: rev_cases)
  case (snoc pre l)
  with assms(1) obtain h rest where b: "b = pre @ h # rest" and g: "hunk_grows l h"
    by (auto simp: hunks_extend_def)
  from assms(2) b obtain h' rest' where c: "c = butlast b @ h' # rest'" and
    g': "hunk_grows (last b) h'"
    by (auto simp: hunks_extend_def)
  show ?thesis
  proof (cases "rest = []")
    case True
    with b c g g' snoc show ?thesis
      by (auto simp: hunks_extend_def intro: hunk_grows_trans)
  next
    case False
    with b c g snoc show ?thesis
      by (auto simp: hunks_extend_def butlast_append)
  qed
qed (simp add: hunks_extend_def)

lemma map_last_grows:
  "take (length cs - Suc 0) (map_last f cs) = take (length cs - Suc 0) cs"
  by (cases cs rule: rev_cases) auto

lemma length_map_last [simp]: "length (map_last f cs) = length cs"
  by (cases cs rule: rev_cases) auto

lemma update_body_line_grows:
  assumes "update_body_line n mv cs line = Inr (mv', cs')"
  shows "hunk_grows (UpdateFile q mv cs) (UpdateFile q mv' cs')"
  using assms unfolding update_body_line_def Let_def
  by (auto simp: update_last_chunk_def map_last_grows butlast_conv_take
      split: if_splits list.splits)

lemma parser_step_extends:
  assumes "parser_step p line p'"
  shows "hunks_extend (hunks (state p)) (hunks (state p'))"
  using assms
proof (cases rule: parser_step.cases)
  case (header t h m)
  then show ?thesis
    by (cases "hunks (state p)" rule: rev_cases) (auto simp: hunks_extend_def push_hunk_def)
next
  case (add_line pre q t r)
  then show ?thesis by (auto simp: hunks_extend_def replace_last_hunk_def)
next
  case (update_line k pre q mv cs mv' cs')
  with update_body_line_grows [OF update_line(4)] show ?thesis
    by (auto simp: hunks_extend_def replace_last_hunk_def)
qed (auto simp: set_mode_def hunks_extend_refl)

lemma push_char_extends:
  assumes "push_char p c = (p', r)"
  shows "hunks_extend (hunks (state p)) (hunks (state p'))"
  using assms
  by (auto simp: push_char_def Let_def hunks_extend_refl split: if_splits sum.splits
      dest!: process_line_step parser_step_extends)

interpretation ppr: step_relation push_char parser_inv
  "\<lambda>p p'. hunks_extend (hunks (state p)) (hunks (state p'))"
  by unfold_locales
    (auto intro: hunks_extend_refl hunks_extend_trans push_char_inv push_char_extends)

text \<open>Progress is never taken back: whatever is pushed, and even when the push fails, every hunk
  reported before except the last is still reported unchanged and in place, and the last one has only
  grown, with the same kind and path.\<close>

theorem push_delta_extends:
  assumes "parser_inv p" and "push_delta p d = (p', r)"
  shows "hunks_extend (hunks (state p)) (hunks (state p'))"
  using assms unfolding push_delta_feed by (rule ppr.feed_rel)

end
