(* ===== verification/Patch_Apply.thy ===== *)
theory Patch_Apply
  imports Update_Plan Patch_Streaming
begin

text \<open>
  \<^verbatim>\<open>codex-rs/apply-patch/src/lib.rs\<close>: applying hunks to a file system, with the record of what
  was committed (\<open>AppliedPatchDelta\<close>). The file system is the trait
  \<^verbatim>\<open>ExecutorFileSystem\<close> and the paths are \<^verbatim>\<open>PathUri\<close>: both are parameters here, records
  of the operations the code calls, over a type of file system states and a type of paths. The
  sandbox context is part of the operations, and bytes and text are not distinguished. As in
  \<^verbatim>\<open>File_Update\<close>, an outer \<open>None\<close> is a panic.
\<close>

section \<open>Parameters\<close>

record file_metadata =
  is_directory :: bool
  is_file :: bool
  is_symlink :: bool

record remove_options =
  recursive :: bool
  force :: bool
  remove_follow_symlinks :: bool

record ('f, 'p) executor_file_system =
  fs_read_file_text :: "'f \<Rightarrow> 'p \<Rightarrow> bool \<Rightarrow> io_error + ustr"
  fs_get_metadata :: "'f \<Rightarrow> 'p \<Rightarrow> bool \<Rightarrow> io_error + file_metadata"
  fs_write_file :: "'f \<Rightarrow> 'p \<Rightarrow> ustr \<Rightarrow> bool \<Rightarrow> 'f \<times> (io_error + unit)"
  fs_create_directory :: "'f \<Rightarrow> 'p \<Rightarrow> bool \<Rightarrow> bool \<Rightarrow> 'f \<times> (io_error + unit)"
  fs_remove :: "'f \<Rightarrow> 'p \<Rightarrow> remove_options \<Rightarrow> 'f \<times> (io_error + unit)"

record 'p path_operations =
  path_join :: "'p \<Rightarrow> ustr \<Rightarrow> ustr + 'p"
  path_parent :: "'p \<Rightarrow> 'p option"
  path_native :: "'p \<Rightarrow> ustr"

section \<open>Data\<close>

record apply_patch_options =
  update_file_mode :: apply_patch_file_update_mode
  follow_symlinks :: bool

definition default_options :: apply_patch_options where
  "default_options = \<lparr>update_file_mode = NormalizeToLf, follow_symlinks = True\<rparr>"

datatype 'p applied_patch_file_change =
    ChangeAdd ustr "ustr option"
  | ChangeDelete ustr
  | ChangeUpdate "'p option" ustr "ustr option" ustr

type_synonym 'p applied_patch_change = "'p \<times> 'p applied_patch_file_change"

record 'p applied_patch_delta =
  changes :: "'p applied_patch_change list"
  exact :: bool

definition delta_empty :: "'p applied_patch_delta" where
  "delta_empty = \<lparr>changes = [], exact = True\<rparr>"

definition delta_append :: "'p applied_patch_delta \<Rightarrow> 'p applied_patch_delta \<Rightarrow> 'p applied_patch_delta" where
  "delta_append d other =
     \<lparr>changes = changes d @ changes other, exact = (exact d \<and> exact other)\<rparr>"

definition push_change ::
  "'p applied_patch_change \<Rightarrow> 'p applied_patch_delta \<Rightarrow> 'p applied_patch_delta" where
  "push_change c d = d\<lparr>changes := changes d @ [c]\<rparr>"

definition and_exact :: "bool \<Rightarrow> 'p applied_patch_delta \<Rightarrow> 'p applied_patch_delta" where
  "and_exact b d = d\<lparr>exact := (exact d \<and> b)\<rparr>"

record affected_paths =
  added :: "ustr list"
  modified :: "ustr list"
  deleted :: "ustr list"

text \<open>The \<^verbatim>\<open>anyhow\<close> errors of the loop: an I/O error under a context message, an error of this
  crate, an error of path parsing, a plain message.\<close>

datatype hunk_error =
    HunkIo ustr io_error
  | HunkApply apply_patch_error
  | HunkPath ustr
  | HunkBail ustr

section \<open>File system helpers\<close>

definition ensure_not_directory ::
  "('f, 'p) executor_file_system \<Rightarrow> 'f \<Rightarrow> 'p \<Rightarrow> bool \<Rightarrow> io_error + unit" where
  "ensure_not_directory F fs path follow =
     and_then (fs_get_metadata F fs path follow)
       (\<lambda>metadata. if is_directory metadata
          then Inl (IoErr InvalidInput (str ''path is a directory'')) else Inr ())"

definition remove_failure_was_side_effect_free ::
  "('f, 'p) executor_file_system \<Rightarrow> 'f \<Rightarrow> 'p \<Rightarrow> ustr option \<Rightarrow> bool \<Rightarrow> bool" where
  "remove_failure_was_side_effect_free F fs path expected_content follow =
     (case expected_content of
        Some expected \<Rightarrow>
          (case fs_read_file_text F fs path follow of Inr content \<Rightarrow> content = expected | Inl _ \<Rightarrow> False)
      | None \<Rightarrow> False)"

text \<open>The Boolean of these two is the new value of \<^verbatim>\<open>*exact\<close>, to be conjoined.\<close>

definition note_existing_path_delta_support ::
  "('f, 'p) executor_file_system \<Rightarrow> 'f \<Rightarrow> 'p \<Rightarrow> bool \<Rightarrow> bool" where
  "note_existing_path_delta_support F fs path follow =
     (case fs_get_metadata F fs path follow of
        Inr metadata \<Rightarrow> is_file metadata \<and> \<not> is_symlink metadata
      | Inl (IoErr kind msg) \<Rightarrow> kind = NotFound)"

definition read_optional_file_text_for_delta ::
  "('f, 'p) executor_file_system \<Rightarrow> 'f \<Rightarrow> 'p \<Rightarrow> bool \<Rightarrow> ustr option \<times> bool" where
  "read_optional_file_text_for_delta F fs path follow =
     (let noted = note_existing_path_delta_support F fs path follow in
      case fs_read_file_text F fs path follow of
        Inr content \<Rightarrow> (Some content, noted)
      | Inl (IoErr kind msg) \<Rightarrow> (None, noted \<and> kind = NotFound))"

definition failed_to :: "string \<Rightarrow> 'p path_operations \<Rightarrow> 'p \<Rightarrow> ustr" where
  "failed_to what P path = str (''Failed to '' @ what @ '' '') @ path_native P path"

definition write_file_with_missing_parent_retry ::
  "('f, 'p) executor_file_system \<Rightarrow> 'p path_operations \<Rightarrow> 'f \<Rightarrow> 'p \<Rightarrow> ustr \<Rightarrow> bool \<Rightarrow>
     'f \<times> (hunk_error + unit)" where
  "write_file_with_missing_parent_retry F P fs path contents follow =
     (case fs_write_file F fs path contents follow of
        (fs1, Inr u) \<Rightarrow> (fs1, Inr ())
      | (fs1, Inl (IoErr kind msg)) \<Rightarrow>
          if kind = NotFound then
            let (fs2, created) =
              (case path_parent P path of
                 Some parent \<Rightarrow> fs_create_directory F fs1 parent True follow
               | None \<Rightarrow> (fs1, Inr ()))
            in case created of
                 Inl e \<Rightarrow> (fs2, Inl (HunkIo (failed_to ''create parent directories for'' P path) e))
               | Inr _ \<Rightarrow>
                   (case fs_write_file F fs2 path contents follow of
                      (fs3, Inr u) \<Rightarrow> (fs3, Inr ())
                    | (fs3, Inl e) \<Rightarrow> (fs3, Inl (HunkIo (failed_to ''write file'' P path) e)))
          else (fs1, Inl (HunkIo (failed_to ''write file'' P path) (IoErr kind msg))))"


section \<open>Applying hunks\<close>

text \<open>\<open>derive_new_contents_from_chunks\<close>: the contents read and the new contents.\<close>

definition derive_new_contents_from_chunks ::
  "('f, 'p) executor_file_system \<Rightarrow> 'p path_operations \<Rightarrow> apply_patch_options \<Rightarrow> 'f \<Rightarrow> 'p \<Rightarrow>
     update_file_chunk list \<Rightarrow> (apply_patch_error + ustr \<times> ustr) option" where
  "derive_new_contents_from_chunks F P opts fs path chunks =
     (case fs_read_file_text F fs path (follow_symlinks opts) of
        Inl e \<Rightarrow> Some (Inl (IoError (failed_to ''read file to update'' P path) e))
      | Inr original_contents \<Rightarrow>
          map_option
            (\<lambda>r. and_then r (\<lambda>new_contents. Inr (original_contents, new_contents)))
            (derive_new_contents (update_file_mode opts) (path_native P path) original_contents chunks))"

type_synonym ('f, 'p) hunk_result = "'f \<times> 'p applied_patch_delta \<times> (hunk_error + affected_paths)"

definition no_force_remove :: "apply_patch_options \<Rightarrow> remove_options" where
  "no_force_remove opts =
     \<lparr>recursive = False, force = False, remove_follow_symlinks = follow_symlinks opts\<rparr>"

text \<open>\<open>try_write!\<close>: a failed write leaves the record inexact.\<close>

definition apply_add_file ::
  "('f, 'p) executor_file_system \<Rightarrow> 'p path_operations \<Rightarrow> apply_patch_options \<Rightarrow> 'p \<Rightarrow> ustr \<Rightarrow> ustr \<Rightarrow>
     'f \<Rightarrow> 'p applied_patch_delta \<Rightarrow> affected_paths \<Rightarrow> ('f, 'p) hunk_result" where
  "apply_add_file F P opts path_uri affected_path contents fs delta aff =
     (let (overwritten_content, ok) =
            read_optional_file_text_for_delta F fs path_uri (follow_symlinks opts);
          delta1 = and_exact ok delta
      in case write_file_with_missing_parent_retry F P fs path_uri contents (follow_symlinks opts) of
           (fs1, Inl e) \<Rightarrow> (fs1, delta1\<lparr>exact := False\<rparr>, Inl e)
         | (fs1, Inr _) \<Rightarrow>
             (fs1, push_change (path_uri, ChangeAdd contents overwritten_content) delta1,
              Inr (aff\<lparr>added := added aff @ [affected_path]\<rparr>)))"

definition apply_delete_file ::
  "('f, 'p) executor_file_system \<Rightarrow> 'p path_operations \<Rightarrow> apply_patch_options \<Rightarrow> 'p \<Rightarrow> ustr \<Rightarrow>
     'f \<Rightarrow> 'p applied_patch_delta \<Rightarrow> affected_paths \<Rightarrow> ('f, 'p) hunk_result" where
  "apply_delete_file F P opts path_uri affected_path fs delta aff =
     (let delta1 = and_exact (note_existing_path_delta_support F fs path_uri (follow_symlinks opts)) delta;
          deleted_content =
            (case fs_read_file_text F fs path_uri (follow_symlinks opts) of
               Inr content \<Rightarrow> Some content | Inl _ \<Rightarrow> None);
          delta2 = and_exact (deleted_content \<noteq> None) delta1
      in case ensure_not_directory F fs path_uri (follow_symlinks opts) of
           Inl e \<Rightarrow> (fs, delta2, Inl (HunkIo (failed_to ''delete file'' P path_uri) e))
         | Inr _ \<Rightarrow>
             (case fs_remove F fs path_uri (no_force_remove opts) of
                (fs1, Inl e) \<Rightarrow>
                  (fs1,
                   and_exact (remove_failure_was_side_effect_free F fs1 path_uri deleted_content
                     (follow_symlinks opts)) delta2,
                   Inl (HunkIo (failed_to ''delete file'' P path_uri) e))
              | (fs1, Inr _) \<Rightarrow>
                  (fs1,
                   (case deleted_content of
                      Some content \<Rightarrow> push_change (path_uri, ChangeDelete content) delta2
                    | None \<Rightarrow> delta2),
                   Inr (aff\<lparr>deleted := deleted aff @ [affected_path]\<rparr>))))"

text \<open>An update with a move: write the destination and record it as an addition, remove the
  original, then turn the record into a move.\<close>

definition apply_move_file ::
  "('f, 'p) executor_file_system \<Rightarrow> 'p path_operations \<Rightarrow> apply_patch_options \<Rightarrow> 'p \<Rightarrow> 'p \<Rightarrow> ustr \<Rightarrow>
     ustr \<Rightarrow> ustr \<Rightarrow> 'f \<Rightarrow> 'p applied_patch_delta \<Rightarrow> affected_paths \<Rightarrow> ('f, 'p) hunk_result" where
  "apply_move_file F P opts path_uri dest_uri affected_path original_contents new_contents fs delta aff =
     (let (overwritten_move_content, ok) =
            read_optional_file_text_for_delta F fs dest_uri (follow_symlinks opts);
          delta1 = and_exact ok delta
      in case write_file_with_missing_parent_retry F P fs dest_uri new_contents (follow_symlinks opts) of
           (fs1, Inl e) \<Rightarrow> (fs1, delta1\<lparr>exact := False\<rparr>, Inl e)
         | (fs1, Inr _) \<Rightarrow>
             (let dest_write_change_index = length (changes delta1);
                  delta2 = push_change (dest_uri, ChangeAdd new_contents overwritten_move_content) delta1
              in case ensure_not_directory F fs1 path_uri (follow_symlinks opts) of
                   Inl e \<Rightarrow> (fs1, delta2, Inl (HunkIo (failed_to ''remove original'' P path_uri) e))
                 | Inr _ \<Rightarrow>
                     (case fs_remove F fs1 path_uri (no_force_remove opts) of
                        (fs2, Inl e) \<Rightarrow>
                          (fs2,
                           and_exact (remove_failure_was_side_effect_free F fs2 path_uri
                             (Some original_contents) (follow_symlinks opts)) delta2,
                           Inl (HunkIo (failed_to ''remove original'' P path_uri) e))
                      | (fs2, Inr _) \<Rightarrow>
                          (fs2,
                           delta2\<lparr>changes := (changes delta2)[dest_write_change_index :=
                             (path_uri, ChangeUpdate (Some dest_uri) original_contents
                                overwritten_move_content new_contents)]\<rparr>,
                           Inr (aff\<lparr>modified := modified aff @ [affected_path]\<rparr>)))))"

definition apply_update_in_place ::
  "('f, 'p) executor_file_system \<Rightarrow> 'p path_operations \<Rightarrow> apply_patch_options \<Rightarrow> 'p \<Rightarrow> ustr \<Rightarrow>
     ustr \<Rightarrow> ustr \<Rightarrow> 'f \<Rightarrow> 'p applied_patch_delta \<Rightarrow> affected_paths \<Rightarrow> ('f, 'p) hunk_result" where
  "apply_update_in_place F P opts path_uri affected_path original_contents new_contents fs delta aff =
     (case fs_write_file F fs path_uri new_contents (follow_symlinks opts) of
        (fs1, Inl e) \<Rightarrow>
          (fs1, delta\<lparr>exact := False\<rparr>, Inl (HunkIo (failed_to ''write file'' P path_uri) e))
      | (fs1, Inr _) \<Rightarrow>
          (fs1, push_change (path_uri, ChangeUpdate None original_contents None new_contents) delta,
           Inr (aff\<lparr>modified := modified aff @ [affected_path]\<rparr>)))"

definition apply_update_file ::
  "('f, 'p) executor_file_system \<Rightarrow> 'p path_operations \<Rightarrow> apply_patch_options \<Rightarrow> 'p \<Rightarrow> 'p \<Rightarrow> ustr \<Rightarrow>
     ustr option \<Rightarrow> update_file_chunk list \<Rightarrow> 'f \<Rightarrow> 'p applied_patch_delta \<Rightarrow> affected_paths \<Rightarrow>
     ('f, 'p) hunk_result option" where
  "apply_update_file F P opts cwd path_uri affected_path move_path chunks fs delta aff =
     (let delta1 = and_exact (note_existing_path_delta_support F fs path_uri (follow_symlinks opts)) delta
      in case derive_new_contents_from_chunks F P opts fs path_uri chunks of
           None \<Rightarrow> None
         | Some (Inl e) \<Rightarrow> Some (fs, delta1, Inl (HunkApply e))
         | Some (Inr (original_contents, new_contents)) \<Rightarrow>
             (case move_path of
                Some dest \<Rightarrow>
                  (case path_join P cwd dest of
                     Inl e \<Rightarrow> Some (fs, delta1, Inl (HunkPath e))
                   | Inr dest_uri \<Rightarrow>
                       Some (apply_move_file F P opts path_uri dest_uri affected_path
                         original_contents new_contents fs delta1 aff))
              | None \<Rightarrow>
                  Some (apply_update_in_place F P opts path_uri affected_path
                    original_contents new_contents fs delta1 aff)))"

definition apply_hunk ::
  "('f, 'p) executor_file_system \<Rightarrow> 'p path_operations \<Rightarrow> apply_patch_options \<Rightarrow> 'p \<Rightarrow> hunk \<Rightarrow>
     'f \<Rightarrow> 'p applied_patch_delta \<Rightarrow> affected_paths \<Rightarrow> ('f, 'p) hunk_result option" where
  "apply_hunk F P opts cwd h fs delta aff =
     (case path_join P cwd (hunk_source_path h) of
        Inl e \<Rightarrow> Some (fs, delta, Inl (HunkPath e))
      | Inr path_uri \<Rightarrow>
          (case h of
             AddFile p contents \<Rightarrow>
               Some (apply_add_file F P opts path_uri (hunk_path h) contents fs delta aff)
           | DeleteFile p \<Rightarrow> Some (apply_delete_file F P opts path_uri (hunk_path h) fs delta aff)
           | UpdateFile p move_path chunks \<Rightarrow>
               apply_update_file F P opts cwd path_uri (hunk_path h) move_path chunks fs delta aff))"

fun apply_hunks_loop ::
  "('f, 'p) executor_file_system \<Rightarrow> 'p path_operations \<Rightarrow> apply_patch_options \<Rightarrow> 'p \<Rightarrow> hunk list \<Rightarrow>
     'f \<Rightarrow> 'p applied_patch_delta \<Rightarrow> affected_paths \<Rightarrow> ('f, 'p) hunk_result option" where
  "apply_hunks_loop F P opts cwd [] fs delta aff = Some (fs, delta, Inr aff)"
| "apply_hunks_loop F P opts cwd (h # hs) fs delta aff =
     (case apply_hunk F P opts cwd h fs delta aff of
        None \<Rightarrow> None
      | Some (fs1, delta1, Inl e) \<Rightarrow> Some (fs1, delta1, Inl e)
      | Some (fs1, delta1, Inr aff1) \<Rightarrow> apply_hunks_loop F P opts cwd hs fs1 delta1 aff1)"

definition no_paths :: affected_paths where
  "no_paths = \<lparr>added = [], modified = [], deleted = []\<rparr>"

definition apply_hunks_to_files ::
  "('f, 'p) executor_file_system \<Rightarrow> 'p path_operations \<Rightarrow> apply_patch_options \<Rightarrow> 'p \<Rightarrow> hunk list \<Rightarrow>
     'f \<Rightarrow> 'p applied_patch_delta \<Rightarrow> ('f, 'p) hunk_result option" where
  "apply_hunks_to_files F P opts cwd hs fs delta =
     (if hs = [] then Some (fs, delta, Inl (HunkBail (str ''No files were modified.'')))
      else apply_hunks_loop F P opts cwd hs fs delta no_paths)"


section \<open>Reporting\<close>

text \<open>The \<^verbatim>\<open>Display\<close> texts of the errors.\<close>

fun parse_error_display :: "parse_error \<Rightarrow> ustr" where
  "parse_error_display (InvalidPatchError message) = str ''invalid patch: '' @ message"
| "parse_error_display (InvalidHunkError message n) =
     str ''invalid hunk at line '' @ nat_str n @ str '', '' @ message"

fun io_error_display :: "io_error \<Rightarrow> ustr" where
  "io_error_display (IoErr kind message) = message"

fun apply_patch_error_display :: "apply_patch_error \<Rightarrow> ustr" where
  "apply_patch_error_display (ParseError e) = parse_error_display e"
| "apply_patch_error_display (IoError context e) = context @ str '': '' @ io_error_display e"
| "apply_patch_error_display (ComputeReplacements message) = message"
| "apply_patch_error_display (PathUri message) = message"
| "apply_patch_error_display ImplicitInvocation =
     str ''patch detected without explicit call to apply_patch. Rerun as ['' @ [34] @
     str ''apply_patch'' @ [34] @ str '', '' @ [34] @ str ''<patch>'' @ [34] @ str '']''"

fun hunk_error_display :: "hunk_error \<Rightarrow> ustr" where
  "hunk_error_display (HunkIo context e) = context"
| "hunk_error_display (HunkApply e) = apply_patch_error_display e"
| "hunk_error_display (HunkPath message) = message"
| "hunk_error_display (HunkBail message) = message"

text \<open>\<^verbatim>\<open>impl From<std::io::Error> for ApplyPatchError\<close>.\<close>

definition from_io_error :: "io_error \<Rightarrow> apply_patch_error" where
  "from_io_error e = IoError (str ''I/O error'') e"

text \<open>The downcast finds the I/O error under its context; any other error becomes the source of an
  I/O error of kind \<^verbatim>\<open>Other\<close>.\<close>

definition final_error :: "hunk_error \<Rightarrow> apply_patch_error" where
  "final_error e =
     (case e of
        HunkIo context io \<Rightarrow> from_io_error io
      | _ \<Rightarrow> IoError (hunk_error_display e) (IoErr OtherKind (hunk_error_display e)))"

text \<open>A writer: \<open>W w text\<close> is \<^verbatim>\<open>write!\<close> of a text.\<close>

type_synonym 'w writer = "'w \<Rightarrow> ustr \<Rightarrow> 'w \<times> (io_error + unit)"

definition write_line :: "'w writer \<Rightarrow> 'w \<Rightarrow> ustr \<Rightarrow> 'w \<times> (io_error + unit)" where
  "write_line W w line = W w (line @ [LF])"

definition summary_lines :: "affected_paths \<Rightarrow> ustr list" where
  "summary_lines aff =
     str ''Success. Updated the following files:'' #
     map (\<lambda>p. str ''A '' @ p) (added aff) @
     map (\<lambda>p. str ''M '' @ p) (modified aff) @
     map (\<lambda>p. str ''D '' @ p) (deleted aff)"

definition print_summary :: "'w writer \<Rightarrow> 'w \<Rightarrow> affected_paths \<Rightarrow> 'w \<times> (io_error + unit)" where
  "print_summary W w aff = try_fold (write_line W) w (summary_lines aff)"

record ('f, 'w) patch_world =
  files :: 'f
  stdout :: 'w
  stderr :: 'w

type_synonym ('f, 'p, 'w) patch_outcome =
  "('f, 'w) patch_world \<times> (apply_patch_error \<times> 'p applied_patch_delta + 'p applied_patch_delta)"

definition apply_hunks_with_options ::
  "('f, 'p) executor_file_system \<Rightarrow> 'p path_operations \<Rightarrow> 'w writer \<Rightarrow> apply_patch_options \<Rightarrow> 'p \<Rightarrow>
     hunk list \<Rightarrow> ('f, 'w) patch_world \<Rightarrow> ('f, 'p, 'w) patch_outcome option" where
  "apply_hunks_with_options F P W opts cwd hs w =
     (case apply_hunks_to_files F P opts cwd hs (files w) delta_empty of
        None \<Rightarrow> None
      | Some (fs, delta, Inr aff) \<Rightarrow>
          (case print_summary W (stdout w) aff of
             (out, Inr _) \<Rightarrow> Some (w\<lparr>files := fs, stdout := out\<rparr>, Inr delta)
           | (out, Inl e) \<Rightarrow> Some (w\<lparr>files := fs, stdout := out\<rparr>, Inl (from_io_error e, delta)))
      | Some (fs, delta, Inl error) \<Rightarrow>
          (case write_line W (stderr w) (hunk_error_display error) of
             (err, Inr _) \<Rightarrow> Some (w\<lparr>files := fs, stderr := err\<rparr>, Inl (final_error error, delta))
           | (err, Inl e) \<Rightarrow> Some (w\<lparr>files := fs, stderr := err\<rparr>, Inl (from_io_error e, delta))))"

definition invalid_patch_message :: "parse_error \<Rightarrow> ustr" where
  "invalid_patch_message e =
     (case e of
        InvalidPatchError message \<Rightarrow> str ''Invalid patch: '' @ message
      | InvalidHunkError message n \<Rightarrow>
          str ''Invalid patch hunk on line '' @ nat_str n @ str '': '' @ message)"

definition apply_patch_with_options ::
  "('f, 'p) executor_file_system \<Rightarrow> 'p path_operations \<Rightarrow> 'w writer \<Rightarrow> apply_patch_options \<Rightarrow> 'p \<Rightarrow>
     ustr \<Rightarrow> ('f, 'w) patch_world \<Rightarrow> ('f, 'p, 'w) patch_outcome option" where
  "apply_patch_with_options F P W opts cwd patch w =
     (case parse_patch patch of
        Inl e \<Rightarrow>
          (case write_line W (stderr w) (invalid_patch_message e) of
             (err, Inl io) \<Rightarrow> Some (w\<lparr>stderr := err\<rparr>, Inl (from_io_error io, delta_empty))
           | (err, Inr _) \<Rightarrow> Some (w\<lparr>stderr := err\<rparr>, Inl (ParseError e, delta_empty)))
      | Inr source \<Rightarrow> apply_hunks_with_options F P W opts cwd (args_hunks source) w)"

definition apply_patch ::
  "('f, 'p) executor_file_system \<Rightarrow> 'p path_operations \<Rightarrow> 'w writer \<Rightarrow> 'p \<Rightarrow> ustr \<Rightarrow>
     ('f, 'w) patch_world \<Rightarrow> ('f, 'p, 'w) patch_outcome option" where
  "apply_patch F P W cwd patch w = apply_patch_with_options F P W default_options cwd patch w"

section \<open>No patch makes the program panic\<close>

lemma apply_hunk_total:
  assumes "hunk_complete h"
  shows "apply_hunk F P opts cwd h fs delta aff \<noteq> None"
proof -
  have total: "\<exists>r. derive_new_contents_from_chunks F P opts fs path chunks = Some r"
    if "\<And>c. c \<in> set chunks \<Longrightarrow> chunk_wf c" for path chunks
    using that derive_total [of chunks "update_file_mode opts"]
    by (force simp: derive_new_contents_from_chunks_def split: sum.splits)
  show ?thesis
  proof (cases h)
    case (UpdateFile p mv chunks)
    with assms have wf: "\<And>c. c \<in> set chunks \<Longrightarrow> chunk_wf c" by (simp add: chunks_complete_def)
    show ?thesis
    proof (cases "path_join P cwd (hunk_source_path h)")
      case (Inr path_uri)
      obtain r where "derive_new_contents_from_chunks F P opts fs path_uri chunks = Some r"
        using total [OF wf] by blast
      with Inr UpdateFile show ?thesis
        by (auto simp: apply_hunk_def apply_update_file_def Let_def simp del: split_paired_Ex
            split: sum.splits option.splits)
    qed (simp add: apply_hunk_def)
  qed (auto simp: apply_hunk_def simp del: split_paired_Ex split: sum.splits)
qed

lemma apply_hunks_loop_total:
  assumes "list_all hunk_complete hs"
  shows "\<exists>r. apply_hunks_loop F P opts cwd hs fs delta aff = Some r"
  using assms
proof (induction hs arbitrary: fs delta aff)
  case (Cons h hs)
  then obtain fs1 delta1 r where "apply_hunk F P opts cwd h fs delta aff = Some (fs1, delta1, r)"
    using apply_hunk_total [of h F P opts cwd fs delta aff] by auto
  with Cons show ?case by (cases r) auto
qed simp

text \<open>C5. Applying a patch text never panics: for every text, file system and option, the program
  ends with a result or with an error value.\<close>

theorem apply_patch_total:
  "\<exists>r. apply_patch_with_options F P W opts cwd patch w = Some r"
proof (cases "parse_patch patch")
  case (Inl e)
  then show ?thesis by (auto simp: apply_patch_with_options_def split: prod.splits sum.splits)
next
  case (Inr args)
  then have "list_all hunk_complete (args_hunks args)"
    unfolding parse_patch_def by (rule parse_complete)
  then obtain fs delta r where
    "apply_hunks_to_files F P opts cwd (args_hunks args) (files w) delta_empty = Some (fs, delta, r)"
    using apply_hunks_loop_total [of "args_hunks args"] unfolding apply_hunks_to_files_def
    by (metis prod_cases3)
  with Inr show ?thesis
    by (cases r) (auto simp: apply_patch_with_options_def apply_hunks_with_options_def
        split: prod.splits sum.splits)
qed


section \<open>What is reported\<close>

definition adds :: "hunk list \<Rightarrow> hunk list" where
  "adds hs = filter (\<lambda>h. case h of AddFile p t \<Rightarrow> True | _ \<Rightarrow> False) hs"

definition updates :: "hunk list \<Rightarrow> hunk list" where
  "updates hs = filter (\<lambda>h. case h of UpdateFile p mv cs \<Rightarrow> True | _ \<Rightarrow> False) hs"

definition deletes :: "hunk list \<Rightarrow> hunk list" where
  "deletes hs = filter (\<lambda>h. case h of DeleteFile p \<Rightarrow> True | _ \<Rightarrow> False) hs"

lemma apply_hunk_affected:
  assumes "apply_hunk F P opts cwd h fs delta aff = Some (fs', delta', Inr aff')"
  shows "added aff' = added aff @ map hunk_path (adds [h]) \<and>
    modified aff' = modified aff @ map hunk_path (updates [h]) \<and>
    deleted aff' = deleted aff @ map hunk_path (deletes [h])"
proof (cases h)
  case (AddFile p t)
  with assms show ?thesis
    by (auto simp: apply_hunk_def apply_add_file_def adds_def updates_def deletes_def Let_def
        split: sum.splits prod.splits)
next
  case (DeleteFile p)
  with assms show ?thesis
    by (auto simp: apply_hunk_def apply_delete_file_def adds_def updates_def deletes_def Let_def
        split: sum.splits prod.splits)
next
  case (UpdateFile p mv cs)
  with assms show ?thesis
    by (auto simp: apply_hunk_def apply_update_file_def apply_move_file_def apply_update_in_place_def
        adds_def updates_def deletes_def Let_def split: sum.splits prod.splits option.splits)
qed

lemma apply_hunks_loop_affected:
  assumes "apply_hunks_loop F P opts cwd hs fs delta aff = Some (fs', delta', Inr aff')"
  shows "added aff' = added aff @ map hunk_path (adds hs) \<and>
    modified aff' = modified aff @ map hunk_path (updates hs) \<and>
    deleted aff' = deleted aff @ map hunk_path (deletes hs)"
  using assms
proof (induction hs arbitrary: fs delta aff)
  case Nil
  then show ?case by (simp add: adds_def updates_def deletes_def)
next
  case (Cons h hs)
  from Cons.prems obtain fs1 delta1 aff1 where
    step: "apply_hunk F P opts cwd h fs delta aff = Some (fs1, delta1, Inr aff1)"
    and rest: "apply_hunks_loop F P opts cwd hs fs1 delta1 aff1 = Some (fs', delta', Inr aff')"
    by (auto split: option.splits sum.splits)
  from apply_hunk_affected [OF step] Cons.IH [OF rest] show ?case
    by (simp add: adds_def updates_def deletes_def)
qed

text \<open>A successful run reports every hunk: the added, modified and deleted paths are those of the
  hunks of each kind, in the order of the patch, a moved file under its new name.\<close>

theorem apply_hunks_to_files_affected:
  assumes "apply_hunks_to_files F P opts cwd hs fs delta = Some (fs', delta', Inr aff)"
  shows "hs \<noteq> [] \<and> aff = \<lparr>added = map hunk_path (adds hs), modified = map hunk_path (updates hs),
    deleted = map hunk_path (deletes hs)\<rparr>"
  using assms apply_hunks_loop_affected [of F P opts cwd hs fs delta no_paths fs' delta' aff]
  by (auto simp: apply_hunks_to_files_def no_paths_def split: if_splits)

text \<open>A text that does not parse changes no file and commits nothing: the outcome is the parse
  error, or the error of writing the message.\<close>

theorem apply_patch_parse_error:
  assumes "parse_patch patch = Inl e"
  shows "\<exists>err err'. apply_patch_with_options F P W opts cwd patch w =
      Some (w\<lparr>stderr := err'\<rparr>, Inl (err, delta_empty)) \<and>
    (err = ParseError e \<or> (\<exists>io. err = from_io_error io \<and>
       snd (W (stderr w) (invalid_patch_message e @ [LF])) = Inl io))"
  using assms
  by (cases "W (stderr w) (invalid_patch_message e @ [LF])")
    (auto simp: apply_patch_with_options_def write_line_def split: sum.splits)

end
