(* ===== verification/Patch_Delta.thy ===== *)
theory Patch_Delta
  imports Patch_Apply
begin

text \<open>
  What the committed changes (\<^verbatim>\<open>AppliedPatchDelta\<close>) say of the file system: while the record
  is exact, replaying it on the texts the files had gives the texts they have, also when the
  application failed half way. The laws of the file system that this rests on are a hypothesis,
  \<open>fs_laws\<close>; the in-memory file system at the end satisfies them.
\<close>

section \<open>Laws of the file system\<close>

text \<open>The text of every file that can be read as text.\<close>

definition file_view :: "('f, 'p) executor_file_system \<Rightarrow> bool \<Rightarrow> 'f \<Rightarrow> 'p \<Rightarrow> ustr option" where
  "file_view F follow fs p =
     (case fs_read_file_text F fs p follow of Inr t \<Rightarrow> Some t | Inl e \<Rightarrow> None)"

text \<open>A write to a plain path (a regular file that is no symbolic link, or a path that is free)
  changes the text of that path only; a write that reports \<^verbatim>\<open>NotFound\<close> and the creation of
  directories change no text; the removal of a plain path removes that file only, and a failed
  removal touches no other file. None of them turns another plain path into one that is not, but
  for the directories on a path that was free.\<close>

definition write_law :: "('f, 'p) executor_file_system \<Rightarrow> bool \<Rightarrow> bool" where
  "write_law F follow \<longleftrightarrow> (\<forall>fs p t fs'.
     note_existing_path_delta_support F fs p follow \<and> fs_write_file F fs p t follow = (fs', Inr ()) \<longrightarrow>
       file_view F follow fs' = (file_view F follow fs)(p := Some t) \<and>
       (\<forall>q. q \<noteq> p \<and> note_existing_path_delta_support F fs q follow \<longrightarrow>
          note_existing_path_delta_support F fs' q follow))"

definition missing_parent_law :: "('f, 'p) executor_file_system \<Rightarrow> bool \<Rightarrow> bool" where
  "missing_parent_law F follow \<longleftrightarrow> (\<forall>fs p t fs' msg.
     fs_write_file F fs p t follow = (fs', Inl (IoErr NotFound msg)) \<longrightarrow>
       file_view F follow fs' = file_view F follow fs \<and>
       (\<forall>q. note_existing_path_delta_support F fs q follow \<longrightarrow>
          note_existing_path_delta_support F fs' q follow))"

definition create_directory_law ::
  "('f, 'p) executor_file_system \<Rightarrow> 'p path_operations \<Rightarrow> bool \<Rightarrow> bool" where
  "create_directory_law F P follow \<longleftrightarrow> (\<forall>fs d fs' r.
     fs_create_directory F fs d True follow = (fs', r) \<longrightarrow>
       file_view F follow fs' = file_view F follow fs \<and>
       (\<forall>q. (path_parent P q = Some d \<or> file_view F follow fs q \<noteq> None) \<and>
          note_existing_path_delta_support F fs q follow \<longrightarrow>
          note_existing_path_delta_support F fs' q follow))"

definition remove_law :: "('f, 'p) executor_file_system \<Rightarrow> bool \<Rightarrow> bool" where
  "remove_law F follow \<longleftrightarrow> (\<forall>fs p fs' r.
     fs_remove F fs p \<lparr>recursive = False, force = False, remove_follow_symlinks = follow\<rparr> = (fs', r) \<longrightarrow>
       (case r of
          Inr u \<Rightarrow> note_existing_path_delta_support F fs p follow \<longrightarrow>
            file_view F follow fs' = (file_view F follow fs)(p := None)
        | Inl e \<Rightarrow> \<forall>q. q \<noteq> p \<longrightarrow> file_view F follow fs' q = file_view F follow fs q))"

definition fs_laws :: "('f, 'p) executor_file_system \<Rightarrow> 'p path_operations \<Rightarrow> bool \<Rightarrow> bool" where
  "fs_laws F P follow \<longleftrightarrow> write_law F follow \<and> missing_parent_law F follow \<and>
     create_directory_law F P follow \<and> remove_law F follow"

section \<open>Replaying committed changes\<close>

fun replay_change :: "('p \<Rightarrow> ustr option) \<Rightarrow> 'p applied_patch_change \<Rightarrow> 'p \<Rightarrow> ustr option" where
  "replay_change v (p, ChangeAdd content overwritten) = v(p := Some content)"
| "replay_change v (p, ChangeDelete content) = v(p := None)"
| "replay_change v (p, ChangeUpdate None old overwritten new) = v(p := Some new)"
| "replay_change v (p, ChangeUpdate (Some d) old overwritten new) = v(p := None, d := Some new)"

text \<open>The old texts in the record are the texts the files had, and a move is to another path.\<close>

fun change_matches :: "('p \<Rightarrow> ustr option) \<Rightarrow> 'p applied_patch_change \<Rightarrow> bool" where
  "change_matches v (p, ChangeAdd content overwritten) \<longleftrightarrow> v p = overwritten"
| "change_matches v (p, ChangeDelete content) \<longleftrightarrow> v p = Some content"
| "change_matches v (p, ChangeUpdate None old overwritten new) \<longleftrightarrow> v p = Some old"
| "change_matches v (p, ChangeUpdate (Some d) old overwritten new) \<longleftrightarrow>
     p \<noteq> d \<and> v p = Some old \<and> v d = overwritten"

fun replays :: "('p \<Rightarrow> ustr option) \<Rightarrow> 'p applied_patch_change list \<Rightarrow> ('p \<Rightarrow> ustr option) \<Rightarrow> bool" where
  "replays v [] v' \<longleftrightarrow> v' = v"
| "replays v (c # cs) v' \<longleftrightarrow> change_matches v c \<and> replays (replay_change v c) cs v'"

lemma replays_append: "replays v (cs @ ds) v' \<longleftrightarrow> (\<exists>u. replays v cs u \<and> replays u ds v')"
  by (induction cs arbitrary: v) auto

text \<open>One step of the application, or several.\<close>

definition delta_extends ::
  "('p \<Rightarrow> ustr option) \<Rightarrow> 'p applied_patch_delta \<Rightarrow> ('p \<Rightarrow> ustr option) \<Rightarrow> 'p applied_patch_delta \<Rightarrow> bool" where
  "delta_extends v d v' d' \<longleftrightarrow>
     (exact d' \<longrightarrow> exact d \<and> (\<exists>cs. changes d' = changes d @ cs \<and> replays v cs v'))"

lemma delta_extends_refl: "delta_extends v d v d"
  by (simp add: delta_extends_def)

lemma delta_extends_trans:
  assumes "delta_extends v d v' d'" and "delta_extends v' d' v'' d''"
  shows "delta_extends v d v'' d''"
  using assms by (fastforce simp: delta_extends_def replays_append)

lemma delta_extends_and_exact:
  assumes "b \<Longrightarrow> delta_extends v d v' d'" and "exact d' \<Longrightarrow> b"
  shows "delta_extends v d v' d'"
  using assms by (auto simp: delta_extends_def)

lemma delta_extends_inexact [simp]: "delta_extends v d v' (d'\<lparr>exact := False\<rparr>)"
  by (simp add: delta_extends_def)

lemma exact_simps [simp]:
  "exact (and_exact b d) \<longleftrightarrow> exact d \<and> b" "changes (and_exact b d) = changes d"
  "exact (push_change c d) = exact d" "changes (push_change c d) = changes d @ [c]"
  by (auto simp: and_exact_def push_change_def)

section \<open>The helpers\<close>

lemma write_lawD:
  assumes "fs_laws F P follow" and "note_existing_path_delta_support F fs p follow"
    and "fs_write_file F fs p t follow = (fs', Inr u)"
  shows "file_view F follow fs' = (file_view F follow fs)(p := Some t)"
    and "q \<noteq> p \<Longrightarrow> note_existing_path_delta_support F fs q follow \<Longrightarrow>
      note_existing_path_delta_support F fs' q follow"
  using assms unfolding fs_laws_def write_law_def by (metis old.unit.exhaust)+

lemma missing_parent_lawD:
  assumes "fs_laws F P follow" and "fs_write_file F fs p t follow = (fs', Inl (IoErr NotFound msg))"
  shows "file_view F follow fs' = file_view F follow fs"
    and "note_existing_path_delta_support F fs q follow \<Longrightarrow>
      note_existing_path_delta_support F fs' q follow"
  using assms unfolding fs_laws_def missing_parent_law_def by metis+

lemma create_directory_lawD:
  assumes "fs_laws F P follow" and "fs_create_directory F fs d True follow = (fs', r)"
  shows "file_view F follow fs' = file_view F follow fs"
    and "path_parent P q = Some d \<or> file_view F follow fs q \<noteq> None \<Longrightarrow>
      note_existing_path_delta_support F fs q follow \<Longrightarrow> note_existing_path_delta_support F fs' q follow"
  using assms unfolding fs_laws_def create_directory_law_def by metis+

lemma remove_lawD:
  assumes "fs_laws F P (follow_symlinks opts)" and "fs_remove F fs p (no_force_remove opts) = (fs', r)"
  shows "r = Inr u \<Longrightarrow> note_existing_path_delta_support F fs p (follow_symlinks opts) \<Longrightarrow>
      file_view F (follow_symlinks opts) fs' = (file_view F (follow_symlinks opts) fs)(p := None)"
    and "r = Inl e \<Longrightarrow> q \<noteq> p \<Longrightarrow>
      file_view F (follow_symlinks opts) fs' q = file_view F (follow_symlinks opts) fs q"
  using assms unfolding fs_laws_def remove_law_def no_force_remove_def by fastforce+

lemma write_retry_cases:
  assumes "write_file_with_missing_parent_retry F P fs p t follow = (fs', Inr u)"
  obtains u' where "fs_write_file F fs p t follow = (fs', Inr u')"
  | fs1 msg u' where "fs_write_file F fs p t follow = (fs1, Inl (IoErr NotFound msg))"
      "path_parent P p = None" "fs_write_file F fs1 p t follow = (fs', Inr u')"
  | fs1 msg parent fs2 r u' where "fs_write_file F fs p t follow = (fs1, Inl (IoErr NotFound msg))"
      "path_parent P p = Some parent" "fs_create_directory F fs1 parent True follow = (fs2, r)"
      "fs_write_file F fs2 p t follow = (fs', Inr u')"
  using assms unfolding write_file_with_missing_parent_retry_def
  by (auto simp: Let_def split: prod.splits sum.splits io_error.splits option.splits if_splits)

lemma write_retry_view:
  assumes laws: "fs_laws F P follow" and plain: "note_existing_path_delta_support F fs p follow"
    and run: "write_file_with_missing_parent_retry F P fs p t follow = (fs', Inr u)"
  shows "file_view F follow fs' = (file_view F follow fs)(p := Some t) \<and>
    (\<forall>q. q \<noteq> p \<and> file_view F follow fs q \<noteq> None \<and> note_existing_path_delta_support F fs q follow \<longrightarrow>
      note_existing_path_delta_support F fs' q follow)"
  using run
proof (cases rule: write_retry_cases)
  case (1 u')
  with write_lawD [OF laws plain] show ?thesis by blast
next
  case (2 fs1 msg u')
  from missing_parent_lawD [OF laws 2(1)] write_lawD [OF laws _ 2(3)] plain show ?thesis by auto
next
  case (3 fs1 msg parent fs2 r u')
  note missing = missing_parent_lawD [OF laws 3(1)] and created = create_directory_lawD [OF laws 3(3)]
  have "note_existing_path_delta_support F fs2 p follow"
    using plain missing(2) created(2) 3(2) by blast
  from missing created write_lawD [OF laws this 3(4)] show ?thesis by auto
qed

lemma read_optional_exact:
  assumes "read_optional_file_text_for_delta F fs p follow = (old, True)"
  shows "note_existing_path_delta_support F fs p follow" and "file_view F follow fs p = old"
  using assms
  by (auto simp: read_optional_file_text_for_delta_def file_view_def Let_def
      split: sum.splits io_error.splits)

section \<open>Every hunk keeps the record true\<close>

lemma apply_add_file_extends:
  assumes "fs_laws F P (follow_symlinks opts)"
    and "apply_add_file F P opts p ap t fs delta aff = (fs', delta', r)"
  shows "delta_extends (file_view F (follow_symlinks opts) fs) delta
    (file_view F (follow_symlinks opts) fs') delta'"
proof -
  let ?f = "follow_symlinks opts"
  obtain old ok where old: "read_optional_file_text_for_delta F fs p ?f = (old, ok)" by fastforce
  obtain fs1 w where w: "write_file_with_missing_parent_retry F P fs p t ?f = (fs1, w)" by fastforce
  show ?thesis
  proof (cases w)
    case (Inl e)
    with assms(2) old w show ?thesis by (auto simp: apply_add_file_def)
  next
    case (Inr u)
    with assms(2) old w have d': "fs' = fs1"
      "delta' = push_change (p, ChangeAdd t old) (and_exact ok delta)"
      by (auto simp: apply_add_file_def)
    show ?thesis
    proof (rule delta_extends_and_exact [where b = ok])
      assume ok
      with old have plain: "note_existing_path_delta_support F fs p ?f" "file_view F ?f fs p = old"
        by (auto dest: read_optional_exact)
      from write_retry_view [OF assms(1) plain(1) w [unfolded Inr]] plain(2) d' \<open>ok\<close>
      show ?thesis by (simp add: delta_extends_def)
    qed (simp add: d')
  qed
qed

lemma side_effect_free_view:
  "remove_failure_was_side_effect_free F fs p (Some t) follow \<Longrightarrow> file_view F follow fs p = Some t"
  by (auto simp: remove_failure_was_side_effect_free_def file_view_def split: sum.splits)


lemma view_unchanged:
  assumes "\<And>q. q \<noteq> p \<Longrightarrow> v' q = v q" and "v' p = v p"
  shows "v' = v"
  using assms by (metis ext)

lemma apply_delete_file_extends:
  assumes "fs_laws F P (follow_symlinks opts)"
    and "apply_delete_file F P opts p ap fs delta aff = (fs', delta', r)"
  shows "delta_extends (file_view F (follow_symlinks opts) fs) delta
    (file_view F (follow_symlinks opts) fs') delta'"
proof -
  let ?f = "follow_symlinks opts"
  let ?plain = "note_existing_path_delta_support F fs p ?f"
  have view: "(case fs_read_file_text F fs p ?f of Inr c \<Rightarrow> Some c | Inl _ \<Rightarrow> None) = file_view F ?f fs p"
    by (simp add: file_view_def)
  obtain fs1 w where w: "fs_remove F fs p (no_force_remove opts) = (fs1, w)" by fastforce
  show ?thesis
  proof (cases "ensure_not_directory F fs p ?f")
    case (Inl e)
    with assms(2) show ?thesis
      by (auto simp: apply_delete_file_def Let_def delta_extends_def)
  next
    case (Inr u)
    note run = assms(2) [unfolded apply_delete_file_def Let_def view Inr w]
    show ?thesis
    proof (cases w)
      case (Inr u)
      with run remove_lawD(1) [OF assms(1) w, of u] show ?thesis
        by (auto simp: delta_extends_def split: option.splits)
    next
      case (Inl e)
      show ?thesis
      proof (cases "file_view F ?f fs p")
        case None
        with run Inl show ?thesis by (auto simp: delta_extends_def)
      next
        case (Some t)
        have "file_view F ?f fs1 = file_view F ?f fs"
          if "remove_failure_was_side_effect_free F fs1 p (Some t) ?f"
          using remove_lawD(2) [OF assms(1) w Inl] side_effect_free_view [OF that] Some
          by (intro view_unchanged [of p]) auto
        with run Inl Some show ?thesis by (auto simp: delta_extends_def)
      qed
    qed
  qed
qed

lemma apply_update_in_place_extends:
  assumes "fs_laws F P (follow_symlinks opts)"
    and "exact delta \<Longrightarrow> note_existing_path_delta_support F fs p (follow_symlinks opts)"
    and "file_view F (follow_symlinks opts) fs p = Some old"
    and "apply_update_in_place F P opts p ap old new fs delta aff = (fs', delta', r)"
  shows "delta_extends (file_view F (follow_symlinks opts) fs) delta
    (file_view F (follow_symlinks opts) fs') delta'"
proof -
  obtain fs1 w where w: "fs_write_file F fs p new (follow_symlinks opts) = (fs1, w)" by fastforce
  show ?thesis
  proof (cases w)
    case (Inl e)
    with assms(4) w show ?thesis by (auto simp: apply_update_in_place_def)
  next
    case (Inr u)
    with assms(4) w have "fs' = fs1" "delta' = push_change (p, ChangeUpdate None old None new) delta"
      by (auto simp: apply_update_in_place_def)
    with write_lawD(1) [OF assms(1) assms(2) w [unfolded Inr]] assms(3) show ?thesis
      by (simp add: delta_extends_def)
  qed
qed

lemma list_update_snoc: "(xs @ [x])[length xs := y] = xs @ [y]"
  by simp

lemma apply_move_file_extends:
  assumes laws: "fs_laws F P (follow_symlinks opts)" and apart: "p \<noteq> d"
    and plain: "exact delta \<Longrightarrow> note_existing_path_delta_support F fs p (follow_symlinks opts)"
    and view: "file_view F (follow_symlinks opts) fs p = Some old"
    and run: "apply_move_file F P opts p d ap old new fs delta aff = (fs', delta', r)"
  shows "delta_extends (file_view F (follow_symlinks opts) fs) delta
    (file_view F (follow_symlinks opts) fs') delta'"
proof -
  let ?f = "follow_symlinks opts"
  obtain over ok where over: "read_optional_file_text_for_delta F fs d ?f = (over, ok)" by fastforce
  obtain fs1 w where w: "write_file_with_missing_parent_retry F P fs d new ?f = (fs1, w)" by fastforce
  obtain fs2 x where x: "fs_remove F fs1 p (no_force_remove opts) = (fs2, x)" by fastforce
  show ?thesis
  proof (cases w)
    case (Inl e)
    with run over w show ?thesis by (auto simp: apply_move_file_def)
  next
    case (Inr u)
    note moved = run [unfolded apply_move_file_def Let_def over w Inr prod.case sum.case x]
    have ok: "exact delta' \<Longrightarrow> exact delta \<and> ok"
      using moved by (auto split: sum.splits)
    show ?thesis
    proof (rule delta_extends_and_exact [where b = "exact delta \<and> ok"])
      assume b: "exact delta \<and> ok"
      with over have dest: "note_existing_path_delta_support F fs d ?f" "file_view F ?f fs d = over"
        by (auto dest: read_optional_exact)
      note written = write_retry_view [OF laws dest(1) w [unfolded Inr]]
      with plain b apart view have plain1: "note_existing_path_delta_support F fs1 p ?f" by auto
      have view1: "file_view F ?f fs1 p = Some old" using written apart view by simp
      show ?thesis
      proof (cases "ensure_not_directory F fs1 p ?f")
        case (Inl e)
        with moved written dest(2) b show ?thesis by (auto simp: delta_extends_def)
      next
        case nodir: (Inr u')
        show ?thesis
        proof (cases x)
          case (Inr u'')
          with moved nodir have d': "fs' = fs2"
            "changes delta' = changes delta @ [(p, ChangeUpdate (Some d) old over new)]"
            by (auto simp: list_update_snoc)
          have "file_view F ?f fs2 = (file_view F ?f fs)(p := None, d := Some new)"
            using remove_lawD(1) [OF laws x Inr plain1] written apart by (auto simp: fun_upd_twist)
          with d' dest(2) view b apart show ?thesis by (simp add: delta_extends_def)
        next
          case failed: (Inl e)
          have "file_view F ?f fs2 = file_view F ?f fs1"
            if "remove_failure_was_side_effect_free F fs2 p (Some old) ?f"
            using remove_lawD(2) [OF laws x failed] side_effect_free_view [OF that] view1
            by (intro view_unchanged [of p]) auto
          with moved nodir failed written dest(2) b show ?thesis
            by (auto simp: delta_extends_def)
        qed
      qed
    qed (use ok in blast)
  qed
qed


lemma apply_update_file_extends:
  assumes laws: "fs_laws F P (follow_symlinks opts)"
    and apart: "\<And>d q. mv = Some d \<Longrightarrow> path_join P cwd d = Inr q \<Longrightarrow> p \<noteq> q"
    and run: "apply_update_file F P opts cwd p ap mv chunks fs delta aff = Some (fs', delta', r)"
  shows "delta_extends (file_view F (follow_symlinks opts) fs) delta
    (file_view F (follow_symlinks opts) fs') delta'"
proof -
  let ?f = "follow_symlinks opts"
  let ?d = "and_exact (note_existing_path_delta_support F fs p ?f) delta"
  have start: "delta_extends (file_view F ?f fs) delta (file_view F ?f fs) ?d"
    by (simp add: delta_extends_def)
  obtain res where res: "derive_new_contents_from_chunks F P opts fs p chunks = Some res"
    using run by (auto simp: apply_update_file_def Let_def split: option.splits)
  have "delta_extends (file_view F ?f fs) ?d (file_view F ?f fs') delta'"
  proof (cases res)
    case (Inl e)
    with run res show ?thesis by (auto simp: apply_update_file_def Let_def delta_extends_def)
  next
    case (Inr on)
    obtain old new where on: "on = (old, new)" by (cases on)
    with res Inr have view: "file_view F ?f fs p = Some old"
      by (auto simp: derive_new_contents_from_chunks_def file_view_def and_then_eq_Inr split: sum.splits)
    note run' = run [unfolded apply_update_file_def Let_def res Inr on option.case sum.case prod.case]
    show ?thesis
    proof (cases mv)
      case None
      with run' show ?thesis
        by (intro apply_update_in_place_extends [OF laws _ view]) auto
    next
      case (Some d)
      show ?thesis
      proof (cases "path_join P cwd d")
        case (Inl e)
        with run' Some show ?thesis by (auto simp: delta_extends_def)
      next
        case (Inr q)
        with run' Some apart show ?thesis
          by (intro apply_move_file_extends [OF laws _ _ view]) auto
      qed
    qed
  qed
  with start show ?thesis by (rule delta_extends_trans)
qed

text \<open>The destination of a move is not its source.\<close>

definition moves_apart :: "'p path_operations \<Rightarrow> 'p \<Rightarrow> hunk \<Rightarrow> bool" where
  "moves_apart P cwd h \<longleftrightarrow>
     (case h of
        UpdateFile p (Some d) chunks \<Rightarrow> path_join P cwd p \<noteq> path_join P cwd d
      | _ \<Rightarrow> True)"

lemma apply_hunk_extends:
  assumes "fs_laws F P (follow_symlinks opts)" and "moves_apart P cwd h"
    and "apply_hunk F P opts cwd h fs delta aff = Some (fs', delta', r)"
  shows "delta_extends (file_view F (follow_symlinks opts) fs) delta
    (file_view F (follow_symlinks opts) fs') delta'"
proof (cases "path_join P cwd (hunk_source_path h)")
  case (Inl e)
  with assms(3) show ?thesis by (auto simp: apply_hunk_def delta_extends_refl)
next
  case (Inr p)
  show ?thesis
  proof (cases h)
    case (AddFile ap t)
    with assms Inr show ?thesis by (auto simp: apply_hunk_def intro: apply_add_file_extends)
  next
    case (DeleteFile ap)
    with assms Inr show ?thesis by (auto simp: apply_hunk_def intro: apply_delete_file_extends)
  next
    case (UpdateFile ap mv chunks)
    from assms(3) Inr UpdateFile
    have "apply_update_file F P opts cwd p (hunk_path h) mv chunks fs delta aff = Some (fs', delta', r)"
      by (simp add: apply_hunk_def)
    moreover have "\<And>d q. mv = Some d \<Longrightarrow> path_join P cwd d = Inr q \<Longrightarrow> p \<noteq> q"
      using assms(2) Inr UpdateFile by (auto simp: moves_apart_def hunk_source_path_def)
    ultimately show ?thesis using apply_update_file_extends [OF assms(1)] by blast
  qed
qed

lemma apply_hunks_loop_extends:
  assumes "fs_laws F P (follow_symlinks opts)" and "list_all (moves_apart P cwd) hs"
    and "apply_hunks_loop F P opts cwd hs fs delta aff = Some (fs', delta', r)"
  shows "delta_extends (file_view F (follow_symlinks opts) fs) delta
    (file_view F (follow_symlinks opts) fs') delta'"
  using assms(2,3)
proof (induction hs arbitrary: fs delta aff)
  case (Cons h hs)
  from Cons.prems(2) obtain fs1 delta1 s where
    step: "apply_hunk F P opts cwd h fs delta aff = Some (fs1, delta1, s)"
    by (auto split: option.splits)
  have "delta_extends (file_view F (follow_symlinks opts) fs) delta
      (file_view F (follow_symlinks opts) fs1) delta1"
    using assms(1) Cons.prems(1) step by (auto intro: apply_hunk_extends)
  moreover have "delta_extends (file_view F (follow_symlinks opts) fs1) delta1
      (file_view F (follow_symlinks opts) fs') delta'"
    using Cons.IH Cons.prems step by (cases s) (auto simp: delta_extends_refl)
  ultimately show ?case by (rule delta_extends_trans)
qed (simp add: delta_extends_refl)


end
