(* ===== verification/Memory_Files.thy ===== *)
theory Memory_Files
  imports Patch_Delta
begin

text \<open>
  A file system in memory, as an association list from names to texts: it satisfies the laws that
  \<^verbatim>\<open>Patch_Delta\<close> asks of the \<^verbatim>\<open>ExecutorFileSystem\<close> parameter, and the examples run on it.
\<close>

type_synonym memory = "(ustr \<times> ustr) list"

definition mem_missing :: io_error where
  "mem_missing = IoErr NotFound (str ''not found'')"

definition mem_read :: "memory \<Rightarrow> ustr \<Rightarrow> bool \<Rightarrow> io_error + ustr" where
  "mem_read fs p follow = (case map_of fs p of Some t \<Rightarrow> Inr t | None \<Rightarrow> Inl mem_missing)"

definition mem_metadata :: "memory \<Rightarrow> ustr \<Rightarrow> bool \<Rightarrow> io_error + file_metadata" where
  "mem_metadata fs p follow =
     (case map_of fs p of
        Some t \<Rightarrow> Inr \<lparr>is_directory = False, is_file = True, is_symlink = False\<rparr>
      | None \<Rightarrow> Inl mem_missing)"

definition mem_without :: "ustr \<Rightarrow> memory \<Rightarrow> memory" where
  "mem_without p fs = filter (\<lambda>e. fst e \<noteq> p) fs"

definition mem_write :: "memory \<Rightarrow> ustr \<Rightarrow> ustr \<Rightarrow> bool \<Rightarrow> memory \<times> (io_error + unit)" where
  "mem_write fs p t follow = ((p, t) # mem_without p fs, Inr ())"

definition mem_create_directory :: "memory \<Rightarrow> ustr \<Rightarrow> bool \<Rightarrow> bool \<Rightarrow> memory \<times> (io_error + unit)" where
  "mem_create_directory fs p recurse follow = (fs, Inr ())"

definition mem_remove :: "memory \<Rightarrow> ustr \<Rightarrow> remove_options \<Rightarrow> memory \<times> (io_error + unit)" where
  "mem_remove fs p opts =
     (if map_of fs p = None then (fs, Inl mem_missing) else (mem_without p fs, Inr ()))"

definition mem_fs :: "(memory, ustr) executor_file_system" where
  "mem_fs =
     \<lparr>fs_read_file_text = mem_read, fs_get_metadata = mem_metadata, fs_write_file = mem_write,
      fs_create_directory = mem_create_directory, fs_remove = mem_remove\<rparr>"

definition mem_paths :: "ustr path_operations" where
  "mem_paths = \<lparr>path_join = (\<lambda>cwd p. Inr p), path_parent = (\<lambda>p. None), path_native = id\<rparr>"

lemma map_of_without: "map_of (mem_without p fs) = (map_of fs)(p := None)"
  by (induction fs) (auto simp: mem_without_def)

lemma mem_view: "file_view mem_fs follow fs = map_of fs"
  by (auto simp: file_view_def mem_fs_def mem_read_def fun_eq_iff split: option.split)

lemma mem_plain: "note_existing_path_delta_support mem_fs fs p follow"
  by (simp add: note_existing_path_delta_support_def mem_fs_def mem_metadata_def mem_missing_def
      split: option.split)

lemma mem_operations:
  "fs_write_file mem_fs = mem_write" "fs_create_directory mem_fs = mem_create_directory"
  "fs_remove mem_fs = mem_remove"
  by (simp_all add: mem_fs_def)

lemma mem_laws: "fs_laws mem_fs mem_paths follow"
  unfolding fs_laws_def write_law_def missing_parent_law_def create_directory_law_def remove_law_def
  by (auto simp: mem_view mem_plain mem_operations mem_write_def mem_create_directory_def mem_remove_def
      map_of_without split: if_splits)

end
