(* ===== verification/Update_Correct.thy ===== *)
theory Update_Correct
  imports Update_Plan
begin

text \<open>
  What the two updaters produce: keeping the context lines in place gives the same lines as
  replacing the whole chunk, and a patch of one chunk replaces the first exact occurrence of its
  old lines by its new lines.
\<close>

section \<open>Skipping to the first replacement\<close>

lemma splice_skip:
  assumes "ordered_edits j n rs" and "i \<le> j" and "n \<le> length xs"
  shows "splice xs i rs = take (j - i) (drop i xs) @ splice xs j rs"
proof (cases rs)
  case Nil
  have "drop i xs = take (j - i) (drop i xs) @ drop (j - i) (drop i xs)"
    by (rule append_take_drop_id [symmetric])
  with Nil assms(2) show ?thesis by simp
next
  case (Cons r rs')
  obtain s l new where r: "r = (s, l, new)" by (cases r)
  from Cons r assms have "j \<le> s" by simp
  with assms(2) have "s - i = (j - i) + (s - j)" by simp
  then have "take (s - i) (drop i xs) =
      take (j - i) (drop i xs) @ take (s - j) (drop (j - i) (drop i xs))"
    by (simp only: take_add)
  with Cons r assms(2) show ?thesis by simp
qed

lemma context_replacements_splice:
  assumes "sorted_wrt context_before cs"
    and "\<forall>(a, b) \<in> set cs. old_start \<le> a \<and> new_start \<le> b"
    and "old_start \<le> pat_len" and "new_start \<le> length new" and "s + pat_len \<le> length xs"
    and "\<forall>(a, b) \<in> set cs. a < pat_len \<and> b < length new \<longrightarrow> xs ! (s + a) = new ! b"
    and "context_replacements s pat_len new cs old_start new_start = Some rs"
  shows "splice xs (s + old_start) rs = drop new_start new @ drop (s + pat_len) xs"
  using assms
proof (induction cs arbitrary: old_start new_start rs)
  case Nil
  then show ?case by (auto split: if_splits)
next
  case (Cons ctx cs)
  obtain a b where ctx: "ctx = (a, b)" by (cases ctx)
  show ?case
  proof (cases "pat_len \<le> a \<or> length new \<le> b")
    case True
    with Cons.IH [of old_start new_start rs] Cons.prems ctx show ?thesis by (auto split: if_splits)
  next
    case False
    from Cons.prems(2) ctx have here: "old_start \<le> a" "new_start \<le> b" by simp_all
    have above: "\<forall>(x, y) \<in> set cs. a + 1 \<le> x \<and> b + 1 \<le> y"
      using Cons.prems(1) ctx by (force simp: context_before_def)
    with context_replacements_ordered [of cs "a + 1" "b + 1" pat_len new s] Cons.prems(1) False
    obtain rs' where rs': "context_replacements s pat_len new cs (a + 1) (b + 1) = Some rs'"
      "ordered_edits (s + (a + 1)) (s + pat_len) rs'" by auto
    have "splice xs (s + (a + 1)) rs' = drop (b + 1) new @ drop (s + pat_len) xs"
      using Cons.IH [of "a + 1" "b + 1" rs'] Cons.prems above False rs'(1) by auto
    moreover have "take 1 (drop (s + a) xs) = [new ! b]"
      using Cons.prems(5,6) ctx False by (simp add: take_Suc_conv_app_nth)
    ultimately have tail: "splice xs (s + a) rs' = drop b new @ drop (s + pat_len) xs"
      using splice_skip [OF rs'(2), of "s + a" xs] Cons.prems(5) False
      by (simp add: Cons_nth_drop_Suc)
    have "take (b - new_start) (drop new_start new) @ drop b new = drop new_start new"
      using here append_take_drop_id [of "b - new_start" "drop new_start new"] by simp
    with tail here False ctx Cons.prems(7) rs'(1) show ?thesis
      by (auto split: if_splits simp flip: append_assoc)
  qed
qed

lemma context_line_kept:
  assumes "chunk_wf c" and "(a, b) \<in> set (context_line_indices c)"
    and "take (length (old_lines c)) (drop i ls) = old_lines c"
  shows "ls ! (i + a) = new_lines c ! b"
proof -
  from assms(1,2) have a: "a < length (old_lines c)" "old_lines c ! a = new_lines c ! b"
    by (auto simp: chunk_wf_def)
  then have "old_lines c ! a = drop i ls ! a" by (subst assms(3) [symmetric]) simp
  moreover have "i + a < length ls"
  proof -
    have "length (old_lines c) \<le> length (drop i ls)"
      by (subst assms(3) [symmetric]) simp
    with a(1) show ?thesis by simp
  qed
  ultimately show ?thesis using a by simp
qed

lemma preserved_splice:
  assumes "chunk_wf c" and "i + length (old_lines c) \<le> length ls"
    and "take (length (old_lines c)) (drop i ls) = old_lines c"
  obtains rs where "found_replacements PreserveLineEndings i (old_lines c) (new_lines c) c = Some rs"
    and "ordered_edits 0 (length ls) rs"
    and "splice ls 0 rs = take i ls @ new_lines c @ drop (i + length (old_lines c)) ls"
proof -
  from found_replacements_ordered [OF assms(1), of PreserveLineEndings i "old_lines c" "new_lines c"]
  obtain rs where rs: "found_replacements PreserveLineEndings i (old_lines c) (new_lines c) c = Some rs"
    "ordered_edits i (i + length (old_lines c)) rs" by blast
  have "splice ls (i + 0) rs = drop 0 (new_lines c) @ drop (i + length (old_lines c)) ls"
    by (rule context_replacements_splice [where cs = "context_line_indices c"])
      (use assms rs(1) context_line_kept [OF assms(1) _ assms(3)]
        in \<open>auto simp: chunk_wf_def found_replacements_def\<close>)
  moreover have "splice ls 0 rs = take i ls @ splice ls i rs"
    using splice_skip [OF rs(2), of 0 ls] assms(2) by simp
  moreover have "ordered_edits 0 (length ls) rs"
    using rs(2) assms(2) by (auto intro: ordered_edits_weaken ordered_edits_mono)
  ultimately show thesis using rs(1) by (intro that) auto
qed

text \<open>C8. Where a chunk matches exactly, keeping its context lines in place yields the same lines as
  replacing all its old lines by all its new lines.\<close>

theorem found_replacements_modes:
  assumes "chunk_wf c" and "i + length (old_lines c) \<le> length ls"
    and "take (length (old_lines c)) (drop i ls) = old_lines c"
  shows "\<exists>rs. found_replacements PreserveLineEndings i (old_lines c) (new_lines c) c = Some rs \<and>
    found_replacements NormalizeToLf i (old_lines c) (new_lines c) c =
      Some [(i, length (old_lines c), new_lines c)] \<and>
    splice ls 0 rs = splice ls 0 [(i, length (old_lines c), new_lines c)]"
  using preserved_splice [OF assms] by (force simp: found_replacements_def)

section \<open>A patch of one chunk\<close>

definition lf_line :: "ustr \<Rightarrow> source_line" where
  "lf_line t = \<lparr>line_text = t, line_ending = Some Lf\<rparr>"

lemma parse_loop_lf:
  assumes "LF \<notin> set l" and "CR \<notin> set l"
  shows "parse_loop cur pref (l @ LF # rest) =
    (case parse_loop [] (get_or_insert pref Lf) rest of (ls, p) \<Rightarrow> (lf_line (cur @ l) # ls, p))"
  using assms
proof (induction l arbitrary: cur)
  case Nil
  then show ?case by (simp add: ending_at_def lf_line_def split: prod.splits)
next
  case (Cons c l)
  then have "ending_at c (l @ LF # rest) = None" by (simp add: ending_at_None)
  with Cons show ?case by simp
qed

lemma parse_lf_text:
  assumes "\<forall>l \<in> set ls. LF \<notin> set l \<and> CR \<notin> set l"
  shows "source_file_parse (lf_text ls) = \<lparr>source_lines = map lf_line ls, preferred_ending = Lf\<rparr>"
proof -
  have "fst (parse_loop [] pref (lf_text ls)) = map lf_line ls \<and>
      snd (parse_loop [] pref (lf_text ls)) \<in> {pref, Some Lf}"
    if "pref \<in> {None, Some Lf}" for pref
    using assms that
  proof (induction ls arbitrary: pref)
    case (Cons l ls)
    then have "get_or_insert pref Lf = Some Lf" by (auto simp: get_or_insert_def)
    with Cons.IH [of "Some Lf"] Cons.prems show ?case
      by (auto simp: lf_text_def parse_loop_lf split: prod.splits)
  qed (simp add: lf_text_def)
  from this [of None] show ?thesis
    by (auto simp: source_file_parse_def split: prod.splits)
qed


lemma single_chunk_plan:
  assumes "change_context c = None" and "\<not> is_end_of_file c" and "old_lines c \<noteq> []"
    and "i + length (old_lines c) \<le> length ls"
    and "take (length (old_lines c)) (drop i ls) = old_lines c"
    and "\<And>j. j < i \<Longrightarrow> take (length (old_lines c)) (drop j ls) \<noteq> old_lines c"
  shows "compute_replacements ls path [c] m =
    map_option (\<lambda>rs. Inr (sort_key fst rs)) (found_replacements m i (old_lines c) (new_lines c) c)"
proof -
  have "seek_sequence ls (old_lines c) 0 False m = Some i"
    using assms by (intro seek_sequence_first) (simp_all add: search_start_def)
  with assms show ?thesis
    by (auto simp: compute_replacements_def seek_context_def seek_chunk_def split: option.splits)
qed

lemma ordered_edits_sorted: "ordered_edits i n rs \<Longrightarrow> sort_key fst rs = rs"
proof -
  assume "ordered_edits i n rs"
  then have "sorted_wrt edit_before rs"
    using ordered_edits_iff ordered_edits_bound by blast
  then have "sorted (map fst rs)"
    unfolding sorted_map by (rule sorted_wrt_mono_rel [rotated]) (simp add: edit_before_def edit_end_def)
  then show ?thesis by (simp add: sort_key_id_if_sorted)
qed

lemma derive_preserving_first:
  assumes "chunk_wf c" and "change_context c = None" and "\<not> is_end_of_file c" and "old_lines c \<noteq> []"
    and "\<forall>l \<in> set ls. LF \<notin> set l \<and> CR \<notin> set l"
    and "i + length (old_lines c) \<le> length ls"
    and "take (length (old_lines c)) (drop i ls) = old_lines c"
    and "\<And>j. j < i \<Longrightarrow> take (length (old_lines c)) (drop j ls) \<noteq> old_lines c"
  shows "derive_preserving path (lf_text ls) [c] =
    Some (Inr (lf_text (take i ls @ new_lines c @ drop (i + length (old_lines c)) ls)))"
proof -
  let ?f = "\<lparr>source_lines = map lf_line ls, preferred_ending = Lf\<rparr>"
  obtain rs where rs: "found_replacements PreserveLineEndings i (old_lines c) (new_lines c) c = Some rs"
    "ordered_edits 0 (length ls) rs"
    "splice ls 0 rs = take i ls @ new_lines c @ drop (i + length (old_lines c)) ls"
    using preserved_splice [OF assms(1,6,7)] .
  have texts: "line_texts ?f = ls" by (simp add: line_texts_def lf_line_def comp_def)
  have plan: "compute_replacements ls path [c] PreserveLineEndings = Some (Inr rs)"
    using single_chunk_plan [OF assms(2,3,4,6,7,8)] rs by (simp add: ordered_edits_sorted)
  have edit: "map (line_edit Lf) rs = map (\<lambda>(s, l, new). (s, l, map lf_line new)) rs"
    by (auto simp: line_edit_def lf_line_def)
  have "replace_loop Lf (map lf_line ls) 0 rs [] = Some (map lf_line (splice ls 0 rs))"
    using replace_loop_splice [of 0 "map lf_line ls" rs Lf "[]"] rs(2)
    by (simp add: splice_map edit)
  then have "source_file_apply_replacements ?f rs =
      Some (?f\<lparr>source_lines := map lf_line (splice ls 0 rs)\<rparr>)"
    by (simp add: source_file_apply_replacements_def fill_ending_def lf_line_def get_or_insert_def comp_def)
  then show ?thesis
    using plan parse_lf_text [OF assms(5)] texts rs(3)
    by (simp add: derive_preserving_def into_contents_def lf_text_def lf_line_def comp_def)
qed

text \<open>A patch of one chunk, applied to a file of line-feed terminated lines, replaces the first
  exact occurrence of the chunk's old lines by its new lines and leaves every other line as it is.\<close>

theorem derive_preserving_single:
  assumes "chunk_wf c" and "change_context c = None" and "\<not> is_end_of_file c" and "old_lines c \<noteq> []"
    and "\<forall>l \<in> set ls. LF \<notin> set l \<and> CR \<notin> set l"
    and "i + length (old_lines c) \<le> length ls"
    and "take (length (old_lines c)) (drop i ls) = old_lines c"
    and "\<And>j. j < i \<Longrightarrow> take (length (old_lines c)) (drop j ls) \<noteq> old_lines c"
  shows "derive_preserving path (lf_text ls) [c] =
    Some (Inr (lf_text (take i ls @ new_lines c @ drop (i + length (old_lines c)) ls)))"
  using assms by (rule derive_preserving_first)

end
