(* ===== verification/Patch_Roundtrip.thy ===== *)
theory Patch_Roundtrip
  imports Patch_Streaming
begin

text \<open>
  The patch grammar as a printer: the text of a list of hunks, and that the parser reads it back as
  the same hunks. The printer is the specification of the grammar that heads
  \<^verbatim>\<open>codex-rs/apply-patch/src/parser.rs\<close>; it has no counterpart in the code.
\<close>

section \<open>The printer\<close>

text \<open>The body of a chunk: removed and added lines up to each context line, then the rest.\<close>

fun print_body :: "ustr list \<Rightarrow> ustr list \<Rightarrow> (nat \<times> nat) list \<Rightarrow> nat \<Rightarrow> nat \<Rightarrow> ustr list" where
  "print_body old new [] i j = map ((#) 45) (drop i old) @ map ((#) 43) (drop j new)"
| "print_body old new ((a, b) # cs) i j =
     map ((#) 45) (take (a - i) (drop i old)) @ map ((#) 43) (take (b - j) (drop j new)) @
     (32 # old ! a) # print_body old new cs (Suc a) (Suc b)"

definition print_chunk :: "update_file_chunk \<Rightarrow> ustr list" where
  "print_chunk c =
     (case change_context c of
        None \<Rightarrow> EMPTY_CHANGE_CONTEXT_MARKER
      | Some ctx \<Rightarrow> CHANGE_CONTEXT_MARKER @ ctx) #
     print_body (old_lines c) (new_lines c) (context_line_indices c) 0 0 @
     (if is_end_of_file c then [EOF_MARKER] else [])"

definition added_lines :: "ustr \<Rightarrow> ustr list" where
  "added_lines contents = butlast (split_on LF contents)"

fun print_hunk :: "hunk \<Rightarrow> ustr list" where
  "print_hunk (AddFile path contents) =
     (ADD_FILE_MARKER @ path) # map ((#) 43) (added_lines contents)"
| "print_hunk (DeleteFile path) = [DELETE_FILE_MARKER @ path]"
| "print_hunk (UpdateFile path move chunks) =
     (UPDATE_FILE_MARKER @ path) #
     (case move of None \<Rightarrow> [] | Some target \<Rightarrow> [MOVE_TO_MARKER @ target]) @
     concat (map print_chunk chunks)"

definition print_lines :: "ustr option \<Rightarrow> hunk list \<Rightarrow> ustr list" where
  "print_lines env hs =
     BEGIN_PATCH_MARKER #
     (case env of None \<Rightarrow> [] | Some e \<Rightarrow> [ENVIRONMENT_ID_MARKER @ 32 # e]) @
     concat (map print_hunk hs)"

definition print_patch :: "ustr option \<Rightarrow> hunk list \<Rightarrow> ustr" where
  "print_patch env hs = join [LF] (print_lines env hs @ [END_PATCH_MARKER])"

section \<open>What can be printed\<close>

text \<open>A name that stands at the end of a header line.\<close>

definition name_ok :: "ustr \<Rightarrow> bool" where
  "name_ok s \<longleftrightarrow> s \<noteq> [] \<and> LF \<notin> set s \<and> \<not> is_whitespace (last s)"

definition line_ok :: "ustr \<Rightarrow> bool" where
  "line_ok l \<longleftrightarrow> LF \<notin> set l \<and> (l = [] \<or> last l \<noteq> CR)"

definition chunk_printable :: "update_file_chunk \<Rightarrow> bool" where
  "chunk_printable c \<longleftrightarrow> chunk_wf c \<and> \<not> chunk_is_blank c \<and>
     (case change_context c of None \<Rightarrow> True | Some ctx \<Rightarrow> name_ok ctx) \<and>
     (\<forall>l \<in> set (old_lines c) \<union> set (new_lines c). line_ok l)"

fun hunk_printable :: "hunk \<Rightarrow> bool" where
  "hunk_printable (AddFile path contents) \<longleftrightarrow>
     name_ok path \<and> lf_text (added_lines contents) = contents \<and> list_all line_ok (added_lines contents)"
| "hunk_printable (DeleteFile path) \<longleftrightarrow> name_ok path"
| "hunk_printable (UpdateFile path move chunks) \<longleftrightarrow>
     name_ok path \<and> (case move of None \<Rightarrow> True | Some target \<Rightarrow> name_ok target) \<and>
     chunks \<noteq> [] \<and> list_all chunk_printable chunks"

definition env_printable :: "ustr option \<Rightarrow> bool" where
  "env_printable env \<longleftrightarrow> (case env of None \<Rightarrow> True
     | Some e \<Rightarrow> name_ok e \<and> \<not> is_whitespace (hd e))"

section \<open>Running lines\<close>

fun run_lines :: "streaming_patch_parser \<Rightarrow> ustr list \<Rightarrow> parse_error + streaming_patch_parser" where
  "run_lines p [] = Inr p"
| "run_lines p (l # ls) =
     and_then (process_line (p\<lparr>line_number := line_number p + 1\<rparr>) l) (\<lambda>p'. run_lines p' ls)"

lemma run_lines_append: "run_lines p (xs @ ys) = and_then (run_lines p xs) (\<lambda>p'. run_lines p' ys)"
proof (induction p xs rule: run_lines.induct)
  case (2 p l ls)
  then show ?case by (cases "process_line (p\<lparr>line_number := line_number p + 1\<rparr>) l") simp_all
qed simp

lemma process_line_buffer: "process_line p l = Inr p' \<Longrightarrow> line_buffer p' = line_buffer p"
  by (drule process_line_step, cases rule: parser_step.cases)
    (auto simp: set_mode_def push_hunk_def replace_last_hunk_def)

lemma try_fold_line:
  assumes "LF \<notin> set l"
  shows "try_fold push_char p l = (p\<lparr>line_buffer := line_buffer p @ l\<rparr>, Inr ())"
  using assms by (induction l arbitrary: p) (auto simp: push_char_def)

lemma try_fold_lines:
  assumes "line_buffer p = []" and "list_all line_ok ls" and "run_lines p ls = Inr p'"
  shows "try_fold push_char p (lf_text ls) = (p', Inr ()) \<and> line_buffer p' = []"
  using assms
proof (induction ls arbitrary: p)
  case (Cons l ls)
  let ?p = "p\<lparr>line_number := line_number p + 1\<rparr>"
  from Cons.prems obtain q where q: "process_line ?p l = Inr q" "run_lines q ls = Inr p'"
    by (auto simp: and_then_eq_Inr)
  have clear: "p\<lparr>line_buffer := []\<rparr> = p" using Cons.prems(1) by simp
  have "try_fold push_char p (l @ [LF]) = (q, Inr ())"
    using Cons.prems(1,2) q(1)
    by (simp add: try_fold_append try_fold_line line_ok_def push_char_def drop_cr_no_cr Let_def clear)
  moreover have "try_fold push_char q (lf_text ls) = (p', Inr ()) \<and> line_buffer p' = []"
    using Cons.IH [of q] Cons.prems q process_line_buffer [OF q(1)] by simp
  moreover have "lf_text (l # ls) = (l @ [LF]) @ lf_text ls" by (simp add: lf_text_def)
  ultimately show ?case by (simp only: try_fold_append) simp
qed (simp add: lf_text_def)


section \<open>Reading headers\<close>

definition closed_hunks :: "hunk list \<Rightarrow> bool" where
  "closed_hunks hs \<longleftrightarrow>
     (hs \<noteq> [] \<longrightarrow> (case last hs of UpdateFile q mv cs \<Rightarrow> cs \<noteq> [] \<and> \<not> last_chunk_blank cs | _ \<Rightarrow> True))"

definition ready :: "ustr option \<Rightarrow> hunk list \<Rightarrow> streaming_patch_parser \<Rightarrow> bool" where
  "ready e hs p \<longleftrightarrow> active_mode (mode (state p)) \<and> hunks (state p) = hs \<and>
     environment_id (state p) = e \<and> closed_hunks hs"

lemma ensure_closed: "closed_hunks (hunks (state p)) \<Longrightarrow> ensure_update_hunk_is_not_empty p t = Inr ()"
  by (auto simp: closed_hunks_def ensure_update_hunk_is_not_empty_def Let_def
      split: hunk.splits list.splits)

lemma trim_name:
  assumes "m \<noteq> []" and "\<not> is_whitespace (hd m)" and "name_ok s"
  shows "trim (m @ s) = m @ s" and "trim_end (m @ s) = m @ s"
  using assms by (auto simp: name_ok_def intro!: trim_eq_self trim_end_eq_self)

lemma handle_header:
  assumes "closed_hunks (hunks (state p))"
  shows "handle_hunk_headers_and_end_patch p (ADD_FILE_MARKER @ path) =
      Inr (Some (push_hunk (AddFile path []) InAddFile p))"
    and "handle_hunk_headers_and_end_patch p (DELETE_FILE_MARKER @ path) =
      Inr (Some (push_hunk (DeleteFile path) InDeleteFile p))"
    and "handle_hunk_headers_and_end_patch p (UPDATE_FILE_MARKER @ path) =
      Inr (Some (push_hunk (UpdateFile path None []) (InUpdateFile (line_number p)) p))"
  using assms
  by (simp_all add: handle_hunk_headers_and_end_patch_def starts_with_def str_simps ensure_closed)

lemma process_header:
  assumes "active_mode (mode (state p))" and "trim line = line" and "trim_end line = line"
    and "handle_hunk_headers_and_end_patch p line = Inr (Some p')"
  shows "process_line p line = Inr p'"
  using assms by (auto simp: process_line_def active_mode_def split: streaming_parser_mode.splits)

lemma marker_trim:
  assumes "name_ok path" and "m \<in> {ADD_FILE_MARKER, DELETE_FILE_MARKER, UPDATE_FILE_MARKER}"
  shows "trim (m @ path) = m @ path" and "trim_end (m @ path) = m @ path"
  using assms by (auto intro!: trim_name simp: str_simps is_whitespace_def)

section \<open>Reading update hunks\<close>

definition updating ::
  "ustr option \<Rightarrow> hunk list \<Rightarrow> ustr \<Rightarrow> ustr option \<Rightarrow> update_file_chunk list \<Rightarrow>
     streaming_patch_parser \<Rightarrow> bool" where
  "updating e hs path mv cs p \<longleftrightarrow> (\<exists>n. mode (state p) = InUpdateFile n) \<and>
     hunks (state p) = hs @ [UpdateFile path mv cs] \<and> environment_id (state p) = e"

lemma updating_line:
  assumes "updating e hs path mv cs p"
    and "\<And>q. handle_hunk_headers_and_end_patch q (trim_end line) = Inr None"
    and "\<And>n. update_body_line n mv cs line = Inr (mv', cs')"
  shows "\<exists>p'. run_lines p [line] = Inr p' \<and> updating e hs path mv' cs' p'"
  using assms
  by (auto simp: updating_def process_line_def process_update_line_def replace_last_hunk_def)

lemma updating_append:
  assumes "\<exists>q. run_lines p xs = Inr q \<and> P q"
    and "\<And>q. P q \<Longrightarrow> \<exists>r. run_lines q ys = Inr r \<and> Q r"
  shows "\<exists>r. run_lines p (xs @ ys) = Inr r \<and> Q r"
  using assms by (auto simp: run_lines_append)

lemma no_header:
  assumes "t = [] \<or> hd t \<noteq> 42"
  shows "handle_hunk_headers_and_end_patch p t = Inr None"
  using assms
  by (cases t) (auto simp: handle_hunk_headers_and_end_patch_def starts_with_def str_simps)

lemma trim_end_Cons:
  "trim_end (c # s) = (if is_whitespace c \<and> trim_end s = [] then [] else c # trim_end s)"
  using trim_end_append [of "[c]" s] trim_end_snoc [of "[]" c] by auto


definition chunk_line :: "ustr \<Rightarrow> update_file_chunk \<Rightarrow> update_file_chunk" where
  "chunk_line l c =
     (if hd l = 32 then push_context_line (tl l) c
      else if hd l = 43 then push_new_line (tl l) c
      else push_old_line (tl l) c)"

definition body_line :: "ustr \<Rightarrow> bool" where
  "body_line l \<longleftrightarrow> l \<noteq> [] \<and> hd l \<in> {32, 43, 45}"

lemma body_line_read:
  assumes "body_line l" and "\<not> is_end_of_file c"
  shows "handle_hunk_headers_and_end_patch q (trim_end l) = Inr None"
    and "update_body_line n mv (cs @ [c]) l = Inr (mv, cs @ [chunk_line l c])"
proof -
  from assms(1) obtain k r where l: "l = k # r" "k \<in> {32, 43, 45}"
    by (cases l) (auto simp: body_line_def)
  then show "handle_hunk_headers_and_end_patch q (trim_end l) = Inr None"
    by (intro no_header) (auto simp: trim_end_Cons)
  from l assms(2) show "update_body_line n mv (cs @ [c]) l = Inr (mv, cs @ [chunk_line l c])"
    by (auto simp: update_body_line_def Let_def trim_end_Cons starts_with_def str_simps
        chunk_line_def update_last_chunk_def is_whitespace_def)
qed

lemma chunk_line_eof [simp]: "is_end_of_file (chunk_line l c) = is_end_of_file c"
  by (simp add: chunk_line_def push_context_line_def push_new_line_def push_old_line_def)

lemma run_body:
  assumes "updating e hs path mv (cs @ [c]) p" and "\<not> is_end_of_file c" and "list_all body_line ls"
  shows "\<exists>p'. run_lines p ls = Inr p' \<and> updating e hs path mv (cs @ [fold chunk_line ls c]) p'"
  using assms
proof (induction ls arbitrary: c p)
  case (Cons l ls)
  have "\<exists>p'. run_lines p ([l] @ ls) = Inr p' \<and>
      updating e hs path mv (cs @ [fold chunk_line ls (chunk_line l c)]) p'"
  proof (rule updating_append)
    show "\<exists>q. run_lines p [l] = Inr q \<and> updating e hs path mv (cs @ [chunk_line l c]) q"
      using Cons.prems body_line_read by (intro updating_line) auto
  qed (use Cons in auto)
  then show ?case by simp
qed simp

lemma print_body_lines: "list_all body_line (print_body old new cs i j)"
  by (induction old new cs i j rule: print_body.induct) (auto simp: list_all_iff body_line_def)

lemma fold_old: "fold chunk_line (map ((#) 45) ls) c = c\<lparr>old_lines := old_lines c @ ls\<rparr>"
  by (induction ls arbitrary: c) (simp_all add: chunk_line_def push_old_line_def)

lemma fold_new: "fold chunk_line (map ((#) 43) ls) c = c\<lparr>new_lines := new_lines c @ ls\<rparr>"
  by (induction ls arbitrary: c) (simp_all add: chunk_line_def push_new_line_def)

lemma take_slice: "i \<le> a \<Longrightarrow> take i xs @ take (a - i) (drop i xs) = take a xs"
  by (metis le_add_diff_inverse take_add)

text \<open>Reading the body of a chunk rebuilds its lines and the indices of its context lines.\<close>

lemma fold_print_body:
  assumes "sorted_wrt context_before cs"
    and "\<forall>(a, b) \<in> set cs. i \<le> a \<and> j \<le> b \<and> a < length old \<and> b < length new \<and> old ! a = new ! b"
    and "old_lines c = take i old" and "new_lines c = take j new"
    and "i \<le> length old" and "j \<le> length new"
  shows "fold chunk_line (print_body old new cs i j) c =
    c\<lparr>old_lines := old, new_lines := new, context_line_indices := context_line_indices c @ cs\<rparr>"
  using assms
proof (induction old new cs i j arbitrary: c rule: print_body.induct)
  case (1 old new i j)
  then show ?case by (simp add: fold_old fold_new)
next
  case (2 old new a b cs i j)
  let ?c = "c\<lparr>context_line_indices := context_line_indices c @ [(a, b)],
    old_lines := take (Suc a) old, new_lines := take (Suc b) new\<rparr>"
  have ab: "i \<le> a" "j \<le> b" "a < length old" "b < length new" "old ! a = new ! b"
    using 2(3) by auto
  have "fold chunk_line (print_body old new ((a, b) # cs) i j) c =
      fold chunk_line (print_body old new cs (Suc a) (Suc b)) ?c"
    using ab 2(4,5)
    by (simp add: fold_old fold_new take_slice chunk_line_def push_context_line_def min_def
        take_Suc_conv_app_nth)
  also have "\<dots> = ?c\<lparr>old_lines := old, new_lines := new,
      context_line_indices := context_line_indices ?c @ cs\<rparr>"
    using 2(2,3) ab by (intro 2(1)) (force simp: context_before_def)+
  finally show ?case by simp
qed

lemma fold_print_chunk:
  assumes "chunk_wf c"
  shows "fold chunk_line (print_body (old_lines c) (new_lines c) (context_line_indices c) 0 0)
      (default_chunk\<lparr>change_context := change_context c\<rparr>) = c\<lparr>is_end_of_file := False\<rparr>"
  using assms by (subst fold_print_body) (auto simp: chunk_wf_def default_chunk_def)


lemma context_header_read:
  assumes "chunk_printable c" and "\<not> last_chunk_blank cs"
    and "h = (case change_context c of None \<Rightarrow> EMPTY_CHANGE_CONTEXT_MARKER
      | Some ctx \<Rightarrow> CHANGE_CONTEXT_MARKER @ ctx)"
  shows "trim_end h = h" and "handle_hunk_headers_and_end_patch q h = Inr None"
    and "update_body_line n mv cs h =
      Inr (mv, cs @ [default_chunk\<lparr>change_context := change_context c\<rparr>])"
proof -
  show trim: "trim_end h = h"
    using assms(1,3) by (auto simp: chunk_printable_def str_simps name_ok_def is_whitespace_def
        intro!: trim_end_eq_self split: option.splits)
  show "handle_hunk_headers_and_end_patch q h = Inr None"
    using assms(3) by (intro no_header) (auto simp: str_simps split: option.splits)
  show "update_body_line n mv cs h =
      Inr (mv, cs @ [default_chunk\<lparr>change_context := change_context c\<rparr>])"
    using assms trim
    by (auto simp: update_body_line_def Let_def starts_with_def str_simps chunk_printable_def
        name_ok_def default_chunk_def split: option.splits)
qed

lemma eof_read:
  assumes "\<not> chunk_is_blank c" and "\<not> is_end_of_file c"
  shows "handle_hunk_headers_and_end_patch q (trim_end EOF_MARKER) = Inr None"
    and "update_body_line n mv (cs @ [c]) EOF_MARKER = Inr (mv, cs @ [c\<lparr>is_end_of_file := True\<rparr>])"
proof -
  have trim: "trim_end EOF_MARKER = EOF_MARKER"
    by (rule trim_end_eq_self) (simp add: str_simps is_whitespace_def)
  show "handle_hunk_headers_and_end_patch q (trim_end EOF_MARKER) = Inr None"
    unfolding trim by (simp add: handle_hunk_headers_and_end_patch_def starts_with_def str_simps)
  show "update_body_line n mv (cs @ [c]) EOF_MARKER = Inr (mv, cs @ [c\<lparr>is_end_of_file := True\<rparr>])"
    using assms
    by (simp add: update_body_line_def Let_def trim starts_with_def last_chunk_blank_def)
      (simp add: str_simps)
qed

lemma run_chunk:
  assumes "updating e hs path mv cs p" and "chunk_printable c" and "\<not> last_chunk_blank cs"
  shows "\<exists>p'. run_lines p (print_chunk c) = Inr p' \<and> updating e hs path mv (cs @ [c]) p'"
proof -
  let ?h = "case change_context c of None \<Rightarrow> EMPTY_CHANGE_CONTEXT_MARKER
      | Some ctx \<Rightarrow> CHANGE_CONTEXT_MARKER @ ctx"
  let ?body = "print_body (old_lines c) (new_lines c) (context_line_indices c) 0 0"
  let ?d = "default_chunk\<lparr>change_context := change_context c\<rparr>"
  have wf: "chunk_wf c" and full: "\<not> chunk_is_blank c"
    using assms(2) by (simp_all add: chunk_printable_def)
  note head = context_header_read [OF assms(2,3) refl]
  have "\<exists>q. run_lines p ([?h] @ ?body) = Inr q \<and>
      updating e hs path mv (cs @ [c\<lparr>is_end_of_file := False\<rparr>]) q"
  proof (rule updating_append)
    show "\<exists>q. run_lines p [?h] = Inr q \<and> updating e hs path mv (cs @ [?d]) q"
      by (rule updating_line [OF assms(1)]) (simp_all only: head)
    show "\<exists>r. run_lines q ?body = Inr r \<and> updating e hs path mv (cs @ [c\<lparr>is_end_of_file := False\<rparr>]) r"
      if "updating e hs path mv (cs @ [?d]) q" for q
      using run_body [OF that _ print_body_lines, of "old_lines c" "new_lines c" "context_line_indices c" 0 0]
        fold_print_chunk [OF wf] by (simp add: default_chunk_def)
  qed
  then have "\<exists>r. run_lines p (([?h] @ ?body) @ (if is_end_of_file c then [EOF_MARKER] else [])) = Inr r \<and>
      updating e hs path mv (cs @ [c]) r"
  proof (rule updating_append)
    fix q assume q: "updating e hs path mv (cs @ [c\<lparr>is_end_of_file := False\<rparr>]) q"
    show "\<exists>r. run_lines q (if is_end_of_file c then [EOF_MARKER] else []) = Inr r \<and>
      updating e hs path mv (cs @ [c]) r"
    proof (cases "is_end_of_file c")
      case True
      then have "c\<lparr>is_end_of_file := False, is_end_of_file := True\<rparr> = c" by simp
      then have "\<And>n. update_body_line n mv (cs @ [c\<lparr>is_end_of_file := False\<rparr>]) EOF_MARKER = Inr (mv, cs @ [c])"
        using eof_read(2) [of "c\<lparr>is_end_of_file := False\<rparr>"] full by (simp add: chunk_is_blank_def)
      with True eof_read(1) [of "c\<lparr>is_end_of_file := False\<rparr>"] full updating_line [OF q] show ?thesis
        by (simp add: chunk_is_blank_def)
    next
      case False
      then have "c\<lparr>is_end_of_file := False\<rparr> = c" by simp
      with False q show ?thesis by simp
    qed
  qed
  then show ?thesis by (simp add: print_chunk_def)
qed


lemma last_chunk_blank_snoc [simp]: "last_chunk_blank (cs @ [c]) = chunk_is_blank c"
  by (simp add: last_chunk_blank_def)

lemma run_chunks:
  assumes "updating e hs path mv cs p" and "list_all chunk_printable ds" and "\<not> last_chunk_blank cs"
  shows "\<exists>p'. run_lines p (concat (map print_chunk ds)) = Inr p' \<and> updating e hs path mv (cs @ ds) p'"
  using assms
proof (induction ds arbitrary: cs p)
  case (Cons d ds)
  have "\<exists>p'. run_lines p (print_chunk d @ concat (map print_chunk ds)) = Inr p' \<and>
      updating e hs path mv ((cs @ [d]) @ ds) p'"
  proof (rule updating_append)
    show "\<exists>q. run_lines p (print_chunk d) = Inr q \<and> updating e hs path mv (cs @ [d]) q"
      using Cons.prems by (intro run_chunk) simp_all
  next
    fix q assume "updating e hs path mv (cs @ [d]) q"
    then show "\<exists>r. run_lines q (concat (map print_chunk ds)) = Inr r \<and>
        updating e hs path mv ((cs @ [d]) @ ds) r"
      using Cons.prems by (intro Cons.IH) (simp_all add: chunk_printable_def)
  qed
  then show ?case by simp
qed simp

lemma move_read:
  assumes "name_ok target"
  shows "handle_hunk_headers_and_end_patch q (trim_end (MOVE_TO_MARKER @ target)) = Inr None"
    and "update_body_line n None [] (MOVE_TO_MARKER @ target) = Inr (Some target, [])"
proof -
  have trim: "trim_end (MOVE_TO_MARKER @ target) = MOVE_TO_MARKER @ target"
    using assms by (intro trim_name) (simp_all add: str_simps is_whitespace_def)
  show "handle_hunk_headers_and_end_patch q (trim_end (MOVE_TO_MARKER @ target)) = Inr None"
    unfolding trim by (simp add: handle_hunk_headers_and_end_patch_def starts_with_def str_simps)
  show "update_body_line n None [] (MOVE_TO_MARKER @ target) = Inr (Some target, [])"
    by (simp add: update_body_line_def Let_def trim starts_with_def)
qed

section \<open>Reading hunks\<close>

definition adding :: "ustr option \<Rightarrow> hunk list \<Rightarrow> ustr \<Rightarrow> ustr \<Rightarrow> streaming_patch_parser \<Rightarrow> bool" where
  "adding e hs path t p \<longleftrightarrow> mode (state p) = InAddFile \<and> hunks (state p) = hs @ [AddFile path t] \<and>
     environment_id (state p) = e"

lemma run_added:
  assumes "adding e hs path t p"
  shows "\<exists>p'. run_lines p (map ((#) 43) ls) = Inr p' \<and> adding e hs path (t @ lf_text ls) p'"
  using assms
proof (induction ls arbitrary: t p)
  case (Cons l ls)
  have "\<exists>p'. run_lines p ([43 # l] @ map ((#) 43) ls) = Inr p' \<and>
      adding e hs path ((t @ l @ [LF]) @ lf_text ls) p'"
  proof (rule updating_append)
    have "handle_hunk_headers_and_end_patch q (trim (43 # l)) = Inr None" for q
      by (rule no_header) (simp add: trim_def trim_start_Cons trim_end_Cons is_whitespace_def)
    then show "\<exists>q. run_lines p [43 # l] = Inr q \<and> adding e hs path (t @ l @ [LF]) q"
      using Cons.prems
      by (auto simp: adding_def process_line_def process_add_line_def replace_last_hunk_def)
  qed (rule Cons.IH)
  then show ?case by (simp add: lf_text_def)
qed (simp add: lf_text_def)

lemma run_header:
  assumes "ready e hs p" and "name_ok path"
  shows "\<exists>q. run_lines p [ADD_FILE_MARKER @ path] = Inr q \<and> adding e hs path [] q"
    and "\<exists>q. run_lines p [DELETE_FILE_MARKER @ path] = Inr q \<and> ready e (hs @ [DeleteFile path]) q"
    and "\<exists>q. run_lines p [UPDATE_FILE_MARKER @ path] = Inr q \<and> updating e hs path None [] q"
proof -
  let ?p = "p\<lparr>line_number := line_number p + 1\<rparr>"
  have active: "active_mode (mode (state ?p))" and closed: "closed_hunks (hunks (state ?p))"
    and hs: "hunks (state p) = hs" and e: "environment_id (state p) = e"
    using assms(1) by (auto simp: ready_def)
  note trims = marker_trim [OF assms(2)]
  show "\<exists>q. run_lines p [ADD_FILE_MARKER @ path] = Inr q \<and> adding e hs path [] q"
    using process_header [OF active trims handle_header(1) [OF closed]] hs e
    by (simp add: adding_def push_hunk_def)
  show "\<exists>q. run_lines p [DELETE_FILE_MARKER @ path] = Inr q \<and> ready e (hs @ [DeleteFile path]) q"
    using process_header [OF active trims handle_header(2) [OF closed]] hs e
    by (simp add: ready_def push_hunk_def active_mode_def closed_hunks_def)
  show "\<exists>q. run_lines p [UPDATE_FILE_MARKER @ path] = Inr q \<and> updating e hs path None [] q"
    using process_header [OF active trims handle_header(3) [OF closed]] hs e
    by (simp add: updating_def push_hunk_def)
qed


lemma run_update:
  assumes "ready e hs p" and "hunk_printable (UpdateFile path move chunks)"
  shows "\<exists>q. run_lines p (print_hunk (UpdateFile path move chunks)) = Inr q \<and>
    ready e (hs @ [UpdateFile path move chunks]) q"
proof -
  let ?move = "case move of None \<Rightarrow> [] | Some target \<Rightarrow> [MOVE_TO_MARKER @ target]"
  from assms(2) have printable: "name_ok path" "list_all chunk_printable chunks" "chunks \<noteq> []"
    by simp_all
  have "\<exists>q. run_lines p ([UPDATE_FILE_MARKER @ path] @ ?move) = Inr q \<and> updating e hs path move [] q"
  proof (rule updating_append)
    show "\<exists>r. run_lines q ?move = Inr r \<and> updating e hs path move [] r"
      if "updating e hs path None [] q" for q
    proof (cases move)
      case (Some target)
      with assms(2) have "name_ok target" by simp
      from move_read [OF this] updating_line [OF that] Some show ?thesis by simp
    qed (use that in simp)
  qed (rule run_header(3) [OF assms(1) printable(1)])
  then have "\<exists>q. run_lines p (([UPDATE_FILE_MARKER @ path] @ ?move) @ concat (map print_chunk chunks)) = Inr q \<and>
      updating e hs path move ([] @ chunks) q"
    by (rule updating_append) (rule run_chunks, simp_all add: printable last_chunk_blank_def)
  moreover have "\<not> last_chunk_blank chunks"
    using printable by (auto simp: last_chunk_blank_def list_all_iff chunk_printable_def)
  ultimately show ?thesis
    using printable(3) by (auto simp: updating_def ready_def active_mode_def closed_hunks_def)
qed

lemma run_hunk:
  assumes "ready e hs p" and "hunk_printable h"
  shows "\<exists>q. run_lines p (print_hunk h) = Inr q \<and> ready e (hs @ [h]) q"
proof (cases h)
  case (AddFile path contents)
  let ?ls = "added_lines contents"
  have ok: "name_ok path" "lf_text ?ls = contents" using assms(2) AddFile by simp_all
  have "\<exists>q. run_lines p ([ADD_FILE_MARKER @ path] @ map ((#) 43) ?ls) = Inr q \<and>
      adding e hs path ([] @ lf_text ?ls) q"
    using run_header(1) [OF assms(1) ok(1)] by (rule updating_append) (rule run_added)
  with AddFile ok show ?thesis
    by (auto simp: adding_def ready_def active_mode_def closed_hunks_def)
next
  case (DeleteFile path)
  with run_header(2) [OF assms(1)] assms(2) show ?thesis by simp
next
  case (UpdateFile path move chunks)
  with run_update [OF assms(1)] assms(2) show ?thesis by blast
qed

lemma run_hunks:
  assumes "ready e hs p" and "list_all hunk_printable ks"
  shows "\<exists>q. run_lines p (concat (map print_hunk ks)) = Inr q \<and> ready e (hs @ ks) q"
  using assms
proof (induction ks arbitrary: hs p)
  case (Cons k ks)
  from Cons.prems have k: "hunk_printable k" and ks: "list_all hunk_printable ks" by simp_all
  have "\<exists>q. run_lines p (print_hunk k @ concat (map print_hunk ks)) = Inr q \<and> ready e ((hs @ [k]) @ ks) q"
    using run_hunk [OF Cons.prems(1) k] by (rule updating_append) (rule Cons.IH [OF _ ks])
  then show ?case by simp
qed simp

lemma run_print_lines:
  assumes "env_printable env" and "list_all hunk_printable hs"
  shows "\<exists>q. run_lines default_parser (print_lines env hs) = Inr q \<and> ready env hs q"
proof -
  let ?env = "case env of None \<Rightarrow> [] | Some e \<Rightarrow> [ENVIRONMENT_ID_MARKER @ 32 # e]"
  let ?started = "\<lambda>p. ready None [] p \<and> mode (state p) = StartedPatch"
  have begin_trim: "trim BEGIN_PATCH_MARKER = BEGIN_PATCH_MARKER"
    by (rule trim_eq_self) (simp add: str_simps is_whitespace_def)
  have "\<exists>q. run_lines default_parser [BEGIN_PATCH_MARKER] = Inr q \<and> ?started q"
    by (simp add: process_line_def default_parser_def begin_trim set_mode_def ready_def
        active_mode_def closed_hunks_def)
  then have "\<exists>q. run_lines default_parser ([BEGIN_PATCH_MARKER] @ ?env) = Inr q \<and> ready env [] q"
  proof (rule updating_append)
    fix p assume p: "?started p"
    show "\<exists>q. run_lines p ?env = Inr q \<and> ready env [] q"
    proof (cases env)
      case (Some e)
      with assms(1) have e: "name_ok e" "\<not> is_whitespace (hd e)" by (simp_all add: env_printable_def)
      then have line: "trim (ENVIRONMENT_ID_MARKER @ 32 # e) = ENVIRONMENT_ID_MARKER @ 32 # e"
        by (intro trim_eq_self) (simp add: name_ok_def str_simps is_whitespace_def)
      have "trim e = e" using e by (intro trim_eq_self) (simp add: name_ok_def)
      then have "trim (32 # e) = e" by (simp add: trim_def trim_start_Cons is_whitespace_def)
      with p e(1) Some line show ?thesis
        by (simp add: process_line_def handle_hunk_headers_and_end_patch_def starts_with_def
            handle_environment_id_def ready_def name_ok_def active_mode_def closed_hunks_def)
    qed (use p in simp)
  qed
  then have "\<exists>q. run_lines default_parser (([BEGIN_PATCH_MARKER] @ ?env) @ concat (map print_hunk hs)) = Inr q \<and>
      ready env ([] @ hs) q"
    by (rule updating_append) (rule run_hunks [OF _ assms(2)])
  then show ?thesis by (simp add: print_lines_def)
qed


section \<open>The whole text\<close>

lemma name_line_ok: "line_ok m \<Longrightarrow> name_ok s \<Longrightarrow> line_ok (m @ s)"
  by (auto simp: line_ok_def name_ok_def is_whitespace_def)

lemma Cons_line_ok: "line_ok l \<Longrightarrow> k \<noteq> LF \<Longrightarrow> k \<noteq> CR \<Longrightarrow> line_ok (k # l)"
  by (auto simp: line_ok_def)

lemma markers_line_ok:
  "line_ok ADD_FILE_MARKER" "line_ok DELETE_FILE_MARKER" "line_ok UPDATE_FILE_MARKER"
  "line_ok MOVE_TO_MARKER" "line_ok CHANGE_CONTEXT_MARKER" "line_ok EMPTY_CHANGE_CONTEXT_MARKER"
  "line_ok EOF_MARKER" "line_ok BEGIN_PATCH_MARKER" "line_ok (ENVIRONMENT_ID_MARKER @ [32])"
  by (simp_all add: line_ok_def str_simps)

lemma print_body_ok:
  assumes "\<forall>l \<in> set old \<union> set new. line_ok l" and "\<forall>(a, b) \<in> set cs. a < length old"
  shows "list_all line_ok (print_body old new cs i j)"
  using assms
  by (induction old new cs i j rule: print_body.induct)
    (auto simp: list_all_iff intro!: Cons_line_ok dest!: in_set_takeD in_set_dropD)

lemma print_chunk_ok: "chunk_printable c \<Longrightarrow> list_all line_ok (print_chunk c)"
  using print_body_ok [of "old_lines c" "new_lines c" "context_line_indices c" 0 0]
  by (auto simp: chunk_printable_def print_chunk_def chunk_wf_def markers_line_ok name_line_ok
      split: option.splits)

lemma print_hunk_ok: "hunk_printable h \<Longrightarrow> list_all line_ok (print_hunk h)"
proof (cases h)
  case (UpdateFile path move chunks)
  assume "hunk_printable h"
  with UpdateFile print_chunk_ok show ?thesis
    by (auto simp: markers_line_ok name_line_ok list_all_iff split: option.splits)
qed (auto simp: markers_line_ok name_line_ok list_all_iff intro!: Cons_line_ok)

lemma print_lines_ok:
  assumes "env_printable env" and "list_all hunk_printable hs"
  shows "list_all line_ok (print_lines env hs)"
  using assms print_hunk_ok name_line_ok [OF markers_line_ok(9)]
  by (fastforce simp: print_lines_def env_printable_def markers_line_ok list_all_iff split: option.splits)

lemma join_lf_text: "join [LF] (xs @ [x]) = lf_text xs @ x"
proof (induction xs)
  case (Cons y ys)
  then show ?case by (cases ys) (simp_all add: lf_text_def)
qed (simp add: lf_text_def)

lemma lines_join:
  assumes "list_all line_ok xs" and "LF \<notin> set x" and "x \<noteq> []"
  shows "lines (join [LF] (xs @ [x])) = xs @ [x]"
proof -
  have "split_on LF (join [LF] (xs @ [x])) = xs @ [x]"
    using assms by (intro split_on_join) (auto simp: list_all_iff line_ok_def)
  moreover have "map drop_cr xs = xs"
    using assms(1) by (intro map_idI drop_cr_no_cr) (auto simp: list_all_iff line_ok_def)
  ultimately show ?thesis using assms(3) by (simp add: lines_def Let_def)
qed

lemma parse_print:
  assumes "env_printable env" and "list_all hunk_printable hs"
  shows "parse_patch_text (print_patch env hs) m =
    Inr \<lparr>args_patch = print_patch env hs, args_hunks = hs, args_workdir = None,
         args_environment_id = env\<rparr>"
proof -
  let ?ls = "print_lines env hs" and ?t = "print_patch env hs"
  obtain q where q: "run_lines default_parser ?ls = Inr q" "ready env hs q"
    using run_print_lines [OF assms] by blast
  have end_mark: "LF \<notin> set END_PATCH_MARKER" "END_PATCH_MARKER \<noteq> []" "trim END_PATCH_MARKER = END_PATCH_MARKER"
    by (simp_all add: str_simps trim_eq_self is_whitespace_def)
  have begin_mark: "trim BEGIN_PATCH_MARKER = BEGIN_PATCH_MARKER"
    by (simp add: str_simps trim_eq_self is_whitespace_def)
  have whole: "?t = lf_text ?ls @ END_PATCH_MARKER"
    by (simp add: print_patch_def join_lf_text)
  then have "trim ?t = ?t"
    by (intro trim_eq_self) (simp add: print_lines_def lf_text_def str_simps is_whitespace_def)
  moreover have lines: "lines ?t = ?ls @ [END_PATCH_MARKER]"
    using print_lines_ok [OF assms] end_mark by (simp add: print_patch_def lines_join)
  moreover have strict: "check_patch_boundaries_strict (?ls @ [END_PATCH_MARKER]) = Inr (?ls @ [END_PATCH_MARKER])"
    by (simp add: check_patch_boundaries_strict_def check_start_and_end_lines_strict_def
        print_lines_def begin_mark end_mark)
  moreover have "try_fold push_char default_parser ?t = (q\<lparr>line_buffer := END_PATCH_MARKER\<rparr>, Inr ())"
    using try_fold_lines [OF _ print_lines_ok [OF assms] q(1)] end_mark(1)
    by (simp add: whole try_fold_append try_fold_line default_parser_def)
  moreover have "finish (q\<lparr>line_buffer := END_PATCH_MARKER\<rparr>) =
      (set_mode EndedPatch (q\<lparr>line_buffer := [], line_number := line_number q + 1\<rparr>), Inr hs)"
    using q(2) end_mark
    by (simp add: finish_def finish_line_def ready_def ensure_closed set_mode_def)
  ultimately show ?thesis
    using q(2)
    by (cases m) (simp_all add: parse_patch_text_def check_patch_boundaries_lenient_def push_delta_def
        set_mode_def ready_def print_patch_def Let_def)
qed

text \<open>C1. The parser reads back every patch the grammar can write: printing well-formed hunks, with
  an optional environment id, and parsing the text in either mode yields exactly those hunks, their
  moves, contexts, end-of-file flags and context indices included.\<close>

theorem parse_print_patch:
  assumes "env_printable env" and "list_all hunk_printable hs"
  shows "parse_patch_text (print_patch env hs) m =
    Inr \<lparr>args_patch = print_patch env hs, args_hunks = hs, args_workdir = None,
         args_environment_id = env\<rparr>"
  using assms by (rule parse_print)

end
