(* ===== verification/Turn_Diff.thy ===== *)
theory Turn_Diff
  imports Patch_Delta "HOL-Library.AList" "HOL-Library.List_Lexorder"
begin

text \<open>
  \<^verbatim>\<open>codex-rs/core/src/turn_diff_tracker.rs\<close>: the net diff of a turn, accumulated from committed
  changes without reading files again. A \<^verbatim>\<open>HashMap\<close> is an association list with the
  operations of \<^verbatim>\<open>HOL-Library.AList\<close>; the order of the list stands for the unspecified order of
  iteration. Path display, the line differ (the crate \<^verbatim>\<open>similar\<close>) and the Git object id (the crate
  \<^verbatim>\<open>sha1\<close>) are parameters, in the record \<open>diff_services\<close>.
\<close>

section \<open>Data\<close>

type_synonym 'p tracked_path = "ustr \<times> 'p"

record tracked_content =
  content :: ustr
  revision :: nat

record 'p diff_cache_key =
  left_path :: "'p tracked_path"
  left_revision :: "nat option"
  right_path :: "'p tracked_path"
  right_revision :: "nat option"

record 'p turn_diff_tracker =
  valid :: bool
  display_roots_by_environment :: "(ustr \<times> 'p) list"
  baseline_by_path :: "('p tracked_path \<times> tracked_content) list"
  current_by_path :: "('p tracked_path \<times> tracked_content) list"
  origin_by_current_path :: "('p tracked_path \<times> 'p tracked_path) list"
  next_revision :: nat
  rendered_diffs :: "('p diff_cache_key \<times> ustr option) list"
  unified_diff :: "ustr option"

record 'p diff_services =
  relative_path_from :: "'p \<Rightarrow> 'p \<Rightarrow> ustr option"
  native_path_string :: "'p \<Rightarrow> ustr"
  diff_lines :: "ustr \<Rightarrow> ustr \<Rightarrow> ustr \<Rightarrow> ustr \<Rightarrow> ustr"
  git_blob_oid :: "ustr \<Rightarrow> ustr"

definition tracker_default :: "'p turn_diff_tracker" where
  "tracker_default =
     \<lparr>valid = True, display_roots_by_environment = [], baseline_by_path = [], current_by_path = [],
      origin_by_current_path = [], next_revision = 0, rendered_diffs = [], unified_diff = None\<rparr>"

definition with_environment_display_roots :: "(ustr \<times> 'p) list \<Rightarrow> 'p turn_diff_tracker" where
  "with_environment_display_roots roots =
     tracker_default\<lparr>display_roots_by_environment := fold (\<lambda>(e, r). AList.update e r) roots []\<rparr>"

definition contains_key :: "('k \<times> 'v) list \<Rightarrow> 'k \<Rightarrow> bool" where
  "contains_key m k \<longleftrightarrow> map_of m k \<noteq> None"

section \<open>Applying changes\<close>

definition tracked_content_of :: "ustr \<Rightarrow> 'p turn_diff_tracker \<Rightarrow> tracked_content \<times> 'p turn_diff_tracker" where
  "tracked_content_of text t =
     (\<lparr>content = text, revision = next_revision t\<rparr>, t\<lparr>next_revision := next_revision t + 1\<rparr>)"

definition insert_baseline :: "'p tracked_path \<Rightarrow> ustr \<Rightarrow> 'p turn_diff_tracker \<Rightarrow> 'p turn_diff_tracker" where
  "insert_baseline path text t =
     (let (c, t') = tracked_content_of text t
      in t'\<lparr>baseline_by_path := AList.update path c (baseline_by_path t')\<rparr>)"

definition insert_current :: "'p tracked_path \<Rightarrow> ustr \<Rightarrow> 'p turn_diff_tracker \<Rightarrow> 'p turn_diff_tracker" where
  "insert_current path text t =
     (let (c, t') = tracked_content_of text t
      in t'\<lparr>current_by_path := AList.update path c (current_by_path t')\<rparr>)"

definition untracked :: "'p turn_diff_tracker \<Rightarrow> 'p tracked_path \<Rightarrow> bool" where
  "untracked t path \<longleftrightarrow>
     \<not> contains_key (current_by_path t) path \<and> \<not> contains_key (baseline_by_path t) path"

definition remove_origin :: "'p tracked_path \<Rightarrow> 'p turn_diff_tracker \<Rightarrow> 'p turn_diff_tracker" where
  "remove_origin path t =
     t\<lparr>origin_by_current_path := AList.delete path (origin_by_current_path t)\<rparr>"

definition remove_current :: "'p tracked_path \<Rightarrow> 'p turn_diff_tracker \<Rightarrow> 'p turn_diff_tracker" where
  "remove_current path t = t\<lparr>current_by_path := AList.delete path (current_by_path t)\<rparr>"

definition note_overwritten ::
  "'p tracked_path \<Rightarrow> ustr option \<Rightarrow> 'p turn_diff_tracker \<Rightarrow> 'p turn_diff_tracker" where
  "note_overwritten path overwritten t =
     (case overwritten of
        Some text \<Rightarrow> if untracked t path then insert_baseline path text t else t
      | None \<Rightarrow> t)"

definition tracker_apply_add ::
  "'p tracked_path \<Rightarrow> ustr \<Rightarrow> ustr option \<Rightarrow> 'p turn_diff_tracker \<Rightarrow> 'p turn_diff_tracker" where
  "tracker_apply_add path text overwritten t =
     insert_current path text (note_overwritten path overwritten (remove_origin path t))"

definition tracker_apply_delete ::
  "'p tracked_path \<Rightarrow> ustr \<Rightarrow> 'p turn_diff_tracker \<Rightarrow> 'p turn_diff_tracker" where
  "tracker_apply_delete path text t =
     (let was_current = contains_key (current_by_path t) path;
          t1 = remove_current path t;
          t2 = (if \<not> was_current \<and> \<not> contains_key (baseline_by_path t1) path
                then insert_baseline path text t1 else t1)
      in remove_origin path t2)"

definition tracker_apply_update ::
  "'p tracked_path \<Rightarrow> 'p tracked_path option \<Rightarrow> ustr \<Rightarrow> ustr option \<Rightarrow> ustr \<Rightarrow>
     'p turn_diff_tracker \<Rightarrow> 'p turn_diff_tracker" where
  "tracker_apply_update source_path move_path old_content overwritten new_content t =
     (let t1 = (if untracked t source_path then insert_baseline source_path old_content t else t)
      in case move_path of
           Some dest_path \<Rightarrow>
             (let t2 = note_overwritten dest_path overwritten t1;
                  origin = (case map_of (origin_by_current_path t2) source_path of
                              Some path \<Rightarrow> path | None \<Rightarrow> source_path);
                  t3 = remove_current source_path (remove_origin source_path t2);
                  t4 = remove_origin dest_path (insert_current dest_path new_content t3)
              in if dest_path \<noteq> origin
                 then t4\<lparr>origin_by_current_path := AList.update dest_path origin (origin_by_current_path t4)\<rparr>
                 else t4)
         | None \<Rightarrow> insert_current source_path new_content t1)"

fun tracker_apply_change ::
  "ustr \<Rightarrow> 'p applied_patch_change \<Rightarrow> 'p turn_diff_tracker \<Rightarrow> 'p turn_diff_tracker" where
  "tracker_apply_change env (path, ChangeAdd text overwritten) t =
     tracker_apply_add (env, path) text overwritten t"
| "tracker_apply_change env (path, ChangeDelete text) t = tracker_apply_delete (env, path) text t"
| "tracker_apply_change env (path, ChangeUpdate move_path old overwritten new) t =
     tracker_apply_update (env, path) (map_option (Pair env) move_path) old overwritten new t"


section \<open>Rendering\<close>

definition ZERO_OID :: ustr where "ZERO_OID = replicate 40 48"
definition DEV_NULL :: ustr where "DEV_NULL = str ''/dev/null''"
definition REGULAR_FILE_MODE :: ustr where "REGULAR_FILE_MODE = str ''100644''"

definition display_path :: "'p diff_services \<Rightarrow> 'p turn_diff_tracker \<Rightarrow> 'p tracked_path \<Rightarrow> ustr" where
  "display_path D t path =
     (let display =
        (case Option.bind (map_of (display_roots_by_environment t) (fst path))
                (relative_path_from D (snd path)) of
           Some shown \<Rightarrow> shown
         | None \<Rightarrow> native_path_string D (snd path))
      in if 1 < length (display_roots_by_environment t) \<and> fst path \<noteq> []
         then fst path @ [47] @ display else display)"

definition rename_pairs :: "'p turn_diff_tracker \<Rightarrow> ('p tracked_path \<times> 'p tracked_path) list" where
  "rename_pairs t =
     fold (\<lambda>(dest_path, origin_path). AList.update origin_path dest_path)
       (filter (\<lambda>(dest_path, origin_path).
          \<not> (dest_path = origin_path
             \<or> contains_key (current_by_path t) origin_path
             \<or> \<not> contains_key (current_by_path t) dest_path
             \<or> \<not> contains_key (baseline_by_path t) origin_path
             \<or> contains_key (baseline_by_path t) dest_path))
         (origin_by_current_path t)) []"

definition slashed :: "ustr \<Rightarrow> ustr" where
  "slashed s = map (\<lambda>c. if c = 92 then 47 else c) s"

definition render_diff ::
  "'p diff_services \<Rightarrow> 'p turn_diff_tracker \<Rightarrow> 'p tracked_path \<Rightarrow> ustr option \<Rightarrow>
     'p tracked_path \<Rightarrow> ustr option \<Rightarrow> ustr option" where
  "render_diff D t lpath lcontent rpath rcontent =
     (if lcontent = rcontent then None
      else
        let left_display = slashed (display_path D t lpath);
            right_display = slashed (display_path D t rpath);
            left_oid = (case lcontent of None \<Rightarrow> ZERO_OID | Some c \<Rightarrow> git_blob_oid D c);
            right_oid = (case rcontent of None \<Rightarrow> ZERO_OID | Some c \<Rightarrow> git_blob_oid D c);
            mode_line =
              (case (lcontent, rcontent) of
                 (None, Some _) \<Rightarrow> str ''new file mode '' @ REGULAR_FILE_MODE @ [LF]
               | (Some _, None) \<Rightarrow> str ''deleted file mode '' @ REGULAR_FILE_MODE @ [LF]
               | _ \<Rightarrow> []);
            old_header = (if lcontent \<noteq> None then str ''a/'' @ left_display else DEV_NULL);
            new_header = (if rcontent \<noteq> None then str ''b/'' @ right_display else DEV_NULL)
        in Some
             (str ''diff --git a/'' @ left_display @ str '' b/'' @ right_display @ [LF] @ mode_line @
              str ''index '' @ left_oid @ str ''..'' @ right_oid @ [LF] @
              diff_lines D (case lcontent of None \<Rightarrow> [] | Some c \<Rightarrow> c)
                (case rcontent of None \<Rightarrow> [] | Some c \<Rightarrow> c) old_header new_header))"

definition cache_key ::
  "'p turn_diff_tracker \<Rightarrow> 'p tracked_path \<Rightarrow> 'p tracked_path \<Rightarrow> 'p diff_cache_key" where
  "cache_key t lpath rpath =
     \<lparr>left_path = lpath,
      left_revision = map_option revision (map_of (baseline_by_path t) lpath),
      right_path = rpath,
      right_revision = map_option revision (map_of (current_by_path t) rpath)\<rparr>"

definition render_pair ::
  "'p diff_services \<Rightarrow> 'p turn_diff_tracker \<Rightarrow> 'p tracked_path \<Rightarrow> 'p tracked_path \<Rightarrow> ustr option" where
  "render_pair D t lpath rpath =
     render_diff D t lpath (map_option content (map_of (baseline_by_path t) lpath))
       rpath (map_option content (map_of (current_by_path t) rpath))"

definition append_diff :: "ustr \<Rightarrow> ustr option \<Rightarrow> ustr" where
  "append_diff aggregated rendered =
     (case rendered of
        None \<Rightarrow> aggregated
      | Some diff \<Rightarrow>
          let text = aggregated @ diff in if ends_with [LF] text then text else text @ [LF])"

fun refresh_loop ::
  "'p diff_services \<Rightarrow> 'p turn_diff_tracker \<Rightarrow> ('p tracked_path \<times> 'p tracked_path) list \<Rightarrow>
     'p tracked_path list \<Rightarrow> 'p tracked_path list \<Rightarrow> ('p diff_cache_key \<times> ustr option) list \<Rightarrow>
     ('p diff_cache_key \<times> ustr option) list \<Rightarrow> ustr \<Rightarrow>
     ('p diff_cache_key \<times> ustr option) list \<times> ustr" where
  "refresh_loop D t pairs [] handled previous rendered aggregated = (rendered, aggregated)"
| "refresh_loop D t pairs (path # paths) handled previous rendered aggregated =
     (if path \<in> set handled then
        refresh_loop D t pairs paths handled previous rendered aggregated
      else if path \<in> snd ` set pairs then
        refresh_loop D t pairs paths (path # handled) previous rendered aggregated
      else
        let rpath = (case map_of pairs path of Some dest \<Rightarrow> dest | None \<Rightarrow> path);
            handled' = (case map_of pairs path of
                          Some dest \<Rightarrow> dest # path # handled | None \<Rightarrow> path # handled);
            key = cache_key t path rpath;
            diff = (case map_of previous key of
                      Some cached \<Rightarrow> cached | None \<Rightarrow> render_pair D t path rpath)
        in refresh_loop D t pairs paths handled' (AList.delete key previous)
             (AList.update key diff rendered) (append_diff aggregated diff))"

definition sorted_paths :: "'p diff_services \<Rightarrow> 'p turn_diff_tracker \<Rightarrow> 'p tracked_path list" where
  "sorted_paths D t =
     remdups_adj (sort_key (display_path D t)
       (map fst (baseline_by_path t) @ map fst (current_by_path t)))"

definition refresh_unified_diff :: "'p diff_services \<Rightarrow> 'p turn_diff_tracker \<Rightarrow> 'p turn_diff_tracker" where
  "refresh_unified_diff D t =
     (let (rendered, aggregated) =
        refresh_loop D t (rename_pairs t) (sorted_paths D t) [] (rendered_diffs t) [] []
      in t\<lparr>rendered_diffs := rendered,
           unified_diff := (if aggregated = [] then None else Some aggregated)\<rparr>)"

definition invalidate :: "'p turn_diff_tracker \<Rightarrow> 'p turn_diff_tracker" where
  "invalidate t = t\<lparr>valid := False, rendered_diffs := [], unified_diff := None\<rparr>"

definition track_delta ::
  "'p diff_services \<Rightarrow> ustr \<Rightarrow> 'p applied_patch_delta \<Rightarrow> 'p turn_diff_tracker \<Rightarrow> 'p turn_diff_tracker" where
  "track_delta D env delta t =
     (if \<not> valid t then t
      else if \<not> exact delta then invalidate t
      else refresh_unified_diff D (fold (tracker_apply_change env) (changes delta) t))"

section \<open>Contents\<close>

declare split_paired_All [simp del] split_paired_Ex [simp del]

text \<open>The texts the tracker holds for a path: at the start of the turn and now.\<close>

definition baseline_text :: "'p turn_diff_tracker \<Rightarrow> 'p tracked_path \<Rightarrow> ustr option" where
  "baseline_text t path = map_option content (map_of (baseline_by_path t) path)"

definition current_text :: "'p turn_diff_tracker \<Rightarrow> 'p tracked_path \<Rightarrow> ustr option" where
  "current_text t path = map_option content (map_of (current_by_path t) path)"

lemma text_simps [simp]:
  "baseline_text (insert_baseline path text t) = (baseline_text t)(path := Some text)"
  "current_text (insert_baseline path text t) = current_text t"
  "baseline_text (insert_current path text t) = baseline_text t"
  "current_text (insert_current path text t) = (current_text t)(path := Some text)"
  "baseline_text (remove_origin path t) = baseline_text t"
  "current_text (remove_origin path t) = current_text t"
  "baseline_text (remove_current path t) = baseline_text t"
  "current_text (remove_current path t) = (current_text t)(path := None)"
  "baseline_text (t\<lparr>origin_by_current_path := os\<rparr>) = baseline_text t"
  "current_text (t\<lparr>origin_by_current_path := os\<rparr>) = current_text t"
  by (auto simp: baseline_text_def current_text_def insert_baseline_def insert_current_def
      remove_origin_def remove_current_def tracked_content_of_def update_conv' delete_conv')

lemma contains_key_text [simp]:
  "contains_key (current_by_path t) path \<longleftrightarrow> current_text t path \<noteq> None"
  "contains_key (baseline_by_path t) path \<longleftrightarrow> baseline_text t path \<noteq> None"
  by (auto simp: contains_key_def baseline_text_def current_text_def)

text \<open>The tracker describes the way from the texts \<open>v0\<close> to the texts \<open>v\<close>: a path it knows has both
  texts, a path it does not know has not changed.\<close>

definition text_tracked :: "ustr option \<Rightarrow> ustr option \<Rightarrow> ustr option \<Rightarrow> ustr option \<Rightarrow> bool" where
  "text_tracked baseline current x0 x \<longleftrightarrow>
     (if baseline = None \<and> current = None then x = x0 else baseline = x0 \<and> current = x)"

definition tracks ::
  "('p tracked_path \<Rightarrow> ustr option) \<Rightarrow> ('p tracked_path \<Rightarrow> ustr option) \<Rightarrow> 'p turn_diff_tracker \<Rightarrow> bool" where
  "tracks v0 v t \<longleftrightarrow>
     (\<forall>path. text_tracked (baseline_text t path) (current_text t path) (v0 path) (v path))"

lemma tracksD: "tracks v0 v t \<Longrightarrow> text_tracked (baseline_text t path) (current_text t path) (v0 path) (v path)"
  by (simp add: tracks_def)

text \<open>A change of an environment as a change of tracked paths.\<close>

fun lift_change :: "ustr \<Rightarrow> 'p applied_patch_change \<Rightarrow> 'p tracked_path applied_patch_change" where
  "lift_change env (path, change) = ((env, path), map_applied_patch_file_change (Pair env) change)"

text \<open>While a change is applied, the paths in \<open>X\<close> are settled only in their text at the start.\<close>

definition tracks_except ::
  "'p tracked_path set \<Rightarrow> ('p tracked_path \<Rightarrow> ustr option) \<Rightarrow> ('p tracked_path \<Rightarrow> ustr option) \<Rightarrow>
     'p turn_diff_tracker \<Rightarrow> bool" where
  "tracks_except X v0 v t \<longleftrightarrow> (\<forall>path.
     if path \<in> X then baseline_text t path = v0 path
     else text_tracked (baseline_text t path) (current_text t path) (v0 path) (v path))"

lemma tracks_except_empty [simp]: "tracks_except {} v0 v t = tracks v0 v t"
  by (simp add: tracks_except_def tracks_def)

lemma note_overwritten_tracks:
  assumes "tracks_except X v0 v t" and "path \<notin> X" and "v path = overwritten"
  shows "tracks_except (insert path X) v0 v (note_overwritten path overwritten t)"
proof -
  have here: "text_tracked (baseline_text t path) (current_text t path) (v0 path) (v path)"
    using assms(1,2) by (auto simp: tracks_except_def)
  show ?thesis
    unfolding tracks_except_def
  proof
    fix q
    show "if q \<in> insert path X then baseline_text (note_overwritten path overwritten t) q = v0 q
      else text_tracked (baseline_text (note_overwritten path overwritten t) q)
        (current_text (note_overwritten path overwritten t) q) (v0 q) (v q)"
      using assms here spec [OF assms(1) [unfolded tracks_except_def], of q]
      by (cases "q = path")
        (auto simp: note_overwritten_def untracked_def text_tracked_def split: option.splits if_splits)
  qed
qed

lemma note_source_tracks:
  assumes "tracks_except X v0 v t" and "path \<notin> X" and "v path = Some old"
  shows "tracks_except (insert path X) v0 v (if untracked t path then insert_baseline path old t else t)"
  using note_overwritten_tracks [OF assms] by (simp add: note_overwritten_def)

lemma insert_current_tracks:
  assumes "tracks_except (insert path X) v0 v t" and "path \<notin> X"
  shows "tracks_except X v0 (v(path := Some new)) (insert_current path new t)"
  unfolding tracks_except_def
proof
  fix q
  show "if q \<in> X then baseline_text (insert_current path new t) q = v0 q
    else text_tracked (baseline_text (insert_current path new t) q)
      (current_text (insert_current path new t) q) (v0 q) ((v(path := Some new)) q)"
    using assms(2) spec [OF assms(1) [unfolded tracks_except_def], of q]
    by (auto simp: text_tracked_def)
qed

lemma remove_current_tracks:
  assumes "tracks_except (insert path X) v0 v t" and "path \<notin> X"
  shows "tracks_except X v0 (v(path := None)) (remove_current path t)"
  unfolding tracks_except_def
proof
  fix q
  show "if q \<in> X then baseline_text (remove_current path t) q = v0 q
    else text_tracked (baseline_text (remove_current path t) q)
      (current_text (remove_current path t) q) (v0 q) ((v(path := None)) q)"
    using assms(2) spec [OF assms(1) [unfolded tracks_except_def], of q]
    by (auto simp: text_tracked_def)
qed

lemma origin_tracks [simp]:
  "tracks_except X v0 v (remove_origin path t) = tracks_except X v0 v t"
  "tracks_except X v0 v (t\<lparr>origin_by_current_path := os\<rparr>) = tracks_except X v0 v t"
  by (simp_all add: tracks_except_def)

lemma tracker_apply_delete_eq:
  "tracker_apply_delete path text t =
     remove_origin path (remove_current path
       (if untracked t path then insert_baseline path text t else t))"
  by (cases t) (simp add: tracker_apply_delete_def Let_def untracked_def remove_current_def
      insert_baseline_def tracked_content_of_def contains_key_def)

lemma tracker_apply_update_tracks:
  assumes "tracks v0 v t" and "v p = Some old" and "p \<noteq> d" and "v d = over"
  shows "tracks v0 (v(p := None, d := Some new)) (tracker_apply_update p (Some d) old over new t)"
proof -
  let ?t1 = "if untracked t p then insert_baseline p old t else t"
  let ?t2 = "note_overwritten d over ?t1"
  have "tracks_except {p} v0 v ?t1"
    by (rule note_source_tracks) (use assms(1,2) in simp_all)
  then have "tracks_except {p, d} v0 v ?t2"
    using note_overwritten_tracks [of "{p}" v0 v ?t1 d] assms(3,4) by (simp add: insert_commute)
  then have "tracks_except {d} v0 (v(p := None)) (remove_current p (remove_origin p ?t2))"
    using assms(3) by (intro remove_current_tracks) simp_all
  then have "tracks_except {} v0 (v(p := None, d := Some new))
      (insert_current d new (remove_current p (remove_origin p ?t2)))"
    by (rule insert_current_tracks) simp
  then have "tracks_except {} v0 (v(p := None, d := Some new))
      (tracker_apply_update p (Some d) old over new t)"
    by (simp add: tracker_apply_update_def Let_def del: tracks_except_empty)
  then show ?thesis by simp
qed

lemma tracker_apply_change_tracks:
  assumes "tracks v0 v t" and "change_matches v (lift_change env c)"
  shows "tracks v0 (replay_change v (lift_change env c)) (tracker_apply_change env c t)"
proof -
  obtain p ch where c: "c = (p, ch)" by (cases c)
  let ?p = "(env, p)"
  have start: "tracks_except {} v0 v t" using assms(1) by simp
  show ?thesis
  proof (cases ch)
    case (ChangeAdd tx over)
    have "tracks_except {?p} v0 v (note_overwritten ?p over (remove_origin ?p t))"
      using start assms(2) c ChangeAdd by (intro note_overwritten_tracks) simp_all
    from insert_current_tracks [OF this] c ChangeAdd show ?thesis
      by (simp add: tracker_apply_add_def)
  next
    case (ChangeDelete tx)
    with assms(2) c have "v ?p = Some tx" by simp
    from remove_current_tracks [OF note_source_tracks [OF start _ this]] c ChangeDelete show ?thesis
      by (simp add: tracker_apply_delete_eq flip: tracks_except_empty)
  next
    case (ChangeUpdate mv old over new)
    have old: "v ?p = Some old" using assms(2) c ChangeUpdate by (cases mv) auto
    show ?thesis
    proof (cases mv)
      case None
      from insert_current_tracks [OF note_source_tracks [OF start _ old]] c ChangeUpdate None
      show ?thesis by (simp add: tracker_apply_update_def Let_def)
    next
      case (Some d)
      with tracker_apply_update_tracks [OF assms(1) old] assms(2) c ChangeUpdate show ?thesis
        by simp
    qed
  qed
qed


lemma tracker_apply_changes_tracks:
  assumes "tracks v0 v t" and "replays v (map (lift_change env) cs) v'"
  shows "tracks v0 v' (fold (tracker_apply_change env) cs t)"
  using assms
proof (induction cs arbitrary: v t)
  case (Cons c cs)
  then show ?case
    using tracker_apply_change_tracks [of v0 v t env c] by auto
qed simp

lemma refresh_fields [simp]:
  "baseline_by_path (refresh_unified_diff D t) = baseline_by_path t"
  "current_by_path (refresh_unified_diff D t) = current_by_path t"
  "next_revision (refresh_unified_diff D t) = next_revision t"
  "display_roots_by_environment (refresh_unified_diff D t) = display_roots_by_environment t"
  "valid (refresh_unified_diff D t) = valid t"
  by (simp_all add: refresh_unified_diff_def split: prod.splits)

lemma refresh_tracks [simp]: "tracks v0 v (refresh_unified_diff D t) = tracks v0 v t"
  by (simp add: tracks_def baseline_text_def current_text_def)

text \<open>The tracker follows the files: when an exact record of changes leads from the texts \<open>v\<close> to
  the texts \<open>v'\<close>, a tracker that describes the way from the texts \<open>v0\<close> at the start of the turn to
  \<open>v\<close> describes the way from \<open>v0\<close> to \<open>v'\<close> afterwards.\<close>

theorem track_delta_tracks:
  assumes "valid t" and "exact delta" and "tracks v0 v t"
    and "replays v (map (lift_change env) (changes delta)) v'"
  shows "tracks v0 v' (track_delta D env delta t)"
  using assms tracker_apply_changes_tracks by (simp add: track_delta_def)

section \<open>The cache of rendered diffs\<close>

text \<open>\<open>g\<close> gives the text of every revision handed out so far.\<close>

definition revisions_ok :: "(nat \<Rightarrow> ustr) \<Rightarrow> 'p turn_diff_tracker \<Rightarrow> bool" where
  "revisions_ok g t \<longleftrightarrow> (\<forall>p c. map_of (baseline_by_path t) p = Some c \<or> map_of (current_by_path t) p = Some c \<longrightarrow>
     revision c < next_revision t \<and> content c = g (revision c))"

definition entry_ok ::
  "'p diff_services \<Rightarrow> (nat \<Rightarrow> ustr) \<Rightarrow> 'p turn_diff_tracker \<Rightarrow> 'p diff_cache_key \<Rightarrow> ustr option \<Rightarrow> bool" where
  "entry_ok D g t k r \<longleftrightarrow>
     (\<forall>n. left_revision k = Some n \<or> right_revision k = Some n \<longrightarrow> n < next_revision t) \<and>
     r = render_diff D t (left_path k) (map_option g (left_revision k))
       (right_path k) (map_option g (right_revision k))"

definition cache_ok :: "'p diff_services \<Rightarrow> 'p turn_diff_tracker \<Rightarrow> bool" where
  "cache_ok D t \<longleftrightarrow> (\<exists>g. revisions_ok g t \<and>
     (\<forall>k r. map_of (rendered_diffs t) k = Some r \<longrightarrow> entry_ok D g t k r))"

lemma display_path_cong:
  "display_roots_by_environment t = display_roots_by_environment u \<Longrightarrow> display_path D t = display_path D u"
  by (simp add: display_path_def fun_eq_iff)

lemma render_diff_cong:
  "display_roots_by_environment t = display_roots_by_environment u \<Longrightarrow> render_diff D t = render_diff D u"
  using display_path_cong [of t u D] by (simp add: render_diff_def fun_eq_iff)

lemma cache_ok_extend:
  assumes "cache_ok D t" and "rendered_diffs t' = rendered_diffs t"
    and "display_roots_by_environment t' = display_roots_by_environment t"
    and "next_revision t' = Suc (next_revision t)"
    and "\<And>p c. map_of (baseline_by_path t') p = Some c \<or> map_of (current_by_path t') p = Some c \<Longrightarrow>
      c = \<lparr>content = x, revision = next_revision t\<rparr> \<or>
      map_of (baseline_by_path t) p = Some c \<or> map_of (current_by_path t) p = Some c"
  shows "cache_ok D t'"
proof -
  obtain g where g: "revisions_ok g t"
    "\<And>k r. map_of (rendered_diffs t) k = Some r \<Longrightarrow> entry_ok D g t k r"
    using assms(1) by (auto simp: cache_ok_def)
  let ?g = "g(next_revision t := x)"
  have "revisions_ok ?g t'"
    using g(1) assms(4,5) by (fastforce simp: revisions_ok_def less_Suc_eq)
  moreover have "entry_ok D ?g t' k r" if "map_of (rendered_diffs t') k = Some r" for k r
  proof -
    have ok: "entry_ok D g t k r" using g(2) that assms(2) by simp
    then have "map_option ?g (left_revision k) = map_option g (left_revision k)"
      "map_option ?g (right_revision k) = map_option g (right_revision k)"
      by (auto simp: entry_ok_def map_option_case split: option.splits)
    with ok render_diff_cong [OF assms(3), of D] assms(4) show ?thesis
      by (auto simp: entry_ok_def less_Suc_eq)
  qed
  ultimately show ?thesis by (auto simp: cache_ok_def)
qed

lemma cache_ok_shrink:
  assumes "cache_ok D t" and "rendered_diffs t' = rendered_diffs t"
    and "display_roots_by_environment t' = display_roots_by_environment t"
    and "next_revision t' = next_revision t" and "baseline_by_path t' = baseline_by_path t"
    and "\<And>p c. map_of (current_by_path t') p = Some c \<Longrightarrow> map_of (current_by_path t) p = Some c"
  shows "cache_ok D t'"
  using assms render_diff_cong [OF assms(3), of D]
  unfolding cache_ok_def revisions_ok_def entry_ok_def by (simp only:) blast

lemma cache_ok_primitives:
  assumes "cache_ok D t"
  shows "cache_ok D (insert_baseline p x t)" and "cache_ok D (insert_current p x t)"
    and "cache_ok D (remove_current p t)" and "cache_ok D (remove_origin p t)"
    and "cache_ok D (t\<lparr>origin_by_current_path := os\<rparr>)"
proof -
  show "cache_ok D (insert_baseline p x t)" "cache_ok D (insert_current p x t)"
    by (rule cache_ok_extend [OF assms, where x = x];
        auto simp: insert_baseline_def insert_current_def tracked_content_of_def update_conv'
          split: if_splits)+
  show "cache_ok D (remove_current p t)"
    by (rule cache_ok_shrink [OF assms])
      (simp_all add: remove_current_def delete_conv' split: if_splits)
  show "cache_ok D (remove_origin p t)"
    by (rule cache_ok_shrink [OF assms]) (simp_all add: remove_origin_def)
  show "cache_ok D (t\<lparr>origin_by_current_path := os\<rparr>)"
    by (rule cache_ok_shrink [OF assms]) simp_all
qed

lemma cache_ok_note: "cache_ok D t \<Longrightarrow> cache_ok D (note_overwritten p x t)"
  by (simp add: note_overwritten_def cache_ok_primitives split: option.split)

lemma cache_ok_update: "cache_ok D t \<Longrightarrow> cache_ok D (tracker_apply_update p mv old x new t)"
  by (cases mv)
    (simp_all add: tracker_apply_update_def Let_def cache_ok_primitives cache_ok_note)

lemma cache_ok_change:
  assumes "cache_ok D t"
  shows "cache_ok D (tracker_apply_change env c t)"
proof -
  obtain p ch where c: "c = (p, ch)" by (cases c)
  show ?thesis
    unfolding c
    by (cases ch)
      (simp_all add: assms tracker_apply_add_def tracker_apply_delete_eq cache_ok_primitives
        cache_ok_note cache_ok_update)
qed

lemma cache_ok_changes: "cache_ok D t \<Longrightarrow> cache_ok D (fold (tracker_apply_change env) cs t)"
  by (induction cs arbitrary: t) (simp_all add: cache_ok_change)

lemma entry_ok_pair:
  assumes "revisions_ok g t"
  shows "entry_ok D g t (cache_key t l r) x \<longleftrightarrow> x = render_pair D t l r"
proof -
  have "map_option g (map_option revision (map_of (baseline_by_path t) l)) =
      map_option content (map_of (baseline_by_path t) l)"
    "map_option g (map_option revision (map_of (current_by_path t) r)) =
      map_option content (map_of (current_by_path t) r)"
    using assms by (auto simp: revisions_ok_def map_option_case split: option.splits)
  then show ?thesis
    using assms by (auto simp: entry_ok_def cache_key_def render_pair_def revisions_ok_def)
qed

text \<open>With a sound cache the loop computes what it computes with an empty one, and its new cache is
  sound.\<close>

lemma refresh_loop_uncached:
  assumes "revisions_ok g t" and "\<And>k r. map_of previous k = Some r \<Longrightarrow> entry_ok D g t k r"
  shows "refresh_loop D t pairs paths handled previous rendered aggregated =
    refresh_loop D t pairs paths handled [] rendered aggregated"
  using assms(2)
proof (induction paths arbitrary: handled previous rendered aggregated)
  case (Cons path paths)
  let ?r = "case map_of pairs path of Some dest \<Rightarrow> dest | None \<Rightarrow> path"
  have "(case map_of previous (cache_key t path ?r) of Some cached \<Rightarrow> cached
      | None \<Rightarrow> render_pair D t path ?r) = render_pair D t path ?r"
    using Cons.prems [of "cache_key t path ?r"] by (simp add: entry_ok_pair [OF assms(1)] split: option.split)
  moreover have "\<And>k r. map_of (AList.delete (cache_key t path ?r) previous) k = Some r \<Longrightarrow> entry_ok D g t k r"
    using Cons.prems by (simp add: delete_conv' split: if_splits)
  ultimately show ?case
    using Cons.IH Cons.prems by (simp add: Let_def)
qed simp

definition entries_ok ::
  "'p diff_services \<Rightarrow> (nat \<Rightarrow> ustr) \<Rightarrow> 'p turn_diff_tracker \<Rightarrow> ('p diff_cache_key \<times> ustr option) list \<Rightarrow> bool" where
  "entries_ok D g t m \<longleftrightarrow> (\<forall>k r. map_of m k = Some r \<longrightarrow> entry_ok D g t k r)"

lemma refresh_loop_entries:
  assumes "revisions_ok g t" and "entries_ok D g t rendered"
    and "refresh_loop D t pairs paths handled [] rendered aggregated = (rendered', aggregated')"
  shows "entries_ok D g t rendered'"
  using assms(2,3)
proof (induction paths arbitrary: handled rendered aggregated)
  case (Cons path paths)
  let ?r = "case map_of pairs path of Some dest \<Rightarrow> dest | None \<Rightarrow> path"
  have "entries_ok D g t (AList.update (cache_key t path ?r) (render_pair D t path ?r) rendered)"
    using Cons.prems(1) entry_ok_pair [OF assms(1)] by (simp add: entries_ok_def update_conv')
  with Cons.IH Cons.prems show ?case
    by (auto simp: Let_def split: if_splits)
qed simp

lemma refresh_uncached:
  assumes "cache_ok D t"
  shows "refresh_unified_diff D t = refresh_unified_diff D (t\<lparr>rendered_diffs := []\<rparr>)"
    and "cache_ok D (refresh_unified_diff D t)"
proof -
  let ?u = "t\<lparr>rendered_diffs := []\<rparr>"
  obtain g where g: "revisions_ok g t" "\<And>k r. map_of (rendered_diffs t) k = Some r \<Longrightarrow> entry_ok D g t k r"
    using assms by (auto simp: cache_ok_def)
  have same: "cache_key ?u = cache_key t" "render_pair D ?u = render_pair D t"
    "rename_pairs ?u = rename_pairs t"
    using render_diff_cong [of ?u t D]
    by (simp_all add: cache_key_def render_pair_def rename_pairs_def fun_eq_iff)
  have sorted: "sorted_paths D ?u = sorted_paths D t"
    by (simp add: sorted_paths_def display_path_cong [of ?u t D])
  have loop: "refresh_loop D ?u pairs paths handled previous rendered aggregated =
      refresh_loop D t pairs paths handled previous rendered aggregated"
    for pairs paths handled previous rendered aggregated
    by (induction paths arbitrary: handled previous rendered aggregated) (simp_all add: same Let_def cong: option.case_cong)
  obtain rendered agg where
    run: "refresh_loop D t (rename_pairs t) (sorted_paths D t) [] [] [] [] = (rendered, agg)"
    by fastforce
  have cached: "refresh_loop D t (rename_pairs t) (sorted_paths D t) [] (rendered_diffs t) [] [] = (rendered, agg)"
    using refresh_loop_uncached [OF g] run by simp
  show "refresh_unified_diff D t = refresh_unified_diff D ?u"
    using run cached by (simp add: refresh_unified_diff_def loop same sorted)
  have "entries_ok D g t rendered"
    using refresh_loop_entries [OF g(1) _ run] by (simp add: entries_ok_def)
  then have "cache_ok D (t\<lparr>rendered_diffs := rendered, unified_diff := x\<rparr>)" for x
    using g(1) render_diff_cong [of "t\<lparr>rendered_diffs := rendered, unified_diff := x\<rparr>" t D]
    by (auto simp: cache_ok_def entries_ok_def entry_ok_def revisions_ok_def)
  then show "cache_ok D (refresh_unified_diff D t)"
    using cached by (simp add: refresh_unified_diff_def)
qed

lemma cache_ok_default: "cache_ok D (with_environment_display_roots roots)"
  by (simp add: cache_ok_def revisions_ok_def with_environment_display_roots_def tracker_default_def)

lemma cache_ok_track: "cache_ok D t \<Longrightarrow> cache_ok D (track_delta D env delta t)"
  using refresh_uncached(2) [OF cache_ok_changes [of D t env "changes delta"]]
  by (auto simp: track_delta_def invalidate_def cache_ok_def revisions_ok_def)


definition forget_cache :: "'p turn_diff_tracker \<Rightarrow> 'p turn_diff_tracker" where
  "forget_cache t = t\<lparr>rendered_diffs := []\<rparr>"

lemma forget_primitives:
  "insert_baseline p x (forget_cache t) = forget_cache (insert_baseline p x t)"
  "insert_current p x (forget_cache t) = forget_cache (insert_current p x t)"
  "remove_current p (forget_cache t) = forget_cache (remove_current p t)"
  "remove_origin p (forget_cache t) = forget_cache (remove_origin p t)"
  "(forget_cache t)\<lparr>origin_by_current_path := os\<rparr> = forget_cache (t\<lparr>origin_by_current_path := os\<rparr>)"
  "untracked (forget_cache t) = untracked t"
  "origin_by_current_path (forget_cache t) = origin_by_current_path t"
  by (cases t; simp add: insert_baseline_def insert_current_def remove_current_def remove_origin_def
      tracked_content_of_def forget_cache_def untracked_def contains_key_def fun_eq_iff)+

lemma forget_note: "note_overwritten p x (forget_cache t) = forget_cache (note_overwritten p x t)"
  by (simp add: note_overwritten_def forget_primitives split: option.split)

lemma forget_update:
  "tracker_apply_update p mv old x new (forget_cache t) = forget_cache (tracker_apply_update p mv old x new t)"
proof -
  have branch: "(if b then forget_cache u else forget_cache w) = forget_cache (if b then u else w)"
    for b and u w :: "'a turn_diff_tracker" by simp
  show ?thesis
    by (cases mv)
      (simp_all only: tracker_apply_update_def Let_def option.case forget_primitives forget_note branch)
qed

lemma forget_change:
  "tracker_apply_change env c (forget_cache t) = forget_cache (tracker_apply_change env c t)"
proof -
  obtain p ch where c: "c = (p, ch)" by (cases c)
  show ?thesis
    unfolding c
    by (cases ch)
      (simp_all add: tracker_apply_add_def tracker_apply_delete_eq forget_primitives forget_note forget_update)
qed

lemma forget_changes:
  "fold (tracker_apply_change env) cs (forget_cache t) = forget_cache (fold (tracker_apply_change env) cs t)"
  by (induction cs arbitrary: t) (simp_all add: forget_change)

lemma forget_track:
  assumes "cache_ok D t"
  shows "forget_cache (track_delta D env delta (forget_cache t)) = forget_cache (track_delta D env delta t)"
proof -
  have "refresh_unified_diff D (forget_cache (fold (tracker_apply_change env) (changes delta) t)) =
      refresh_unified_diff D (fold (tracker_apply_change env) (changes delta) t)"
    using refresh_uncached(1) [OF cache_ok_changes [OF assms]] by (simp add: forget_cache_def)
  then show ?thesis
    by (simp add: track_delta_def forget_changes) (simp add: forget_cache_def invalidate_def)
qed

text \<open>The cache of rendered diffs is invisible: over any sequence of records, from any display
  roots, the tracker shows the diff that a tracker without a cache, which renders every diff anew,
  shows.\<close>

theorem unified_diff_uncached:
  "unified_diff (fold (\<lambda>(env, delta). track_delta D env delta) ds (with_environment_display_roots roots)) =
   unified_diff (fold (\<lambda>(env, delta) t. track_delta D env delta (t\<lparr>rendered_diffs := []\<rparr>)) ds
     (with_environment_display_roots roots))"
proof -
  have "forget_cache (fold (\<lambda>(env, delta). track_delta D env delta) ds t) =
      forget_cache (fold (\<lambda>(env, delta) t. track_delta D env delta (forget_cache t)) ds u)"
    if "cache_ok D t" "forget_cache t = forget_cache u" for t u
    using that
  proof (induction ds arbitrary: t u)
    case (Cons d ds)
    obtain env delta where d: "d = (env, delta)" by (cases d)
    have "cache_ok D (track_delta D env delta t)" using Cons.prems(1) by (rule cache_ok_track)
    moreover have "forget_cache (track_delta D env delta t) =
        forget_cache (track_delta D env delta (forget_cache u))"
      using forget_track [OF Cons.prems(1)] Cons.prems(2) by simp
    ultimately show ?case using Cons.IH d by simp
  qed simp
  from this [OF cache_ok_default refl] have
    "unified_diff (forget_cache (fold (\<lambda>(env, delta). track_delta D env delta) ds
       (with_environment_display_roots roots))) =
     unified_diff (forget_cache (fold (\<lambda>(env, delta) t. track_delta D env delta (forget_cache t)) ds
       (with_environment_display_roots roots)))"
    by simp
  then show ?thesis by (simp add: forget_cache_def)
qed

section \<open>A turn that changes nothing\<close>

lemma refresh_loop_silent:
  assumes "\<And>path. path \<in> set paths \<Longrightarrow> render_pair D t path path = None" and "pairs = []"
  shows "snd (refresh_loop D t pairs paths handled [] rendered aggregated) = aggregated"
  using assms
  by (induction paths arbitrary: handled rendered aggregated) (auto simp: Let_def append_diff_def)

text \<open>Changes that cancel out leave no diff: when the tracker describes the way from the texts \<open>v\<close>
  at the start of the turn to the same texts, the diff it shows is empty.\<close>

theorem refresh_no_net_change:
  assumes "cache_ok D t" and "tracks v v t"
  shows "unified_diff (refresh_unified_diff D t) = None"
proof -
  have same: "baseline_text t path = current_text t path" for path
    using tracksD [OF assms(2), of path] by (auto simp: text_tracked_def split: if_splits)
  have pairs: "rename_pairs t = []"
    using same unfolding rename_pairs_def
    by (subst filter_False) (auto simp: case_prod_beta)
  have "render_pair D t path path = None" for path
    using same [of path] by (simp add: render_pair_def render_diff_def baseline_text_def current_text_def)
  then have "snd (refresh_loop D t [] (sorted_paths D t) [] [] [] []) = []"
    by (intro refresh_loop_silent) auto
  moreover obtain g where "revisions_ok g t"
    "\<And>k r. map_of (rendered_diffs t) k = Some r \<Longrightarrow> entry_ok D g t k r"
    using assms(1) by (auto simp: cache_ok_def)
  then have "refresh_loop D t (rename_pairs t) (sorted_paths D t) [] (rendered_diffs t) [] [] =
      refresh_loop D t [] (sorted_paths D t) [] [] [] []"
    using refresh_loop_uncached pairs by metis
  ultimately show ?thesis
    by (simp add: refresh_unified_diff_def case_prod_beta)
qed


section \<open>The texts of one environment\<close>

text \<open>The files of the environment \<open>env\<close> have the texts \<open>v\<close>, the others the texts \<open>w\<close>.\<close>

definition environment_view ::
  "ustr \<Rightarrow> ('p \<Rightarrow> ustr option) \<Rightarrow> ('p tracked_path \<Rightarrow> ustr option) \<Rightarrow> 'p tracked_path \<Rightarrow> ustr option" where
  "environment_view env v w path = (if fst path = env then v (snd path) else w path)"

lemma environment_view_upd [simp]:
  "(environment_view env v w)((env, p) := x) = environment_view env (v(p := x)) w"
  by (auto simp: environment_view_def fun_eq_iff)

lemma environment_view_at [simp]: "environment_view env v w (env, p) = v p"
  by (simp add: environment_view_def)

lemma change_lift:
  "change_matches (environment_view env v w) (lift_change env c) = change_matches v c"
  "replay_change (environment_view env v w) (lift_change env c) = environment_view env (replay_change v c) w"
  by (cases "(v, c)" rule: change_matches.cases; simp)+

lemma replays_lift:
  "replays v cs v' \<Longrightarrow>
   replays (environment_view env v w) (map (lift_change env) cs) (environment_view env v' w)"
  by (induction cs arbitrary: v) (auto simp: change_lift)

end
