(* ===== verification/Examples.thy ===== *)
theory Examples
  imports Memory_Files Update_Correct Patch_Roundtrip Turn_Diff
begin

text \<open>
  Concrete patches and files: every property of the patch components that has hypotheses is applied
  here at an input where they hold, and three runs show what the program does at its edges.
\<close>

section \<open>Data\<close>

definition demo_chunk :: update_file_chunk where
  "demo_chunk = \<lparr>change_context = None, old_lines = [str ''a'', str ''b''], new_lines = [str ''a'', str ''c''],
     context_line_indices = [(0, 0)], is_end_of_file = False\<rparr>"

definition demo_hunks :: "hunk list" where
  "demo_hunks =
     [UpdateFile (str ''f'') None [demo_chunk], AddFile (str ''g'') (str ''x'' @ [LF]), DeleteFile (str ''h'')]"

definition demo_patch :: ustr where
  "demo_patch = join [LF] [str ''*** Begin Patch'', str ''*** Update File: f'', str ''@@'',
     str '' a'', str ''-b'', str ''+c'', str ''*** Add File: g'', str ''+x'', str ''*** Delete File: h'',
     str ''*** End Patch'']"

definition demo_args :: apply_patch_args where
  "demo_args = \<lparr>args_patch = demo_patch, args_hunks = demo_hunks, args_workdir = None,
     args_environment_id = None\<rparr>"

definition demo_lines :: "ustr list" where
  "demo_lines = [str ''z'', str ''a'', str ''b'', str ''y'']"

definition demo_files :: memory where
  "demo_files = [(str ''f'', lf_text demo_lines), (str ''h'', str ''old'')]"

section \<open>Applied properties\<close>

lemma demo_parses: "parse_patch_text demo_patch Strict = Inr demo_args"
  by code_simp

theorem parse_patch_text_complete_witness:
  "parse_patch_text demo_patch Strict = Inr demo_args \<and> list_all hunk_complete (args_hunks demo_args)"
  using demo_parses parse_patch_text_complete [OF demo_parses] by blast

theorem push_delta_extends_witness:
  "parser_inv default_parser \<and>
   hunks_extend (hunks (state default_parser)) (hunks (state (fst (push_delta default_parser demo_patch))))"
  using parser_inv_default push_delta_extends [OF parser_inv_default prod.collapse [symmetric]] by blast


definition demo_edit :: "ustr replacement list" where
  "demo_edit = [(2, 1, [str ''c''])]"


theorem apply_replacements_splice_witness:
  "ordered_edits 0 (length demo_lines) demo_edit \<and>
   apply_replacements demo_lines demo_edit = Some [str ''z'', str ''a'', str ''c'', str ''y'']"
proof -
  have o: "ordered_edits 0 (length demo_lines) demo_edit" by code_simp
  have "splice demo_lines 0 demo_edit = [str ''z'', str ''a'', str ''c'', str ''y'']" by code_simp
  with apply_replacements_splice [OF o] o show ?thesis by simp
qed

lemma demo_chunk_wf: "chunk_wf demo_chunk"
  by code_simp

theorem compute_replacements_ordered_witness:
  "planned PreserveLineEndings demo_lines demo_chunk \<and>
   (\<exists>r. compute_replacements demo_lines (str ''f'') [demo_chunk] PreserveLineEndings = Some r \<and>
     (\<forall>rs. r = Inr rs \<longrightarrow> ordered_edits 0 (length demo_lines) rs))"
proof -
  have "planned PreserveLineEndings demo_lines demo_chunk" by code_simp
  with compute_replacements_ordered [of "[demo_chunk]" PreserveLineEndings demo_lines] show ?thesis by simp
qed

theorem derive_new_contents_total_witness:
  "chunk_wf demo_chunk \<and>
   (\<exists>r. derive_new_contents NormalizeToLf (str ''f'') (lf_text demo_lines) [demo_chunk] = Some r)"
  using demo_chunk_wf derive_new_contents_total [of "[demo_chunk]" NormalizeToLf] by simp

lemma demo_window:
  "1 + length (old_lines demo_chunk) \<le> length demo_lines"
  "take (length (old_lines demo_chunk)) (drop 1 demo_lines) = old_lines demo_chunk"
  by code_simp+

theorem found_replacements_modes_witness:
  "\<exists>rs. found_replacements PreserveLineEndings 1 (old_lines demo_chunk) (new_lines demo_chunk) demo_chunk = Some rs \<and>
     splice demo_lines 0 rs = [str ''z'', str ''a'', str ''c'', str ''y'']"
proof -
  have "splice demo_lines 0 [(1, length (old_lines demo_chunk), new_lines demo_chunk)] =
      [str ''z'', str ''a'', str ''c'', str ''y'']" by code_simp
  with found_replacements_modes [OF demo_chunk_wf demo_window] show ?thesis by auto
qed


theorem derive_preserving_single_witness:
  "derive_preserving (str ''f'') (lf_text demo_lines) [demo_chunk] =
     Some (Inr (lf_text [str ''z'', str ''a'', str ''c'', str ''y'']))"
proof -
  have clean: "\<forall>l \<in> set demo_lines. LF \<notin> set l \<and> CR \<notin> set l" by code_simp
  have fresh: "take (length (old_lines demo_chunk)) (drop j demo_lines) \<noteq> old_lines demo_chunk" if "j < 1" for j
    using that by (simp add: demo_lines_def demo_chunk_def str_simps)
  have "take 1 demo_lines @ new_lines demo_chunk @ drop (1 + length (old_lines demo_chunk)) demo_lines =
      [str ''z'', str ''a'', str ''c'', str ''y'']" by code_simp
  with derive_preserving_single [OF demo_chunk_wf _ _ _ clean demo_window fresh] show ?thesis
    by (simp add: demo_chunk_def)
qed

theorem parse_print_patch_witness:
  "env_printable (Some (str ''e'')) \<and> list_all hunk_printable demo_hunks \<and>
   parse_patch_text (print_patch (Some (str ''e'')) demo_hunks) Lenient =
     Inr \<lparr>args_patch = print_patch (Some (str ''e'')) demo_hunks, args_hunks = demo_hunks,
          args_workdir = None, args_environment_id = Some (str ''e'')\<rparr>"
proof -
  have "env_printable (Some (str ''e''))" "list_all hunk_printable demo_hunks" by code_simp+
  with parse_print_patch [OF this] show ?thesis by blast
qed

definition demo_run :: "memory \<times> ustr applied_patch_delta \<times> (hunk_error + affected_paths)" where
  "demo_run = the (apply_hunks_to_files mem_fs mem_paths default_options (str ''/'') demo_hunks demo_files delta_empty)"

lemma demo_run_result:
  "apply_hunks_to_files mem_fs mem_paths default_options (str ''/'') demo_hunks demo_files delta_empty =
     Some (fst demo_run, fst (snd demo_run), snd (snd demo_run))"
  "exact (fst (snd demo_run))" "list_all (moves_apart mem_paths (str ''/'')) demo_hunks"
  "length (changes (fst (snd demo_run))) = 3"
  by code_simp+


theorem apply_hunks_to_files_affected_witness:
  "\<exists>aff. snd (snd demo_run) = Inr aff \<and> modified aff = [str ''f''] \<and> added aff = [str ''g''] \<and>
     deleted aff = [str ''h'']"
proof -
  have "snd (snd demo_run) = Inr (projr (snd (snd demo_run)))" by code_simp
  with demo_run_result(1) have
    "apply_hunks_to_files mem_fs mem_paths default_options (str ''/'') demo_hunks demo_files delta_empty =
       Some (fst demo_run, fst (snd demo_run), Inr (projr (snd (snd demo_run))))" by simp
  from apply_hunks_to_files_affected [OF this] show ?thesis
    using \<open>snd (snd demo_run) = Inr (projr (snd (snd demo_run)))\<close>
    by (intro exI [of _ "projr (snd (snd demo_run))"])
      (simp add: demo_hunks_def adds_def updates_def deletes_def hunk_path_def)
qed

theorem apply_patch_parse_error_witness:
  "\<exists>err err'. apply_patch_with_options mem_fs mem_paths (\<lambda>w t. (w @ t, Inr ())) default_options (str ''/'') []
     \<lparr>files = demo_files, stdout = [], stderr = []\<rparr> =
     Some (\<lparr>files = demo_files, stdout = [], stderr = err'\<rparr>, Inl (err, delta_empty))"
proof -
  have "parse_patch [] = Inl (InvalidPatchError last_line_msg)" by code_simp
  from apply_patch_parse_error [OF this, of mem_fs mem_paths "\<lambda>w t. (w @ t, Inr ())" default_options "str ''/''"
      "\<lparr>files = demo_files, stdout = [], stderr = []\<rparr>"]
  show ?thesis by auto
qed

definition no_services :: "ustr diff_services" where
  "no_services = \<lparr>relative_path_from = (\<lambda>p r. None), native_path_string = id,
     diff_lines = (\<lambda>a b h k. b), git_blob_oid = id\<rparr>"

definition demo_delta :: "ustr applied_patch_delta" where
  "demo_delta = \<lparr>changes = [(str ''f'', ChangeUpdate None (str ''a'') None (str ''b''))], exact = True\<rparr>"

definition demo_undo :: "ustr applied_patch_change list" where
  "demo_undo = [(str ''f'', ChangeUpdate None (str ''a'') None (str ''b'')),
     (str ''f'', ChangeUpdate None (str ''b'') None (str ''a''))]"

lemma tracks_default: "tracks v v tracker_default"
  by (simp add: tracks_def text_tracked_def baseline_text_def current_text_def tracker_default_def)

theorem track_delta_tracks_witness:
  "valid tracker_default \<and> exact demo_delta \<and>
   tracks (\<lambda>p. Some (str ''a'')) ((\<lambda>p. Some (str ''a''))(([], str ''f'') := Some (str ''b'')))
     (track_delta no_services [] demo_delta tracker_default)"
proof -
  have fine: "valid tracker_default" "exact demo_delta"
    by (simp_all add: tracker_default_def demo_delta_def)
  have "replays (\<lambda>p. Some (str ''a'')) (map (lift_change []) (changes demo_delta))
      ((\<lambda>p. Some (str ''a''))(([], str ''f'') := Some (str ''b'')))"
    by (simp add: demo_delta_def)
  from track_delta_tracks [OF fine tracks_default this] fine show ?thesis by simp
qed

theorem refresh_no_net_change_witness:
  "unified_diff (refresh_unified_diff no_services
     (fold (tracker_apply_change []) demo_undo tracker_default)) = None"
proof -
  let ?v = "\<lambda>p :: ustr tracked_path. Some (str ''a'')"
  have "tracks ?v ?v (fold (tracker_apply_change []) demo_undo tracker_default)"
    by (rule tracker_apply_changes_tracks [OF tracks_default])
      (auto simp: demo_undo_def fun_eq_iff)
  moreover have "cache_ok no_services (fold (tracker_apply_change []) demo_undo tracker_default)"
    by (rule cache_ok_changes) (simp add: cache_ok_def revisions_ok_def tracker_default_def)
  ultimately show ?thesis using refresh_no_net_change by blast
qed


section \<open>Runs at the edges\<close>

text \<open>A move of a file onto itself writes the new text and then removes the file. The record says it
  is exact and that the file has the new text.\<close>

definition self_move :: "hunk list" where
  "self_move = [UpdateFile (str ''f'') (Some (str ''f'')) [demo_chunk]]"

theorem self_move_loses_file:
  "\<exists>fs delta aff.
     apply_hunks_to_files mem_fs mem_paths default_options (str ''/'') self_move demo_files delta_empty =
       Some (fs, delta, Inr aff) \<and>
     map_of demo_files (str ''f'') = Some (lf_text demo_lines) \<and> map_of fs (str ''f'') = None \<and>
     exact delta \<and> modified aff = [str ''f''] \<and>
     fold (\<lambda>c v. replay_change v c) (changes delta) (map_of demo_files) (str ''f'') =
       Some (lf_text [str ''z'', str ''a'', str ''c'', str ''y''])"
proof -
  let ?run = "apply_hunks_to_files mem_fs mem_paths default_options (str ''/'') self_move demo_files delta_empty"
  let ?delta = "\<lparr>changes = [(str ''f'', ChangeUpdate (Some (str ''f'')) (lf_text demo_lines)
      (Some (lf_text demo_lines)) (lf_text [str ''z'', str ''a'', str ''c'', str ''y'']))], exact = True\<rparr>"
  have "?run = Some ([(str ''h'', str ''old'')], ?delta, Inr \<lparr>added = [], modified = [str ''f''], deleted = []\<rparr>)"
    by code_simp
  then show ?thesis by (simp add: demo_files_def str_simps)
qed

text \<open>In the mode that normalises line endings, a chunk that only adds a line goes before a final blank
  line. A later chunk that replaces that blank line removes the added line; the other mode keeps it.\<close>

definition add_x :: update_file_chunk where
  "add_x = default_chunk\<lparr>new_lines := [str ''x'']\<rparr>"

definition change_b :: update_file_chunk where
  "change_b = default_chunk\<lparr>old_lines := [str ''b'', []], new_lines := [str ''c'', []],
     context_line_indices := [(1, 1)]\<rparr>"

theorem normalized_loses_insertion:
  "derive_normalized (str ''f'') (lf_text [str ''a'', str ''b'', []]) [add_x, change_b] =
     Some (Inr (lf_text [str ''a'', str ''c'', []])) \<and>
   derive_preserving (str ''f'') (lf_text [str ''a'', str ''b'', []]) [add_x, change_b] =
     Some (Inr (lf_text [str ''a'', str ''c'', [], str ''x'']))"
  by code_simp

text \<open>In the same mode a chunk at the end of the file is searched at the end only, before the lines an
  earlier chunk took: the two overlap and the later one is lost. The other mode reports that the
  lines are not there.\<close>

definition remove_all :: update_file_chunk where
  "remove_all = default_chunk\<lparr>old_lines := [str ''a'', str ''b'', str ''b'']\<rparr>"

definition change_last :: update_file_chunk where
  "change_last = default_chunk\<lparr>old_lines := [str ''b''], new_lines := [str ''c''], is_end_of_file := True\<rparr>"

theorem normalized_overlap:
  "derive_normalized (str ''f'') (lf_text [str ''a'', str ''b'', str ''b'']) [remove_all, change_last] =
     Some (Inr []) \<and>
   map_option isl (derive_preserving (str ''f'')
      (lf_text [str ''a'', str ''b'', str ''b'']) [remove_all, change_last]) = Some True"
  by code_simp

end
