(* ===== verification/Text_Search.thy ===== *)
theory Text_Search
  imports Prelude
begin

text \<open>
  More of Rust's \<^verbatim>\<open>str\<close>: ASCII case and digits, searching, and splitting at a character. Used by
  the execution policy and by the other components that read names and hosts.
\<close>

definition ascii_lower :: "uchar \<Rightarrow> uchar" where
  "ascii_lower c = (if 65 \<le> c \<and> c \<le> 90 then c + 32 else c)"

definition to_ascii_lowercase :: "ustr \<Rightarrow> ustr" where
  "to_ascii_lowercase s = map ascii_lower s"

definition is_ascii_digit :: "uchar \<Rightarrow> bool" where
  "is_ascii_digit c \<longleftrightarrow> 48 \<le> c \<and> c \<le> 57"

fun contains_str :: "ustr \<Rightarrow> ustr \<Rightarrow> bool" where
  "contains_str needle [] = (needle = [])"
| "contains_str needle (c # cs) = (starts_with needle (c # cs) \<or> contains_str needle cs)"

text \<open>\<open>s.split_once(d)\<close> and \<open>s.rsplit_once(d)\<close>.\<close>

fun split_once :: "uchar \<Rightarrow> ustr \<Rightarrow> (ustr \<times> ustr) option" where
  "split_once d [] = None"
| "split_once d (c # cs) =
     (if c = d then Some ([], cs)
      else map_option (\<lambda>(a, b). (c # a, b)) (split_once d cs))"

definition rsplit_once :: "uchar \<Rightarrow> ustr \<Rightarrow> (ustr \<times> ustr) option" where
  "rsplit_once d s = map_option (\<lambda>(a, b). (rev b, rev a)) (split_once d (rev s))"

definition trim_end_matches :: "uchar \<Rightarrow> ustr \<Rightarrow> ustr" where
  "trim_end_matches d s = rev (dropWhile (\<lambda>c. c = d) (rev s))"

text \<open>\<open>s.split_inclusive('\n')\<close>: the pieces keep their line feed.\<close>

fun split_inclusive_acc :: "ustr \<Rightarrow> ustr \<Rightarrow> ustr list" where
  "split_inclusive_acc cur [] = (if cur = [] then [] else [cur])"
| "split_inclusive_acc cur (c # cs) =
     (if c = LF then (cur @ [c]) # split_inclusive_acc [] cs else split_inclusive_acc (cur @ [c]) cs)"

definition split_inclusive :: "ustr \<Rightarrow> ustr list" where
  "split_inclusive s = split_inclusive_acc [] s"

section \<open>Lemmas\<close>

lemma ascii_lower_idem [simp]: "ascii_lower (ascii_lower c) = ascii_lower c"
  by (auto simp: ascii_lower_def)

lemma ascii_lower_eq: "\<not> (97 \<le> d \<and> d \<le> 122) \<Longrightarrow> \<not> (65 \<le> d \<and> d \<le> 90) \<Longrightarrow> ascii_lower c = d \<longleftrightarrow> c = d"
  by (auto simp: ascii_lower_def)

lemma lowercase_idem [simp]: "to_ascii_lowercase (to_ascii_lowercase s) = to_ascii_lowercase s"
  by (simp add: to_ascii_lowercase_def)

lemma lowercase_append: "to_ascii_lowercase (s @ t) = to_ascii_lowercase s @ to_ascii_lowercase t"
  by (simp add: to_ascii_lowercase_def)

lemma lowercase_is_Nil [simp]: "to_ascii_lowercase s = [] \<longleftrightarrow> s = []"
  by (simp add: to_ascii_lowercase_def)

lemma in_lowercase:
  "\<not> (97 \<le> d \<and> d \<le> 122) \<Longrightarrow> \<not> (65 \<le> d \<and> d \<le> 90) \<Longrightarrow> d \<in> set (to_ascii_lowercase s) \<longleftrightarrow> d \<in> set s"
  by (induction s) (auto simp: to_ascii_lowercase_def ascii_lower_def split: if_splits)

lemma lowercase_no_upper: "c \<in> set (to_ascii_lowercase s) \<Longrightarrow> \<not> (65 \<le> c \<and> c \<le> 90)"
  by (auto simp: to_ascii_lowercase_def ascii_lower_def)

lemma contains_single: "contains_str [c] s \<longleftrightarrow> c \<in> set s"
  by (induction s) (auto simp: starts_with_def)

lemma split_once_Some: "split_once d s = Some (a, b) \<Longrightarrow> s = a @ d # b \<and> d \<notin> set a"
  by (induction s arbitrary: a) (auto split: if_splits)

lemma split_once_None: "split_once d s = None \<longleftrightarrow> d \<notin> set s"
  by (induction s) auto

lemma split_once_append: "d \<notin> set a \<Longrightarrow> split_once d (a @ d # b) = Some (a, b)"
  by (induction a) auto

lemma rsplit_once_Some: "rsplit_once d s = Some (a, b) \<Longrightarrow> s = a @ d # b \<and> d \<notin> set b"
  by (auto simp: rsplit_once_def dest!: split_once_Some) (metis rev_append rev.simps(2) rev_rev_ident append.assoc append_Cons append_Nil)

lemma trim_end_matches_set: "set (trim_end_matches d s) \<subseteq> set s"
  by (auto simp: trim_end_matches_def dest: set_dropWhileD)

lemma trim_set: "set (trim s) \<subseteq> set s"
  by (auto simp: trim_def trim_end_def trim_start_def dest!: set_dropWhileD)

lemma split_inclusive_acc_concat: "concat (split_inclusive_acc cur s) = cur @ s"
  by (induction cur s rule: split_inclusive_acc.induct) auto

lemma split_inclusive_concat: "concat (split_inclusive s) = s"
  by (simp add: split_inclusive_def split_inclusive_acc_concat)

lemma split_inclusive_acc_line:
  "LF \<notin> set l \<Longrightarrow> split_inclusive_acc cur (l @ LF # s) = (cur @ l @ [LF]) # split_inclusive_acc [] s"
  by (induction l arbitrary: cur) auto

lemma split_inclusive_lf_text:
  "\<forall>l \<in> set ls. LF \<notin> set l \<Longrightarrow>
   split_inclusive (lf_text ls @ s) = map (\<lambda>l. l @ [LF]) ls @ split_inclusive s"
  unfolding split_inclusive_def by (induction ls) (auto simp: lf_text_def split_inclusive_acc_line)

lemma lines_Nil [simp]: "lines [] = []"
  by (simp add: lines_def)

lemma lines_split: "lines (s @ LF # t) = map drop_cr (split_on LF s) @ lines t"
  by (simp add: lines_def Let_def split_on_split butlast_append)

lemma lines_append_line:
  assumes "s = [] \<or> last s = LF" "LF \<notin> set l"
  shows "lines (s @ l @ [LF]) = lines s @ [drop_cr l]"
proof (cases s rule: rev_cases)
  case Nil
  with assms show ?thesis using lines_split [of l "[]"] by (simp add: split_on_none)
next
  case (snoc r c)
  with assms have "s = r @ [LF]" by simp
  with assms(2) lines_split [of r "[]"] lines_split [of r "l @ [LF]"] lines_split [of l "[]"]
  show ?thesis by (simp add: split_on_none)
qed

lemma last_split_on:
  assumes "s \<noteq> []" "last s \<noteq> d" shows "last (split_on d s) \<noteq> [] \<and> last (last (split_on d s)) = last s"
  using assms
proof (induction s)
  case (Cons c s)
  then show ?case by (cases s) (auto split: list.splits if_splits)
qed simp

lemma lines_terminate:
  assumes "s \<noteq> []" "last s \<noteq> LF" "last s \<noteq> CR" shows "lines (s @ [LF]) = lines s"
proof -
  let ?ps = "split_on LF s"
  have "last ?ps \<noteq> []" "drop_cr (last ?ps) = last ?ps"
    using last_split_on [OF assms(1,2)] assms(3) by (simp_all add: drop_cr_no_cr)
  moreover have "map drop_cr ?ps = map drop_cr (butlast ?ps) @ [drop_cr (last ?ps)]"
    by (metis append_butlast_last_id list.simps(8,9) map_append split_on_not_Nil)
  ultimately show ?thesis
    using lines_split [of s "[]"] by (simp add: lines_def Let_def)
qed

end
