(* ===== verification/Exec_Rule.thy ===== *)
theory Exec_Rule
  imports Text_Search
begin

text \<open>
  Rules of the execution policy: \<^verbatim>\<open>codex-rs/execpolicy/src/decision.rs\<close>,
  \<^verbatim>\<open>error.rs\<close>, \<^verbatim>\<open>executable_name.rs\<close> and the data and matching of \<^verbatim>\<open>rule.rs\<close>.
  Absolute paths (the crate \<^verbatim>\<open>codex-utils-absolute-path\<close>) are a type parameter.
\<close>

section \<open>Decisions\<close>

datatype decision = Allow | Prompt | Forbidden

text \<open>The derived order of the variants.\<close>

fun strictness :: "decision \<Rightarrow> nat" where
  "strictness Allow = 0"
| "strictness Prompt = 1"
| "strictness Forbidden = 2"

lemma strictness_inject [simp]: "strictness a = strictness b \<longleftrightarrow> a = b"
  by (cases a; cases b) simp_all

instantiation decision :: linorder
begin

definition less_eq_decision :: "decision \<Rightarrow> decision \<Rightarrow> bool" where
  "a \<le> b \<longleftrightarrow> strictness a \<le> strictness b"

definition less_decision :: "decision \<Rightarrow> decision \<Rightarrow> bool" where
  "a < b \<longleftrightarrow> strictness a < strictness b"

instance
  by standard (auto simp: less_eq_decision_def less_decision_def)

end

section \<open>Errors\<close>

record text_position =
  pos_line :: nat
  pos_column :: nat

record text_range =
  range_start :: text_position
  range_end :: text_position

record error_location =
  loc_path :: ustr
  loc_range :: text_range

datatype policy_error =
    InvalidDecision ustr
  | InvalidPattern ustr
  | InvalidExample ustr
  | InvalidRule ustr
  | ExampleDidNotMatch "ustr list" "ustr list" "error_location option"
  | ExampleDidMatch ustr ustr "error_location option"
  | Starlark ustr

fun with_location :: "policy_error \<Rightarrow> error_location \<Rightarrow> policy_error" where
  "with_location (ExampleDidNotMatch rules examples None) location =
     ExampleDidNotMatch rules examples (Some location)"
| "with_location (ExampleDidMatch rule example None) location =
     ExampleDidMatch rule example (Some location)"
| "with_location other location = other"

definition decision_parse :: "ustr \<Rightarrow> policy_error + decision" where
  "decision_parse raw =
     (if raw = str ''allow'' then Inr Allow
      else if raw = str ''prompt'' then Inr Prompt
      else if raw = str ''forbidden'' then Inr Forbidden
      else Inl (InvalidDecision raw))"

section \<open>Executable names\<close>

definition WINDOWS_EXECUTABLE_SUFFIXES :: "ustr list" where
  "WINDOWS_EXECUTABLE_SUFFIXES = [str ''.exe'', str ''.cmd'', str ''.bat'', str ''.com'']"

text \<open>The build for Windows is the case \<open>windows\<close>.\<close>

definition executable_lookup_key :: "bool \<Rightarrow> ustr \<Rightarrow> ustr" where
  "executable_lookup_key windows raw =
     (if windows then
        let lower = to_ascii_lowercase raw in
        case List.find (\<lambda>suffix. ends_with suffix lower) WINDOWS_EXECUTABLE_SUFFIXES of
          Some suffix \<Rightarrow> take (length lower - length suffix) lower
        | None \<Rightarrow> lower
      else raw)"

section \<open>Patterns\<close>

datatype pattern_token = Single ustr | Alts "ustr list"

fun token_matches :: "pattern_token \<Rightarrow> ustr \<Rightarrow> bool" where
  "token_matches (Single expected) token = (expected = token)"
| "token_matches (Alts alternatives) token = list_ex (\<lambda>alt. alt = token) alternatives"

fun alternatives :: "pattern_token \<Rightarrow> ustr list" where
  "alternatives (Single expected) = [expected]"
| "alternatives (Alts alts) = alts"

record prefix_pattern =
  first :: ustr
  rest :: "pattern_token list"

text \<open>\<open>cmd[0]\<close> is read only when the command is not shorter than the pattern.\<close>

definition matches_prefix :: "prefix_pattern \<Rightarrow> ustr list \<Rightarrow> ustr list option" where
  "matches_prefix p cmd =
     (let pattern_length = length (rest p) + 1 in
      if length cmd < pattern_length \<or> cmd ! 0 \<noteq> first p then None
      else if list_all (\<lambda>(t, c). token_matches t c) (zip (rest p) (drop 1 (take pattern_length cmd)))
        then Some (take pattern_length cmd)
      else None)"

datatype 'a rule_match =
    PrefixRuleMatch "ustr list" decision "'a option" "ustr option"
  | HeuristicsRuleMatch "ustr list" decision

fun match_decision :: "'a rule_match \<Rightarrow> decision" where
  "match_decision (PrefixRuleMatch matched_prefix d resolved_program justification) = d"
| "match_decision (HeuristicsRuleMatch command d) = d"

fun with_resolved_program :: "'a rule_match \<Rightarrow> 'a \<Rightarrow> 'a rule_match" where
  "with_resolved_program (PrefixRuleMatch matched_prefix d _ justification) program =
     PrefixRuleMatch matched_prefix d (Some program) justification"
| "with_resolved_program other program = other"

record prefix_rule =
  pattern :: prefix_pattern
  rule_decision :: decision
  justification :: "ustr option"

definition rule_program :: "prefix_rule \<Rightarrow> ustr" where
  "rule_program r = first (pattern r)"

definition rule_matches :: "prefix_rule \<Rightarrow> ustr list \<Rightarrow> 'a rule_match option" where
  "rule_matches r cmd =
     map_option (\<lambda>matched_prefix. PrefixRuleMatch matched_prefix (rule_decision r) None (justification r))
       (matches_prefix (pattern r) cmd)"

section \<open>Network rules\<close>

datatype network_rule_protocol = Http | Https | Socks5Tcp | Socks5Udp

definition protocol_parse :: "ustr \<Rightarrow> policy_error + network_rule_protocol" where
  "protocol_parse raw =
     (if raw = str ''http'' then Inr Http
      else if raw = str ''https'' \<or> raw = str ''https_connect'' \<or> raw = str ''http-connect'' then Inr Https
      else if raw = str ''socks5_tcp'' then Inr Socks5Tcp
      else if raw = str ''socks5_udp'' then Inr Socks5Udp
      else Inl (InvalidRule
        (str ''network_rule protocol must be one of http, https, socks5_tcp, socks5_udp (got '' @ raw @ str '')'')))"

fun as_policy_string :: "network_rule_protocol \<Rightarrow> ustr" where
  "as_policy_string Http = str ''http''"
| "as_policy_string Https = str ''https''"
| "as_policy_string Socks5Tcp = str ''socks5_tcp''"
| "as_policy_string Socks5Udp = str ''socks5_udp''"

record network_rule =
  host :: ustr
  protocol :: network_rule_protocol
  network_decision :: decision
  network_justification :: "ustr option"

definition is_port :: "ustr \<Rightarrow> bool" where
  "is_port port \<longleftrightarrow> port \<noteq> [] \<and> list_all is_ascii_digit port"

text \<open>The part of a host string before the final normalisation: brackets and a port removed.\<close>

definition strip_port :: "ustr \<Rightarrow> ustr \<Rightarrow> policy_error + ustr" where
  "strip_port raw trimmed =
     (case strip_prefix [91] trimmed of
        Some stripped \<Rightarrow>
          (case split_once 93 stripped of
             None \<Rightarrow> Inl (InvalidRule (str ''network_rule host has an invalid bracketed IPv6 literal''))
           | Some (inside, suffix) \<Rightarrow>
               let port_ok = (case strip_prefix [58] suffix of Some port \<Rightarrow> is_port port | None \<Rightarrow> False) in
               if suffix \<noteq> [] \<and> \<not> port_ok
               then Inl (InvalidRule (str ''network_rule host contains an unsupported suffix: '' @ raw))
               else Inr inside)
      | None \<Rightarrow>
          if count_list trimmed 58 = 1 then
            (case rsplit_once 58 trimmed of
               Some (candidate, port) \<Rightarrow>
                 if candidate \<noteq> [] \<and> is_port port then Inr candidate else Inr trimmed
             | None \<Rightarrow> Inr trimmed)
          else Inr trimmed)"

definition normalize_network_rule_host :: "ustr \<Rightarrow> policy_error + ustr" where
  "normalize_network_rule_host raw =
     (let trimmed = trim raw in
      if trimmed = [] then Inl (InvalidRule (str ''network_rule host cannot be empty''))
      else if contains_str (str ''://'') trimmed \<or> contains_str (str ''/'') trimmed \<or>
              contains_str (str ''?'') trimmed \<or> contains_str (str ''#'') trimmed
      then Inl (InvalidRule
        (str ''network_rule host must be a hostname or IP literal (without scheme or path)''))
      else and_then (strip_port raw trimmed) (\<lambda>bare.
        let normalized = to_ascii_lowercase (trim (trim_end_matches 46 bare)) in
        if normalized = [] then Inl (InvalidRule (str ''network_rule host cannot be empty''))
        else if contains_str (str ''*'') normalized
        then Inl (InvalidRule
          (str ''network_rule host must be a specific host; wildcards are not allowed''))
        else if list_ex is_whitespace normalized
        then Inl (InvalidRule (str ''network_rule host cannot contain whitespace''))
        else Inr normalized))"


section \<open>Matching\<close>

lemma matches_prefix_Some:
  "matches_prefix p cmd = Some m \<longleftrightarrow>
     (\<exists>ts tail. m = first p # ts \<and> cmd = m @ tail \<and> list_all2 token_matches (rest p) ts)"
proof
  assume m: "matches_prefix p cmd = Some m"
  then obtain c cs where cmd: "cmd = c # cs" by (cases cmd) (auto simp: matches_prefix_def)
  with m have "c = first p" "length (rest p) \<le> length cs" "m = c # take (length (rest p)) cs"
    "list_all2 token_matches (rest p) (take (length (rest p)) cs)"
    by (auto simp: matches_prefix_def Let_def list_all2_iff list_all_iff split: if_splits)
  with cmd show "\<exists>ts tail. m = first p # ts \<and> cmd = m @ tail \<and> list_all2 token_matches (rest p) ts"
    by (intro exI [of _ "take (length (rest p)) cs"] exI [of _ "drop (length (rest p)) cs"]) simp
next
  assume "\<exists>ts tail. m = first p # ts \<and> cmd = m @ tail \<and> list_all2 token_matches (rest p) ts"
  then obtain ts tail where "m = first p # ts" "cmd = m @ tail" "list_all2 token_matches (rest p) ts"
    by blast
  then show "matches_prefix p cmd = Some m"
    by (auto simp: matches_prefix_def Let_def list_all2_iff list_all_iff)
qed

lemma token_matches_alternatives: "token_matches t c \<longleftrightarrow> c \<in> set (alternatives t)"
  by (cases t) (auto simp: list_ex_iff)

text \<open>Whether a command starts with tokens the pattern allows.\<close>

definition tokens_match :: "pattern_token list \<Rightarrow> ustr list \<Rightarrow> bool" where
  "tokens_match ts cmd \<longleftrightarrow> length ts \<le> length cmd \<and> list_all2 token_matches ts (take (length ts) cmd)"

lemma matches_prefix_tokens:
  "matches_prefix p cmd \<noteq> None \<longleftrightarrow> tokens_match (Single (first p) # rest p) cmd"
proof (cases cmd)
  case (Cons c cs)
  then show ?thesis
    by (auto simp: matches_prefix_def Let_def tokens_match_def list_all2_iff list_all_iff)
qed (simp add: matches_prefix_def tokens_match_def)

section \<open>Hosts\<close>

lemma strip_port_set:
  assumes "strip_port raw s = Inr bare" shows "set bare \<subseteq> set s"
proof (cases "strip_prefix [91] s")
  case None
  with assms show ?thesis
    by (auto simp: strip_port_def split: if_splits option.splits dest!: rsplit_once_Some)
next
  case (Some stripped)
  with assms obtain inside suffix where "split_once 93 stripped = Some (inside, suffix)" "bare = inside"
    by (auto simp: strip_port_def Let_def split: option.splits if_splits)
  with Some show ?thesis by (auto dest!: split_once_Some)
qed

text \<open>An accepted network host is a bare lower-case name: not empty, and without capital letters, white
  space, a wildcard or the characters of a scheme, path, query or fragment.\<close>

definition clean_host :: "ustr \<Rightarrow> bool" where
  "clean_host h \<longleftrightarrow> h \<noteq> [] \<and>
     list_all (\<lambda>c. \<not> is_whitespace c \<and> \<not> (65 \<le> c \<and> c \<le> 90) \<and> c \<notin> {42, 47, 63, 35}) h"

lemma normalize_network_rule_host_clean:
  assumes "normalize_network_rule_host raw = Inr h"
  shows "clean_host h"
proof -
  obtain bare where bare: "strip_port raw (trim raw) = Inr bare"
    and h: "h = to_ascii_lowercase (trim (trim_end_matches 46 bare))" "h \<noteq> []"
      "42 \<notin> set h" "\<not> list_ex is_whitespace h"
    and ok: "47 \<notin> set (trim raw)" "63 \<notin> set (trim raw)" "35 \<notin> set (trim raw)"
    using assms
    by (auto simp: normalize_network_rule_host_def Let_def and_then_eq_Inr contains_single str_def
        split: if_splits)
  have "set (trim (trim_end_matches 46 bare)) \<subseteq> set (trim raw)"
    using trim_set trim_end_matches_set strip_port_set [OF bare] by blast
  with ok have "47 \<notin> set h" "63 \<notin> set h" "35 \<notin> set h"
    by (auto simp: h(1) in_lowercase)
  with h lowercase_no_upper show ?thesis
    by (auto simp: list_ex_iff clean_host_def list_all_iff)
qed

end
