(* ===== verification/Exec_Policy.thy ===== *)
theory Exec_Policy
  imports Exec_Rule "HOL-Library.AList" "HOL-Library.List_Lexorder" "HOL-Library.Multiset"
begin

text \<open>
  \<^verbatim>\<open>codex-rs/execpolicy/src/policy.rs\<close>: the policy, its lookup by program, its evaluation and
  its network domains. A \<^verbatim>\<open>MultiMap\<close> is an association list from keys to the list of values
  inserted under them, a \<^verbatim>\<open>HashMap\<close> an association list; the order of the entries stands for
  the unspecified order of iteration. The reading of a program name as an absolute path is a
  parameter, in the record \<open>host_paths\<close>.
\<close>

section \<open>Multimaps\<close>

type_synonym ('k, 'v) multimap = "('k \<times> 'v list) list"

fun mm_insert :: "'k \<Rightarrow> 'v \<Rightarrow> ('k, 'v) multimap \<Rightarrow> ('k, 'v) multimap" where
  "mm_insert k v [] = [(k, [v])]"
| "mm_insert k v ((k', vs) # m) = (if k = k' then (k', vs @ [v]) # m else (k', vs) # mm_insert k v m)"

definition mm_get_vec :: "('k, 'v) multimap \<Rightarrow> 'k \<Rightarrow> 'v list option" where
  "mm_get_vec m k = map_of m k"

definition unwrap_or_default :: "'a list option \<Rightarrow> 'a list" where
  "unwrap_or_default r = (case r of Some xs \<Rightarrow> xs | None \<Rightarrow> [])"

text \<open>The values in the order of insertion, under the key each belongs to.\<close>

definition mm_index :: "('v \<Rightarrow> 'k) \<Rightarrow> 'v list \<Rightarrow> ('k, 'v) multimap" where
  "mm_index key vs = fold (\<lambda>v. mm_insert (key v) v) vs []"

lemma mm_get_insert:
  "unwrap_or_default (mm_get_vec (mm_insert k v m) q) =
   unwrap_or_default (mm_get_vec m q) @ (if q = k then [v] else [])"
  by (induction k v m rule: mm_insert.induct) (auto simp: mm_get_vec_def unwrap_or_default_def)

lemma mm_get_fold:
  "unwrap_or_default (mm_get_vec (fold (\<lambda>v. mm_insert (key v) v) vs m) q) =
   unwrap_or_default (mm_get_vec m q) @ filter (\<lambda>v. key v = q) vs"
  by (induction vs arbitrary: m) (auto simp: mm_get_insert)

lemma mm_get_index: "unwrap_or_default (mm_get_vec (mm_index key vs) q) = filter (\<lambda>v. key v = q) vs"
  by (simp add: mm_index_def mm_get_fold) (simp add: mm_get_vec_def unwrap_or_default_def)

section \<open>Rules found by their program\<close>

text \<open>The trait \<^verbatim>\<open>Rule\<close>: a rule names the program it is about and applies only to commands that
  start with it. This is what makes looking rules up by the first word complete.\<close>

locale indexed_rules =
  fixes program :: "'r \<Rightarrow> 'k" and applies :: "'r \<Rightarrow> 'k list \<Rightarrow> 'm option"
  assumes applies_head: "applies r cmd = Some m \<Longrightarrow> \<exists>tail. cmd = program r # tail"
begin

lemma applies_other: "program r \<noteq> w \<Longrightarrow> applies r (w # ws) = None"
  using applies_head by (cases "applies r (w # ws)") auto

lemma filter_scan:
  "List.map_filter (\<lambda>r. applies r (w # ws)) (filter (\<lambda>r. program r = w) rs) =
   List.map_filter (\<lambda>r. applies r (w # ws)) rs"
  by (induction rs) (auto simp: List.map_filter_simps applies_other split: option.split)

lemma lookup_scan:
  "List.map_filter (\<lambda>r. applies r (w # ws)) (unwrap_or_default (mm_get_vec (mm_index program rs) w)) =
   List.map_filter (\<lambda>r. applies r (w # ws)) rs"
  by (simp add: mm_get_index filter_scan)

end

interpretation prefix_rules: indexed_rules rule_program rule_matches
proof
  fix r cmd and m :: "'a rule_match"
  assume "rule_matches r cmd = Some m"
  then show "\<exists>tail. cmd = rule_program r # tail"
    by (auto simp: rule_matches_def rule_program_def matches_prefix_Some)
qed

section \<open>Policies\<close>

record match_options =
  resolve_host_executables :: bool

definition default_match_options :: match_options where
  "default_match_options = \<lparr>resolve_host_executables = False\<rparr>"

record 'a policy =
  rules_by_program :: "(ustr, prefix_rule) multimap"
  network_rules :: "network_rule list"
  host_executables_by_name :: "(ustr \<times> 'a list) list"

text \<open>\<^verbatim>\<open>AbsolutePathBuf::try_from\<close>, the file name of a path as text, and the platform.\<close>

record 'a host_paths =
  absolute_path :: "ustr \<Rightarrow> 'a option"
  path_file_name :: "'a \<Rightarrow> ustr option"
  on_windows :: bool

definition executable_path_lookup_key :: "'a host_paths \<Rightarrow> 'a \<Rightarrow> ustr option" where
  "executable_path_lookup_key H path =
     map_option (executable_lookup_key (on_windows H)) (path_file_name H path)"

definition policy_new :: "(ustr, prefix_rule) multimap \<Rightarrow> 'a policy" where
  "policy_new rules = \<lparr>rules_by_program = rules, network_rules = [], host_executables_by_name = []\<rparr>"

definition policy_empty :: "'a policy" where
  "policy_empty = policy_new []"

definition render_pattern_token :: "pattern_token \<Rightarrow> ustr" where
  "render_pattern_token token =
     (case token of
        Single v \<Rightarrow> v
      | Alts alts \<Rightarrow> str ''['' @ join (str ''|'') alts @ str '']'')"

definition get_allowed_prefixes :: "'a policy \<Rightarrow> ustr list list" where
  "get_allowed_prefixes p =
     remdups_adj (sort
       (concat (map (\<lambda>(program, rules).
          map (\<lambda>r. first (pattern r) # map render_pattern_token (rest (pattern r)))
            (filter (\<lambda>r. rule_decision r = Allow) rules)) (rules_by_program p))))"

definition add_prefix_rule :: "ustr list \<Rightarrow> decision \<Rightarrow> 'a policy \<Rightarrow> policy_error + 'a policy" where
  "add_prefix_rule prefix d p =
     (case prefix of
        [] \<Rightarrow> Inl (InvalidPattern (str ''prefix cannot be empty''))
      | first_token # tokens \<Rightarrow>
          let rule = \<lparr>pattern = \<lparr>first = first_token, rest = map Single tokens\<rparr>,
                      rule_decision = d, justification = None\<rparr>
          in Inr (p\<lparr>rules_by_program := mm_insert first_token rule (rules_by_program p)\<rparr>))"

definition blank_justification :: "ustr option \<Rightarrow> bool" where
  "blank_justification j \<longleftrightarrow> (case j of Some raw \<Rightarrow> trim raw = [] | None \<Rightarrow> False)"

definition policy_add_network_rule ::
  "ustr \<Rightarrow> network_rule_protocol \<Rightarrow> decision \<Rightarrow> ustr option \<Rightarrow> 'a policy \<Rightarrow> policy_error + 'a policy" where
  "policy_add_network_rule raw_host proto d j p =
     and_then (normalize_network_rule_host raw_host) (\<lambda>h.
       if blank_justification j then Inl (InvalidRule (str ''justification cannot be empty''))
       else Inr (p\<lparr>network_rules := network_rules p @
         [\<lparr>host = h, protocol = proto, network_decision = d, network_justification = j\<rparr>]\<rparr>))"

definition set_host_executable_paths :: "ustr \<Rightarrow> 'a list \<Rightarrow> 'a policy \<Rightarrow> 'a policy" where
  "set_host_executable_paths name paths p =
     p\<lparr>host_executables_by_name := AList.update name paths (host_executables_by_name p)\<rparr>"

definition merge_overlay :: "'a policy \<Rightarrow> 'a policy \<Rightarrow> 'a policy" where
  "merge_overlay base overlay =
     \<lparr>rules_by_program =
        fold (\<lambda>(program, rules) m. fold (mm_insert program) rules m)
          (rules_by_program overlay) (rules_by_program base),
      network_rules = network_rules base @ network_rules overlay,
      host_executables_by_name =
        fold (\<lambda>(name, paths). AList.update name paths)
          (host_executables_by_name overlay) (host_executables_by_name base)\<rparr>"

definition upsert_domain :: "ustr list \<Rightarrow> ustr \<Rightarrow> ustr list" where
  "upsert_domain entries h = filter (\<lambda>entry. entry \<noteq> h) entries @ [h]"

definition network_domain_step :: "ustr list \<times> ustr list \<Rightarrow> network_rule \<Rightarrow> ustr list \<times> ustr list" where
  "network_domain_step ad r =
     (case ad of (allowed, denied) \<Rightarrow>
       (case network_decision r of
          Allow \<Rightarrow> (upsert_domain allowed (host r), filter (\<lambda>entry. entry \<noteq> host r) denied)
        | Forbidden \<Rightarrow> (filter (\<lambda>entry. entry \<noteq> host r) allowed, upsert_domain denied (host r))
        | Prompt \<Rightarrow> (allowed, denied)))"

definition compiled_network_domains :: "'a policy \<Rightarrow> ustr list \<times> ustr list" where
  "compiled_network_domains p = foldl network_domain_step ([], []) (network_rules p)"

text \<open>The fingerprint of a requirements policy; \<open>dbg\<close> is the debug output of a rule.\<close>

definition fingerprint :: "(prefix_rule \<Rightarrow> ustr) \<Rightarrow> 'a policy \<Rightarrow> ustr list" where
  "fingerprint dbg p =
     sort (concat (map (\<lambda>(program, rules). map (\<lambda>r. program @ str '':'' @ dbg r) rules) (rules_by_program p)))"

definition requirements_eq :: "(prefix_rule \<Rightarrow> ustr) \<Rightarrow> 'a policy \<Rightarrow> 'a policy \<Rightarrow> bool" where
  "requirements_eq dbg p q \<longleftrightarrow> fingerprint dbg p = fingerprint dbg q"

section \<open>Evaluation\<close>

definition match_exact_rules :: "'a policy \<Rightarrow> ustr list \<Rightarrow> 'a rule_match list option" where
  "match_exact_rules p cmd =
     (case cmd of
        [] \<Rightarrow> None
      | first_word # _ \<Rightarrow>
          Some (List.map_filter (\<lambda>r. rule_matches r cmd)
            (unwrap_or_default (mm_get_vec (rules_by_program p) first_word))))"

definition match_host_executable_rules :: "'a host_paths \<Rightarrow> 'a policy \<Rightarrow> ustr list \<Rightarrow> 'a rule_match list" where
  "match_host_executable_rules H p cmd =
     (case cmd of
        [] \<Rightarrow> []
      | first_word # args \<Rightarrow>
          (case absolute_path H first_word of
             None \<Rightarrow> []
           | Some program \<Rightarrow>
               (case executable_path_lookup_key H program of
                  None \<Rightarrow> []
                | Some basename \<Rightarrow>
                    (case mm_get_vec (rules_by_program p) basename of
                       None \<Rightarrow> []
                     | Some rules \<Rightarrow>
                         if (case map_of (host_executables_by_name p) basename of
                               Some paths \<Rightarrow> \<not> list_ex (\<lambda>path. path = program) paths
                             | None \<Rightarrow> False)
                         then []
                         else map (\<lambda>m. with_resolved_program m program)
                           (List.map_filter (\<lambda>r. rule_matches r (basename # args)) rules)))))"

definition matches_for_command_with_options ::
  "'a host_paths \<Rightarrow> 'a policy \<Rightarrow> ustr list \<Rightarrow> (ustr list \<Rightarrow> decision) option \<Rightarrow> match_options \<Rightarrow>
     'a rule_match list" where
  "matches_for_command_with_options H p cmd heuristics_fallback options =
     (let exact = unwrap_or_default (match_exact_rules p cmd);
          matched_rules =
            (if exact \<noteq> [] then exact
             else if resolve_host_executables options then match_host_executable_rules H p cmd
             else [])
      in if matched_rules = [] then
           (case heuristics_fallback of
              Some fallback \<Rightarrow> [HeuristicsRuleMatch cmd (fallback cmd)]
            | None \<Rightarrow> matched_rules)
         else matched_rules)"

definition matches_for_command ::
  "'a host_paths \<Rightarrow> 'a policy \<Rightarrow> ustr list \<Rightarrow> (ustr list \<Rightarrow> decision) option \<Rightarrow> 'a rule_match list" where
  "matches_for_command H p cmd heuristics_fallback =
     matches_for_command_with_options H p cmd heuristics_fallback default_match_options"

record 'a evaluation =
  eval_decision :: decision
  matched_rules :: "'a rule_match list"

definition is_match :: "'a evaluation \<Rightarrow> bool" where
  "is_match e \<longleftrightarrow>
     list_ex (\<lambda>m. case m of HeuristicsRuleMatch _ _ \<Rightarrow> False | _ \<Rightarrow> True) (matched_rules e)"

text \<open>\<open>None\<close> is the panic of \<^verbatim>\<open>expect\<close> on an empty list.\<close>

definition from_matches :: "'a rule_match list \<Rightarrow> 'a evaluation option" where
  "from_matches ms =
     (case map match_decision ms of
        [] \<Rightarrow> None
      | d # ds \<Rightarrow> Some \<lparr>eval_decision = fold max ds d, matched_rules = ms\<rparr>)"

definition check_with_options ::
  "'a host_paths \<Rightarrow> 'a policy \<Rightarrow> ustr list \<Rightarrow> (ustr list \<Rightarrow> decision) \<Rightarrow> match_options \<Rightarrow>
     'a evaluation option" where
  "check_with_options H p cmd heuristics_fallback options =
     from_matches (matches_for_command_with_options H p cmd (Some heuristics_fallback) options)"

definition check ::
  "'a host_paths \<Rightarrow> 'a policy \<Rightarrow> ustr list \<Rightarrow> (ustr list \<Rightarrow> decision) \<Rightarrow> 'a evaluation option" where
  "check H p cmd heuristics_fallback =
     check_with_options H p cmd heuristics_fallback default_match_options"

definition check_multiple_with_options ::
  "'a host_paths \<Rightarrow> 'a policy \<Rightarrow> ustr list list \<Rightarrow> (ustr list \<Rightarrow> decision) \<Rightarrow> match_options \<Rightarrow>
     'a evaluation option" where
  "check_multiple_with_options H p commands heuristics_fallback options =
     from_matches (concat (map
       (\<lambda>cmd. matches_for_command_with_options H p cmd (Some heuristics_fallback) options) commands))"

definition check_multiple ::
  "'a host_paths \<Rightarrow> 'a policy \<Rightarrow> ustr list list \<Rightarrow> (ustr list \<Rightarrow> decision) \<Rightarrow> 'a evaluation option" where
  "check_multiple H p commands heuristics_fallback =
     check_multiple_with_options H p commands heuristics_fallback default_match_options"

section \<open>Lookup is a scan of the rules\<close>

lemma match_nothing: "List.map_filter (\<lambda>r. rule_matches r []) rs = []"
  by (induction rs) (simp_all add: List.map_filter_simps rule_matches_def matches_prefix_def)

lemma Max_UN:
  fixes F :: "'a \<Rightarrow> 'b::linorder set"
  assumes "finite A" "A \<noteq> {}" "\<And>a. finite (F a)" "\<And>a. F a \<noteq> {}"
  shows "Max (\<Union>a \<in> A. F a) = Max ((\<lambda>a. Max (F a)) ` A)"
proof (intro Max_eqI)
  have "Max ((\<lambda>a. Max (F a)) ` A) \<in> (\<lambda>a. Max (F a)) ` A" using assms by (intro Max_in) auto
  with assms Max_in show "Max ((\<lambda>a. Max (F a)) ` A) \<in> (\<Union>a \<in> A. F a)" by fastforce
qed (use assms in \<open>auto simp: Max_ge_iff intro: Max_ge\<close>)

lemma match_exact_scan:
  "unwrap_or_default (match_exact_rules (policy_new (mm_index rule_program rs)) cmd) =
   List.map_filter (\<lambda>r. rule_matches r cmd) rs"
proof (cases cmd)
  case Nil
  then show ?thesis by (simp add: match_nothing match_exact_rules_def unwrap_or_default_def)
next
  case (Cons w ws)
  have "unwrap_or_default (match_exact_rules (policy_new (mm_index rule_program rs)) (w # ws)) =
      List.map_filter (\<lambda>r. rule_matches r (w # ws))
        (unwrap_or_default (mm_get_vec (mm_index rule_program rs) w))"
    by (simp add: match_exact_rules_def policy_new_def) (simp add: unwrap_or_default_def)
  then show ?thesis unfolding Cons by (rule trans [OF _ prefix_rules.lookup_scan])
qed

text \<open>C11. Looking rules up by the first word of the command finds exactly the rules that match it, in
  the order they were added: the evaluation of a policy is a scan of its rules, with the fallback
  only when no rule matches.\<close>

theorem matches_for_command_scan:
  "matches_for_command H (policy_new (mm_index rule_program rs)) cmd heuristics_fallback =
     (let ms = List.map_filter (\<lambda>r. rule_matches r cmd) rs in
      if ms = [] then
        (case heuristics_fallback of Some fallback \<Rightarrow> [HeuristicsRuleMatch cmd (fallback cmd)] | None \<Rightarrow> [])
      else ms)"
  by (simp add: matches_for_command_def matches_for_command_with_options_def default_match_options_def
      match_exact_scan Let_def)

section \<open>The strictest match decides\<close>

lemma from_matches_eq:
  "from_matches ms =
     (if ms = [] then None
      else Some \<lparr>eval_decision = Max (match_decision ` set ms), matched_rules = ms\<rparr>)"
proof (cases ms)
  case (Cons m ms')
  have "fold max (map match_decision ms') (match_decision m) = Max (set (map match_decision (m # ms')))"
    by (simp only: list.map Max.set_eq_fold)
  with Cons show ?thesis by (simp add: from_matches_def)
qed (simp add: from_matches_def)

lemma matches_with_fallback: "matches_for_command_with_options H p cmd (Some h) options \<noteq> []"
  by (simp add: matches_for_command_with_options_def Let_def)

text \<open>C12. Evaluating a command never panics, there is always a match (the fallback's if no rule's), and
  the strictest match decides.\<close>

theorem check_strictest:
  "\<exists>e. check_with_options H p cmd h options = Some e \<and>
     matched_rules e = matches_for_command_with_options H p cmd (Some h) options \<and>
     matched_rules e \<noteq> [] \<and>
     eval_decision e = Max (match_decision ` set (matched_rules e))"
  using matches_with_fallback [of H p cmd h options]
  by (simp add: check_with_options_def from_matches_eq)

text \<open>Evaluating several commands gives the strictest of their decisions; it panics exactly when
  there is no command.\<close>

theorem check_multiple_strictest:
  "check_multiple_with_options H p commands h options =
     (if commands = [] then None
      else Some \<lparr>eval_decision =
          Max ((\<lambda>cmd. eval_decision (the (check_with_options H p cmd h options))) ` set commands),
        matched_rules = concat (map (\<lambda>cmd. matches_for_command_with_options H p cmd (Some h) options) commands)\<rparr>)"
proof (cases "commands = []")
  case False
  let ?ms = "\<lambda>cmd. matches_for_command_with_options H p cmd (Some h) options"
  have ne: "?ms cmd \<noteq> []" for cmd by (rule matches_with_fallback)
  then have dec: "eval_decision (the (check_with_options H p cmd h options)) = Max (match_decision ` set (?ms cmd))"
    for cmd by (simp add: check_with_options_def from_matches_eq)
  have "Max (match_decision ` (\<Union>cmd \<in> set commands. set (?ms cmd))) =
      Max ((\<lambda>cmd. Max (match_decision ` set (?ms cmd))) ` set commands)"
    using False ne by (simp add: image_UN Max_UN)
  then show ?thesis
    using False ne by (auto simp: check_multiple_with_options_def from_matches_eq dec)
qed (simp add: check_multiple_with_options_def from_matches_eq)

section \<open>Well-formed policies\<close>

text \<open>Keys occur once, and a rule is stored under its own program.\<close>

definition policy_wf :: "'a policy \<Rightarrow> bool" where
  "policy_wf p \<longleftrightarrow>
     distinct (map fst (rules_by_program p)) \<and> distinct (map fst (host_executables_by_name p)) \<and>
     list_all (\<lambda>(program, rules). list_all (\<lambda>r. rule_program r = program) rules) (rules_by_program p)"

lemma mm_insert_keys: "fst ` set (mm_insert k v m) = insert k (fst ` set m)"
  by (induction k v m rule: mm_insert.induct) auto

lemma mm_insert_distinct: "distinct (map fst m) \<Longrightarrow> distinct (map fst (mm_insert k v m))"
  by (induction k v m rule: mm_insert.induct) (auto simp: mm_insert_keys)

lemma mm_insert_rules:
  assumes "list_all (\<lambda>(k, vs). list_all (\<lambda>v. key v = k) vs) m" "key v = k"
  shows "list_all (\<lambda>(k, vs). list_all (\<lambda>v. key v = k) vs) (mm_insert k v m)"
  using assms by (induction k v m rule: mm_insert.induct) auto

lemma policy_wf_insert:
  "policy_wf p \<Longrightarrow> rule_program r = k \<Longrightarrow>
   policy_wf (p\<lparr>rules_by_program := mm_insert k r (rules_by_program p)\<rparr>)"
  by (simp add: policy_wf_def mm_insert_distinct mm_insert_rules)

lemma policy_empty_wf: "policy_wf policy_empty"
  by (simp add: policy_empty_def policy_new_def policy_wf_def)

lemma add_prefix_rule_wf: "policy_wf p \<Longrightarrow> add_prefix_rule prefix d p = Inr p' \<Longrightarrow> policy_wf p'"
  by (auto simp: add_prefix_rule_def Let_def rule_program_def intro!: policy_wf_insert split: list.splits)

lemma add_network_rule_wf: "policy_wf p \<Longrightarrow> policy_add_network_rule h proto d j p = Inr p' \<Longrightarrow> policy_wf p'"
  by (auto simp: policy_add_network_rule_def and_then_eq_Inr policy_wf_def split: if_splits)

lemma set_host_executable_paths_wf: "policy_wf p \<Longrightarrow> policy_wf (set_host_executable_paths name paths p)"
  by (simp add: set_host_executable_paths_def policy_wf_def distinct_update)

definition mm_extend :: "('k, 'v) multimap \<Rightarrow> ('k, 'v) multimap \<Rightarrow> ('k, 'v) multimap" where
  "mm_extend new m = fold (\<lambda>(k, vs) m. fold (mm_insert k) vs m) new m"

lemma mm_insert_fold_wf:
  assumes "list_all (\<lambda>v. key v = k) vs" "distinct (map fst m)"
    "list_all (\<lambda>(k, vs). list_all (\<lambda>v. key v = k) vs) m"
  shows "distinct (map fst (fold (mm_insert k) vs m)) \<and>
    list_all (\<lambda>(k, vs). list_all (\<lambda>v. key v = k) vs) (fold (mm_insert k) vs m)"
  using assms
proof (induction vs arbitrary: m)
  case (Cons v vs)
  then show ?case by (simp add: mm_insert_distinct mm_insert_rules)
qed simp

lemma mm_extend_wf:
  assumes "list_all (\<lambda>(k, vs). list_all (\<lambda>v. key v = k) vs) new" "distinct (map fst m)"
    "list_all (\<lambda>(k, vs). list_all (\<lambda>v. key v = k) vs) m"
  shows "distinct (map fst (mm_extend new m)) \<and>
    list_all (\<lambda>(k, vs). list_all (\<lambda>v. key v = k) vs) (mm_extend new m)"
  using assms
proof (induction new arbitrary: m)
  case (Cons e new)
  obtain k vs where e: "e = (k, vs)" by (cases e)
  with Cons.prems mm_insert_fold_wf [of key k vs m] Cons.IH [of "fold (mm_insert k) vs m"]
  show ?case by (simp add: mm_extend_def)
qed (simp add: mm_extend_def)

lemma update_fold_distinct:
  "distinct (map fst m) \<Longrightarrow> distinct (map fst (fold (\<lambda>(k, v). AList.update k v) new m))"
  by (induction new arbitrary: m) (auto simp: distinct_update split: prod.split)

lemma merge_overlay_wf: "policy_wf base \<Longrightarrow> policy_wf overlay \<Longrightarrow> policy_wf (merge_overlay base overlay)"
  unfolding policy_wf_def merge_overlay_def
  using mm_extend_wf [of rule_program "rules_by_program overlay" "rules_by_program base"]
    update_fold_distinct [of "host_executables_by_name base" "host_executables_by_name overlay"]
  by (simp add: mm_extend_def)

section \<open>Adding rules and overlays\<close>

lemma mm_get_insert_list:
  "unwrap_or_default (mm_get_vec (fold (mm_insert k) vs m) q) =
   unwrap_or_default (mm_get_vec m q) @ (if q = k then vs else [])"
  by (induction vs arbitrary: m) (auto simp: mm_get_insert)

lemma mm_get_extend:
  "distinct (map fst new) \<Longrightarrow>
   unwrap_or_default (mm_get_vec (mm_extend new m) q) =
   unwrap_or_default (mm_get_vec m q) @ unwrap_or_default (mm_get_vec new q)"
proof (induction new arbitrary: m)
  case Nil
  then show ?case by (simp add: mm_extend_def mm_get_vec_def unwrap_or_default_def)
next
  case (Cons e new)
  obtain k vs where e: "e = (k, vs)" by (cases e)
  with Cons.prems have "map_of new k = None" by (simp add: map_of_eq_None_iff)
  with e Cons.prems Cons.IH [of "fold (mm_insert k) vs m"] show ?case
    by (auto simp: mm_extend_def mm_get_insert_list) (auto simp: mm_get_vec_def unwrap_or_default_def)
qed

lemma match_exact_rules_eq:
  "unwrap_or_default (match_exact_rules p cmd) =
     (case cmd of [] \<Rightarrow> []
      | w # _ \<Rightarrow> List.map_filter (\<lambda>r. rule_matches r cmd) (unwrap_or_default (mm_get_vec (rules_by_program p) w)))"
  by (cases cmd) (simp_all add: match_exact_rules_def unwrap_or_default_def)

lemma merge_overlay_exact:
  assumes "policy_wf overlay"
  shows "unwrap_or_default (match_exact_rules (merge_overlay base overlay) cmd) =
    unwrap_or_default (match_exact_rules base cmd) @ unwrap_or_default (match_exact_rules overlay cmd)"
proof -
  have "rules_by_program (merge_overlay base overlay) =
      mm_extend (rules_by_program overlay) (rules_by_program base)"
    by (simp add: merge_overlay_def mm_extend_def)
  with assms show ?thesis
    by (simp add: match_exact_rules_eq mm_get_extend map_filter_append policy_wf_def split: list.split)
qed

text \<open>C13. Merging an overlay never relaxes what the base policy decides: for a command that some rule of
  the base matches, the merged policy finds those matches followed by the overlay's, and its
  decision is at least as strict as the base's.\<close>

theorem merge_overlay_never_relaxes:
  assumes "policy_wf overlay" "unwrap_or_default (match_exact_rules base cmd) \<noteq> []"
  shows "\<exists>b m. check_with_options H base cmd h options = Some b \<and>
    check_with_options H (merge_overlay base overlay) cmd h options = Some m \<and>
    matched_rules m = matched_rules b @ unwrap_or_default (match_exact_rules overlay cmd) \<and>
    eval_decision b \<le> eval_decision m"
  using assms merge_overlay_exact [OF assms(1), of base cmd]
  by (simp add: check_with_options_def matches_for_command_with_options_def Let_def from_matches_eq
      Max_mono image_mono)

lemma list_all2_Single: "list_all2 token_matches (map Single ts) us \<longleftrightarrow> us = ts"
  by (induction ts arbitrary: us) (auto simp: list_all2_Cons1)

lemma rule_matches_literal:
  "rule_matches \<lparr>pattern = \<lparr>first = w, rest = map Single ts\<rparr>, rule_decision = d, justification = j\<rparr> cmd =
     (if take (Suc (length ts)) cmd = w # ts then Some (PrefixRuleMatch (w # ts) d None j) else None)"
proof (cases "take (Suc (length ts)) cmd = w # ts")
  case True
  then have "cmd = (w # ts) @ drop (Suc (length ts)) cmd" by (metis append_take_drop_id)
  then have "matches_prefix \<lparr>first = w, rest = map Single ts\<rparr> cmd = Some (w # ts)"
    by (auto simp: matches_prefix_Some list_all2_Single)
  with True show ?thesis by (simp add: rule_matches_def)
next
  case False
  then have "matches_prefix \<lparr>first = w, rest = map Single ts\<rparr> cmd = None"
    by (cases "matches_prefix \<lparr>first = w, rest = map Single ts\<rparr> cmd")
      (auto simp: matches_prefix_Some list_all2_Single)
  with False show ?thesis by (simp add: rule_matches_def)
qed

text \<open>An added prefix rule matches exactly the commands that start with its words, after every rule
  that was there; an empty prefix is refused.\<close>

lemma add_prefix_rule_matches:
  "(case add_prefix_rule prefix d p of
      Inl e \<Rightarrow> prefix = [] \<and> e = InvalidPattern (str ''prefix cannot be empty'')
    | Inr p' \<Rightarrow> prefix \<noteq> [] \<and>
        unwrap_or_default (match_exact_rules p' cmd) =
          unwrap_or_default (match_exact_rules p cmd) @
          (if take (length prefix) cmd = prefix then [PrefixRuleMatch prefix d None None] else []))"
  by (cases prefix; cases cmd)
    (auto simp: add_prefix_rule_def match_exact_rules_eq mm_get_insert map_filter_append
      List.map_filter_simps rule_matches_literal)

section \<open>Network domains\<close>

text \<open>What the rules say last about a host; a prompting rule says nothing.\<close>

definition network_verdict :: "network_rule list \<Rightarrow> ustr \<Rightarrow> decision option" where
  "network_verdict rs h =
     map_option network_decision (List.find (\<lambda>r. host r = h \<and> network_decision r \<noteq> Prompt) (rev rs))"

lemma network_verdict_snoc:
  "network_verdict (rs @ [r]) h =
     (if host r = h \<and> network_decision r \<noteq> Prompt then Some (network_decision r) else network_verdict rs h)"
  by (simp add: network_verdict_def)

lemma upsert_domain_set [simp]: "set (upsert_domain entries h) = insert h (set entries)"
  by (auto simp: upsert_domain_def)

lemma upsert_domain_distinct [simp]: "distinct entries \<Longrightarrow> distinct (upsert_domain entries h)"
  by (simp add: upsert_domain_def)

definition domains_ok :: "network_rule list \<Rightarrow> ustr list \<times> ustr list \<Rightarrow> bool" where
  "domains_ok rs ad \<longleftrightarrow> (case ad of (allowed, denied) \<Rightarrow>
     distinct allowed \<and> distinct denied \<and>
     set allowed = {h. network_verdict rs h = Some Allow} \<and>
     set denied = {h. network_verdict rs h = Some Forbidden})"

lemma network_domain_step_ok:
  assumes "domains_ok rs ad" shows "domains_ok (rs @ [r]) (network_domain_step ad r)"
  using assms
  by (cases "network_decision r")
    (auto simp: domains_ok_def network_domain_step_def network_verdict_snoc split: prod.splits if_splits)

text \<open>C14. The compiled domain lists follow the last word on every host: a host is allowed exactly when
  the last rule about it that does not prompt allows it, denied exactly when that rule forbids it,
  and no list repeats a host.\<close>

theorem compiled_network_domains_last_rule:
  "case compiled_network_domains p of (allowed, denied) \<Rightarrow>
     distinct allowed \<and> distinct denied \<and>
     set allowed = {h. network_verdict (network_rules p) h = Some Allow} \<and>
     set denied = {h. network_verdict (network_rules p) h = Some Forbidden}"
proof -
  have "domains_ok rs (foldl network_domain_step ([], []) rs)" for rs
  proof (induction rs rule: rev_induct)
    case Nil
    then show ?case by (simp add: domains_ok_def network_verdict_def)
  next
    case (snoc r rs)
    then show ?case by (simp add: network_domain_step_ok)
  qed
  from this [of "network_rules p"] show ?thesis
    by (simp add: domains_ok_def compiled_network_domains_def)
qed

section \<open>Host executables\<close>

text \<open>A rule reached through the name of an absolute program path is safe to use: the path is listed
  whenever the policy lists paths for that name, the match records the path, and the rule really
  matches the command with the program replaced by its name.\<close>

theorem host_executable_match_listed:
  assumes "m \<in> set (match_host_executable_rules H p cmd)"
  shows "\<exists>w args program name r.
    cmd = w # args \<and> absolute_path H w = Some program \<and>
    executable_path_lookup_key H program = Some name \<and>
    (\<forall>paths. map_of (host_executables_by_name p) name = Some paths \<longrightarrow> program \<in> set paths) \<and>
    r \<in> set (unwrap_or_default (mm_get_vec (rules_by_program p) name)) \<and>
    m = PrefixRuleMatch (the (matches_prefix (pattern r) (name # args))) (rule_decision r)
      (Some program) (justification r) \<and>
    matches_prefix (pattern r) (name # args) \<noteq> None"
proof -
  obtain w args where cmd: "cmd = w # args"
    using assms by (cases cmd) (simp_all add: match_host_executable_rules_def)
  with assms obtain program where program: "absolute_path H w = Some program"
    by (cases "absolute_path H w") (simp_all add: match_host_executable_rules_def)
  with cmd assms obtain name where name: "executable_path_lookup_key H program = Some name"
    by (cases "executable_path_lookup_key H program") (simp_all add: match_host_executable_rules_def)
  with cmd program assms obtain rules where rules: "mm_get_vec (rules_by_program p) name = Some rules"
    by (cases "mm_get_vec (rules_by_program p) name") (simp_all add: match_host_executable_rules_def)
  with cmd program name assms have listed: "\<not> (case map_of (host_executables_by_name p) name of
        Some paths \<Rightarrow> \<not> list_ex (\<lambda>path. path = program) paths | None \<Rightarrow> False)"
    and "m \<in> (\<lambda>m. with_resolved_program m program) `
      set (List.map_filter (\<lambda>r. rule_matches r (name # args)) rules)"
    by (simp_all add: match_host_executable_rules_def split: if_splits)
  then obtain r m0 where "r \<in> set rules" "rule_matches r (name # args) = Some m0"
    "m = with_resolved_program m0 program"
    by (auto simp: map_filter_def)
  note parts = cmd program name rules this
  from listed have "\<forall>paths. map_of (host_executables_by_name p) name = Some paths \<longrightarrow> program \<in> set paths"
    by (auto simp: list_ex_iff)
  with parts show ?thesis
    by (intro exI [of _ w] exI [of _ args] exI [of _ program] exI [of _ name] exI [of _ r])
      (auto simp: rule_matches_def unwrap_or_default_def)
qed

section \<open>Requirements\<close>

text \<open>Equality of requirements ignores the order of the programs and of the rules under each.\<close>

lemma requirements_eq_order:
  assumes "mset (concat (map (\<lambda>(k, rs). map (Pair k) rs) (rules_by_program p))) =
    mset (concat (map (\<lambda>(k, rs). map (Pair k) rs) (rules_by_program q)))"
  shows "requirements_eq dbg p q"
proof -
  let ?f = "\<lambda>(program, r). program @ str '':'' @ dbg r"
  have "concat (map (\<lambda>(program, rules). map (\<lambda>r. program @ str '':'' @ dbg r) rules) m) =
      map ?f (concat (map (\<lambda>(k, rs). map (Pair k) rs) m))" for m
    by (simp add: map_concat o_def case_prod_unfold)
  then show ?thesis
    using assms unfolding requirements_eq_def fingerprint_def
    by (intro properties_for_sort) (simp_all del: mset_concat)
qed

section \<open>Allowed prefixes\<close>

lemma sorted_remdups_adj_distinct: "sorted xs \<Longrightarrow> distinct (remdups_adj xs)" for xs :: "'a::linorder list"
proof (induction xs rule: remdups_adj.induct)
  case (3 x y xs)
  then have "x \<noteq> y \<Longrightarrow> x \<notin> set (y # xs)" by force
  with 3 show ?case by simp
qed simp_all

text \<open>The listed prefixes are the rendered patterns of the allowing rules, sorted and without
  repetition.\<close>

lemma get_allowed_prefixes_spec:
  "sorted (get_allowed_prefixes p) \<and> distinct (get_allowed_prefixes p) \<and>
   set (get_allowed_prefixes p) =
     {first (pattern r) # map render_pattern_token (rest (pattern r)) | r program rules.
        (program, rules) \<in> set (rules_by_program p) \<and> r \<in> set rules \<and> rule_decision r = Allow}"
  by (auto simp: get_allowed_prefixes_def sorted_remdups_adj_distinct sorted_remdups_adj)

end
