(* ===== verification/Exec_Parser.thy ===== *)
theory Exec_Parser
  imports Exec_Policy
begin

text \<open>
  \<^verbatim>\<open>codex-rs/execpolicy/src/parser.rs\<close> and the example checks of \<^verbatim>\<open>rule.rs\<close>: the
  builder, the three builtins a policy file calls, and the validation of the examples given with a
  rule. The Starlark evaluator, the splitting and joining of shell words and the syntax of paths are
  parameters, in the record \<open>policy_language\<close>. Since every builtin returns \<^verbatim>\<open>None\<close>, the calls a
  file makes do not depend on what the builtins do, apart from the first failure, which ends the
  evaluation: a file is the list of its calls and the error the evaluator itself may end with.
\<close>

section \<open>Builtin calls\<close>

text \<open>A Starlark value: a string, a list, or anything else with its type name.\<close>

datatype starlark_value = SStr ustr | SList "starlark_value list" | SOther ustr

fun unpack_str :: "starlark_value \<Rightarrow> ustr option" where
  "unpack_str (SStr s) = Some s"
| "unpack_str _ = None"

fun get_type :: "starlark_value \<Rightarrow> ustr" where
  "get_type (SStr s) = str ''string''"
| "get_type (SList vs) = str ''list''"
| "get_type (SOther t) = t"

datatype builtin_call =
    PrefixRuleCall "starlark_value list" "ustr option" "starlark_value list option"
      "starlark_value list option" "ustr option" "error_location option"
  | NetworkRuleCall ustr ustr ustr "ustr option"
  | HostExecutableCall ustr "starlark_value list"

record 'a policy_language =
  hosts :: "'a host_paths"
  eval_module :: "ustr \<Rightarrow> ustr \<Rightarrow> builtin_call list \<times> ustr option"
  builtin_failure :: "policy_error \<Rightarrow> ustr"
  shlex_split :: "ustr \<Rightarrow> ustr list option"
  shlex_try_join :: "ustr list \<Rightarrow> ustr option"
  debug_rule :: "prefix_rule \<Rightarrow> ustr"
  debug_match :: "'a rule_match \<Rightarrow> ustr"
  is_absolute :: "ustr \<Rightarrow> bool"
  absolute_path_failure :: "ustr \<Rightarrow> ustr"
  component_count :: "ustr \<Rightarrow> nat"
  file_name_of :: "ustr \<Rightarrow> ustr option"

section \<open>The builder\<close>

record pending_example_validation =
  pending_rules :: "prefix_rule list"
  pending_matches :: "ustr list list"
  pending_not_matches :: "ustr list list"
  pending_location :: "error_location option"

record 'a policy_builder =
  builder_rules :: "(ustr, prefix_rule) multimap"
  builder_network_rules :: "network_rule list"
  builder_host_executables :: "(ustr \<times> 'a list) list"
  pending_example_validations :: "pending_example_validation list"

definition builder_new :: "'a policy_builder" where
  "builder_new = \<lparr>builder_rules = [], builder_network_rules = [], builder_host_executables = [],
     pending_example_validations = []\<rparr>"

definition add_rule :: "prefix_rule \<Rightarrow> 'a policy_builder \<Rightarrow> 'a policy_builder" where
  "add_rule r b = b\<lparr>builder_rules := mm_insert (rule_program r) r (builder_rules b)\<rparr>"

definition builder_add_network_rule :: "network_rule \<Rightarrow> 'a policy_builder \<Rightarrow> 'a policy_builder" where
  "builder_add_network_rule r b = b\<lparr>builder_network_rules := builder_network_rules b @ [r]\<rparr>"

definition add_host_executable :: "ustr \<Rightarrow> 'a list \<Rightarrow> 'a policy_builder \<Rightarrow> 'a policy_builder" where
  "add_host_executable name paths b =
     b\<lparr>builder_host_executables := AList.update name paths (builder_host_executables b)\<rparr>"

definition add_pending_example_validation ::
  "pending_example_validation \<Rightarrow> 'a policy_builder \<Rightarrow> 'a policy_builder" where
  "add_pending_example_validation v b =
     b\<lparr>pending_example_validations := pending_example_validations b @ [v]\<rparr>"

definition policy_from_parts ::
  "(ustr, prefix_rule) multimap \<Rightarrow> network_rule list \<Rightarrow> (ustr \<times> 'a list) list \<Rightarrow> 'a policy" where
  "policy_from_parts rules network executables =
     \<lparr>rules_by_program = rules, network_rules = network, host_executables_by_name = executables\<rparr>"

definition builder_build :: "'a policy_builder \<Rightarrow> 'a policy" where
  "builder_build b =
     policy_from_parts (builder_rules b) (builder_network_rules b) (builder_host_executables b)"

section \<open>Examples\<close>

definition example_options :: match_options where
  "example_options = \<lparr>resolve_host_executables = True\<rparr>"

definition render_example :: "'a policy_language \<Rightarrow> ustr list \<Rightarrow> ustr" where
  "render_example L example =
     (case shlex_try_join L example of Some s \<Rightarrow> s | None \<Rightarrow> str ''unable to render example'')"

definition validate_match_examples ::
  "'a policy_language \<Rightarrow> 'a policy \<Rightarrow> prefix_rule list \<Rightarrow> ustr list list \<Rightarrow> policy_error + unit" where
  "validate_match_examples L p rules examples =
     (let unmatched_examples =
            map (render_example L) (filter (\<lambda>example.
              matches_for_command_with_options (hosts L) p example None example_options = []) examples)
      in if unmatched_examples = [] then Inr ()
         else Inl (ExampleDidNotMatch (map (debug_rule L) rules) unmatched_examples None))"

fun validate_not_match_examples ::
  "'a policy_language \<Rightarrow> 'a policy \<Rightarrow> ustr list list \<Rightarrow> policy_error + unit" where
  "validate_not_match_examples L p [] = Inr ()"
| "validate_not_match_examples L p (example # examples) =
     (case matches_for_command_with_options (hosts L) p example None example_options of
        m # _ \<Rightarrow> Inl (ExampleDidMatch (debug_match L m) (render_example L example) None)
      | [] \<Rightarrow> validate_not_match_examples L p examples)"

definition attach_validation_location :: "error_location option \<Rightarrow> policy_error + unit \<Rightarrow> policy_error + unit" where
  "attach_validation_location location r =
     (case r of
        Inl e \<Rightarrow> Inl (case location of Some l \<Rightarrow> with_location e l | None \<Rightarrow> e)
      | Inr u \<Rightarrow> Inr u)"

text \<open>The policy made of the rules of one call.\<close>

definition validation_policy :: "'a policy_builder \<Rightarrow> pending_example_validation \<Rightarrow> 'a policy" where
  "validation_policy b v =
     policy_from_parts (mm_index rule_program (pending_rules v)) [] (builder_host_executables b)"

definition validate_pending ::
  "'a policy_language \<Rightarrow> 'a policy_builder \<Rightarrow> pending_example_validation \<Rightarrow> policy_error + unit" where
  "validate_pending L b v =
     (let p = validation_policy b v in
      and_then (attach_validation_location (pending_location v)
          (validate_not_match_examples L p (pending_not_matches v)))
        (\<lambda>_. attach_validation_location (pending_location v)
          (validate_match_examples L p (pending_rules v) (pending_matches v))))"

text \<open>A start beyond the end of the list is the panic of the slice, \<open>None\<close>.\<close>

definition validate_pending_examples_from ::
  "'a policy_language \<Rightarrow> 'a policy_builder \<Rightarrow> nat \<Rightarrow> (policy_error + unit) option" where
  "validate_pending_examples_from L b start =
     (if length (pending_example_validations b) < start then None
      else Some (and_then (try_map (validate_pending L b) (drop start (pending_example_validations b)))
        (\<lambda>_. Inr ())))"

section \<open>Arguments\<close>

text \<open>The strings of a list value, with the error for an element that is none.\<close>

definition string_items :: "(ustr \<Rightarrow> policy_error) \<Rightarrow> starlark_value list \<Rightarrow> policy_error + ustr list" where
  "string_items bad vs =
     try_map (\<lambda>v. case unpack_str v of Some s \<Rightarrow> Inr s | None \<Rightarrow> Inl (bad (get_type v))) vs"

definition parse_pattern_token :: "starlark_value \<Rightarrow> policy_error + pattern_token" where
  "parse_pattern_token v =
     (case v of
        SStr s \<Rightarrow> Inr (Single s)
      | SList vs \<Rightarrow>
          and_then (string_items (\<lambda>t. InvalidPattern
              (str ''pattern alternative must be a string (got '' @ t @ str '')'')) vs)
            (\<lambda>tokens. case tokens of
               [] \<Rightarrow> Inl (InvalidPattern (str ''pattern alternatives cannot be empty''))
             | [single] \<Rightarrow> Inr (Single single)
             | _ \<Rightarrow> Inr (Alts tokens))
      | SOther t \<Rightarrow> Inl (InvalidPattern
          (str ''pattern element must be a string or list of strings (got '' @ t @ str '')'')))"

definition parse_pattern :: "starlark_value list \<Rightarrow> policy_error + pattern_token list" where
  "parse_pattern pattern_values =
     and_then (try_map parse_pattern_token pattern_values) (\<lambda>tokens.
       if tokens = [] then Inl (InvalidPattern (str ''pattern cannot be empty'')) else Inr tokens)"

definition parse_string_example :: "'a policy_language \<Rightarrow> ustr \<Rightarrow> policy_error + ustr list" where
  "parse_string_example L raw =
     (case shlex_split L raw of
        None \<Rightarrow> Inl (InvalidExample (str ''example string has invalid shell syntax''))
      | Some tokens \<Rightarrow>
          if tokens = [] then Inl (InvalidExample (str ''example cannot be an empty string''))
          else Inr tokens)"

definition parse_list_example :: "starlark_value list \<Rightarrow> policy_error + ustr list" where
  "parse_list_example vs =
     and_then (string_items (\<lambda>t. InvalidExample
         (str ''example tokens must be strings (got '' @ t @ str '')'')) vs)
       (\<lambda>tokens. if tokens = [] then Inl (InvalidExample (str ''example cannot be an empty list''))
                  else Inr tokens)"

definition parse_example :: "'a policy_language \<Rightarrow> starlark_value \<Rightarrow> policy_error + ustr list" where
  "parse_example L v =
     (case v of
        SStr raw \<Rightarrow> parse_string_example L raw
      | SList vs \<Rightarrow> parse_list_example vs
      | SOther t \<Rightarrow> Inl (InvalidExample
          (str ''example must be a string or list of strings (got '' @ t @ str '')'')))"

definition parse_examples :: "'a policy_language \<Rightarrow> starlark_value list \<Rightarrow> policy_error + ustr list list" where
  "parse_examples L vs = try_map (parse_example L) vs"

definition parse_literal_absolute_path :: "'a policy_language \<Rightarrow> ustr \<Rightarrow> policy_error + 'a" where
  "parse_literal_absolute_path L raw =
     (if \<not> is_absolute L raw
      then Inl (InvalidRule (str ''host_executable paths must be absolute (got '' @ raw @ str '')''))
      else case absolute_path (hosts L) raw of
             Some path \<Rightarrow> Inr path
           | None \<Rightarrow> Inl (InvalidRule
               (str ''invalid absolute path `'' @ raw @ str ''`: '' @ absolute_path_failure L raw)))"

definition validate_host_executable_name :: "'a policy_language \<Rightarrow> ustr \<Rightarrow> policy_error + unit" where
  "validate_host_executable_name L name =
     (if name = [] then Inl (InvalidRule (str ''host_executable name cannot be empty''))
      else if component_count L name \<noteq> 1 \<or> file_name_of L name \<noteq> Some name
      then Inl (InvalidRule
        (str ''host_executable name must be a bare executable name (got '' @ name @ str '')''))
      else Inr ())"

definition parse_network_rule_decision :: "ustr \<Rightarrow> policy_error + decision" where
  "parse_network_rule_decision raw = (if raw = str ''deny'' then Inr Forbidden else decision_parse raw)"

section \<open>Builtins\<close>

definition optional_decision :: "ustr option \<Rightarrow> policy_error + decision" where
  "optional_decision d = (case d of Some raw \<Rightarrow> decision_parse raw | None \<Rightarrow> Inr Allow)"

definition checked_justification :: "ustr option \<Rightarrow> policy_error + ustr option" where
  "checked_justification j =
     (if blank_justification j then Inl (InvalidRule (str ''justification cannot be empty'')) else Inr j)"

definition optional_examples ::
  "'a policy_language \<Rightarrow> starlark_value list option \<Rightarrow> policy_error + ustr list list" where
  "optional_examples L examples = (case examples of Some vs \<Rightarrow> parse_examples L vs | None \<Rightarrow> Inr [])"

definition pattern_rules :: "pattern_token list \<Rightarrow> decision \<Rightarrow> ustr option \<Rightarrow> prefix_rule list" where
  "pattern_rules tokens d j =
     (case tokens of
        [] \<Rightarrow> []
      | first_token # remaining_tokens \<Rightarrow>
          map (\<lambda>head. \<lparr>pattern = \<lparr>first = head, rest = remaining_tokens\<rparr>, rule_decision = d,
            justification = j\<rparr>) (alternatives first_token))"

definition prefix_rule_builtin ::
  "'a policy_language \<Rightarrow> starlark_value list \<Rightarrow> ustr option \<Rightarrow> starlark_value list option \<Rightarrow>
     starlark_value list option \<Rightarrow> ustr option \<Rightarrow> error_location option \<Rightarrow> 'a policy_builder \<Rightarrow>
     policy_error + 'a policy_builder" where
  "prefix_rule_builtin L pattern_values raw_decision match_values not_match_values raw_justification location b =
     and_then (optional_decision raw_decision) (\<lambda>d.
     and_then (checked_justification raw_justification) (\<lambda>j.
     and_then (parse_pattern pattern_values) (\<lambda>tokens.
     and_then (optional_examples L match_values) (\<lambda>matches.
     and_then (optional_examples L not_match_values) (\<lambda>not_matches.
       let rules = pattern_rules tokens d j;
           v = \<lparr>pending_rules = rules, pending_matches = matches, pending_not_matches = not_matches,
                pending_location = location\<rparr>
       in Inr (fold add_rule rules (add_pending_example_validation v b)))))))"

definition network_rule_builtin ::
  "ustr \<Rightarrow> ustr \<Rightarrow> ustr \<Rightarrow> ustr option \<Rightarrow> 'a policy_builder \<Rightarrow> policy_error + 'a policy_builder" where
  "network_rule_builtin raw_host raw_protocol raw_decision raw_justification b =
     and_then (protocol_parse raw_protocol) (\<lambda>proto.
     and_then (parse_network_rule_decision raw_decision) (\<lambda>d.
     and_then (checked_justification raw_justification) (\<lambda>j.
     and_then (normalize_network_rule_host raw_host) (\<lambda>h.
       Inr (builder_add_network_rule
         \<lparr>host = h, protocol = proto, network_decision = d, network_justification = j\<rparr> b)))))"

definition basename_error :: "ustr \<Rightarrow> ustr \<Rightarrow> policy_error" where
  "basename_error raw name =
     InvalidRule (str ''host_executable path `'' @ raw @ str ''` must have basename `'' @ name @ str ''`'')"

definition host_executable_path :: "'a policy_language \<Rightarrow> ustr \<Rightarrow> starlark_value \<Rightarrow> policy_error + 'a" where
  "host_executable_path L name v =
     (case unpack_str v of
        None \<Rightarrow> Inl (InvalidRule
          (str ''host_executable paths must be strings (got '' @ get_type v @ str '')''))
      | Some raw \<Rightarrow>
          and_then (parse_literal_absolute_path L raw) (\<lambda>path.
            case executable_path_lookup_key (hosts L) path of
              None \<Rightarrow> Inl (basename_error raw name)
            | Some path_name \<Rightarrow>
                if path_name \<noteq> executable_lookup_key (on_windows (hosts L)) name
                then Inl (basename_error raw name)
                else Inr path))"

fun host_executable_paths ::
  "'a policy_language \<Rightarrow> ustr \<Rightarrow> 'a list \<Rightarrow> starlark_value list \<Rightarrow> policy_error + 'a list" where
  "host_executable_paths L name parsed_paths [] = Inr parsed_paths"
| "host_executable_paths L name parsed_paths (v # vs) =
     and_then (host_executable_path L name v) (\<lambda>path.
       host_executable_paths L name
         (if list_ex (\<lambda>existing. existing = path) parsed_paths then parsed_paths else parsed_paths @ [path]) vs)"

definition host_executable_builtin ::
  "'a policy_language \<Rightarrow> ustr \<Rightarrow> starlark_value list \<Rightarrow> 'a policy_builder \<Rightarrow> policy_error + 'a policy_builder" where
  "host_executable_builtin L name path_values b =
     and_then (validate_host_executable_name L name) (\<lambda>_.
     and_then (host_executable_paths L name [] path_values) (\<lambda>paths.
       Inr (add_host_executable (executable_lookup_key (on_windows (hosts L)) name) paths b)))"

section \<open>Parsing a file\<close>

fun call_builtin ::
  "'a policy_language \<Rightarrow> builtin_call \<Rightarrow> 'a policy_builder \<Rightarrow> policy_error + 'a policy_builder" where
  "call_builtin L (PrefixRuleCall pat d ms nms j location) b = prefix_rule_builtin L pat d ms nms j location b"
| "call_builtin L (NetworkRuleCall h proto d j) b = network_rule_builtin h proto d j b"
| "call_builtin L (HostExecutableCall name paths) b = host_executable_builtin L name paths b"

text \<open>The first failing call ends the evaluation; what earlier calls did to the builder stays.\<close>

definition builtin_step ::
  "'a policy_language \<Rightarrow> 'a policy_builder \<Rightarrow> builtin_call \<Rightarrow> 'a policy_builder \<times> (policy_error + unit)" where
  "builtin_step L b c = (case call_builtin L c b of Inl e \<Rightarrow> (b, Inl e) | Inr b' \<Rightarrow> (b', Inr ()))"

definition parse_policy ::
  "'a policy_language \<Rightarrow> ustr \<Rightarrow> ustr \<Rightarrow> 'a policy_builder \<Rightarrow>
     'a policy_builder \<times> (policy_error + unit) option" where
  "parse_policy L policy_identifier policy_file_contents b =
     (let pending_validation_count = length (pending_example_validations b);
          (calls, failure) = eval_module L policy_identifier policy_file_contents
      in case try_fold (builtin_step L) b calls of
           (b', Inl e) \<Rightarrow> (b', Some (Inl (Starlark (builtin_failure L e))))
         | (b', Inr u) \<Rightarrow>
             (case failure of
                Some msg \<Rightarrow> (b', Some (Inl (Starlark msg)))
              | None \<Rightarrow> (b', validate_pending_examples_from L b' pending_validation_count)))"

end
