(* ===== verification/Exec_Parser_Laws.thy ===== *)
theory Exec_Parser_Laws
  imports Exec_Parser Streaming
begin

text \<open>
  What parsing a policy file guarantees: the rules a \<^verbatim>\<open>prefix_rule\<close> call adds match exactly
  the commands its pattern describes, the builder stays well formed through every file, parsed or
  refused, and a file is accepted only if the examples it gives are true.
\<close>

section \<open>The rules of a pattern\<close>

lemma fold_add_rule:
  "builder_rules (fold add_rule rs b) = fold (\<lambda>r. mm_insert (rule_program r) r) rs (builder_rules b)"
  "builder_network_rules (fold add_rule rs b) = builder_network_rules b"
  "builder_host_executables (fold add_rule rs b) = builder_host_executables b"
  "pending_example_validations (fold add_rule rs b) = pending_example_validations b"
  by (induction rs arbitrary: b) (simp_all add: add_rule_def)

lemma tokens_match_Cons:
  "tokens_match (t # ts) cmd \<longleftrightarrow> (\<exists>w ws. cmd = w # ws \<and> token_matches t w \<and> tokens_match ts ws)"
  by (cases cmd) (auto simp: tokens_match_def)

lemma rule_matches_tokens:
  "rule_matches r cmd =
     (if tokens_match (Single (rule_program r) # rest (pattern r)) cmd
      then Some (PrefixRuleMatch (take (Suc (length (rest (pattern r)))) cmd) (rule_decision r) None (justification r))
      else None)"
proof (cases "matches_prefix (pattern r) cmd")
  case None
  with matches_prefix_tokens [of "pattern r" cmd] show ?thesis
    by (simp add: rule_matches_def rule_program_def)
next
  case (Some m)
  then have "m = take (Suc (length (rest (pattern r)))) cmd"
    by (auto simp: matches_prefix_Some list_all2_lengthD)
  with Some matches_prefix_tokens [of "pattern r" cmd] show ?thesis
    by (simp add: rule_matches_def rule_program_def)
qed

lemma map_filter_const:
  "List.map_filter (\<lambda>r. if P r then Some c else None) rs = replicate (length (filter P rs)) c"
  by (induction rs) (simp_all add: List.map_filter_simps)

lemma length_filter_eq: "length (filter (\<lambda>x. x = w) xs) = count_list xs w"
  by (induction xs) auto

lemma pattern_rules_filter:
  "length (filter (\<lambda>r. rule_program r = w) (pattern_rules (t # ts) d j)) = count_list (alternatives t) w"
  by (simp add: pattern_rules_def rule_program_def filter_map o_def length_filter_eq)

lemma pattern_rules_matches:
  "List.map_filter (\<lambda>r. rule_matches r (w # ws))
     (filter (\<lambda>r. rule_program r = w) (pattern_rules (t # ts) d j)) =
   (if tokens_match ts ws
    then replicate (count_list (alternatives t) w) (PrefixRuleMatch (take (Suc (length ts)) (w # ws)) d None j)
    else [])"
proof -
  have "List.map_filter (\<lambda>r. rule_matches r (w # ws)) (filter (\<lambda>r. rule_program r = w) rs) =
      List.map_filter (\<lambda>r. if tokens_match ts ws
        then Some (PrefixRuleMatch (take (Suc (length ts)) (w # ws)) d None j) else None)
        (filter (\<lambda>r. rule_program r = w) rs)"
    if "\<forall>r \<in> set rs. rest (pattern r) = ts \<and> rule_decision r = d \<and> justification r = j" for rs
    using that
    by (induction rs) (auto simp: List.map_filter_simps rule_matches_tokens tokens_match_Cons)
  from this [of "pattern_rules (t # ts) d j"] pattern_rules_filter [of w t ts d j]
  show ?thesis
    by (simp add: map_filter_const) (auto simp: pattern_rules_def)
qed

lemma prefix_rule_builtin_rules:
  assumes "prefix_rule_builtin L pat raw ms nms rj location b = Inr b'"
  obtains d j tokens matches not_matches where
    "optional_decision raw = Inr d" "checked_justification rj = Inr j" "parse_pattern pat = Inr tokens"
    "b' = fold add_rule (pattern_rules tokens d j)
       (add_pending_example_validation \<lparr>pending_rules = pattern_rules tokens d j, pending_matches = matches,
          pending_not_matches = not_matches, pending_location = location\<rparr> b)"
  using assms by (auto simp: prefix_rule_builtin_def and_then_eq_Inr Let_def)

lemma parse_pattern_nonempty: "parse_pattern pat = Inr tokens \<Longrightarrow> tokens \<noteq> []"
  by (auto simp: parse_pattern_def and_then_eq_Inr split: if_splits)

text \<open>A pattern means what it says: after a successful \<^verbatim>\<open>prefix_rule\<close> call the policy finds
  what it found before and, for exactly the commands whose words are allowed position by position,
  the new rule's match over the words of the pattern (once for each time the first word is listed).\<close>

theorem prefix_rule_builtin_matches:
  assumes "prefix_rule_builtin L pat raw ms nms rj location b = Inr b'"
  shows "\<exists>t ts d. parse_pattern pat = Inr (t # ts) \<and> optional_decision raw = Inr d \<and>
    unwrap_or_default (match_exact_rules (builder_build b') cmd) =
      unwrap_or_default (match_exact_rules (builder_build b) cmd) @
      (if tokens_match (t # ts) cmd
       then replicate (count_list (alternatives t) (hd cmd))
         (PrefixRuleMatch (take (Suc (length ts)) cmd) d None rj)
       else [])"
proof -
  obtain d j tokens matches not_matches where parts: "optional_decision raw = Inr d"
    "checked_justification rj = Inr j" "parse_pattern pat = Inr tokens"
    and b': "b' = fold add_rule (pattern_rules tokens d j)
       (add_pending_example_validation \<lparr>pending_rules = pattern_rules tokens d j, pending_matches = matches,
          pending_not_matches = not_matches, pending_location = location\<rparr> b)"
    using assms by (rule prefix_rule_builtin_rules)
  obtain t ts where tokens: "tokens = t # ts"
    using parts(3) parse_pattern_nonempty by (cases tokens) auto
  from parts(2) have j: "j = rj" by (auto simp: checked_justification_def split: if_splits)
  have rules: "rules_by_program (builder_build b') =
      fold (\<lambda>r. mm_insert (rule_program r) r) (pattern_rules tokens d j) (rules_by_program (builder_build b))"
    by (simp add: b' builder_build_def policy_from_parts_def fold_add_rule add_pending_example_validation_def)
  have "unwrap_or_default (match_exact_rules (builder_build b') cmd) =
      unwrap_or_default (match_exact_rules (builder_build b) cmd) @
      (if tokens_match (t # ts) cmd
       then replicate (count_list (alternatives t) (hd cmd)) (PrefixRuleMatch (take (Suc (length ts)) cmd) d None j)
       else [])"
  proof (cases cmd)
    case Nil
    then show ?thesis by (simp add: match_exact_rules_eq tokens_match_Cons)
  next
    case (Cons w ws)
    have "tokens_match (t # ts) (w # ws) \<longleftrightarrow> w \<in> set (alternatives t) \<and> tokens_match ts ws"
      by (simp add: tokens_match_Cons token_matches_alternatives)
    with Cons show ?thesis
      by (auto simp: match_exact_rules_eq rules mm_get_fold map_filter_append tokens pattern_rules_matches
          count_notin)
  qed
  with parts tokens j show ?thesis by auto
qed

section \<open>What every file keeps\<close>

text \<open>The rules form a well-formed policy, every listed path of an executable has the name it is listed
  under and is listed once, and every network host is clean.\<close>

definition builder_ok :: "'a policy_language \<Rightarrow> 'a policy_builder \<Rightarrow> bool" where
  "builder_ok L b \<longleftrightarrow>
     policy_wf (builder_build b) \<and>
     list_all (\<lambda>(name, paths). distinct paths \<and>
       list_all (\<lambda>path. executable_path_lookup_key (hosts L) path = Some name) paths) (builder_host_executables b) \<and>
     list_all (\<lambda>r. clean_host (host r)) (builder_network_rules b)"

text \<open>A later builder finds at least what an earlier one found, in the same order.\<close>

definition builder_grows :: "'a policy_builder \<Rightarrow> 'a policy_builder \<Rightarrow> bool" where
  "builder_grows b b' \<longleftrightarrow>
     (\<forall>cmd. \<exists>ms. unwrap_or_default (match_exact_rules (builder_build b') cmd) =
        unwrap_or_default (match_exact_rules (builder_build b) cmd) @ ms) \<and>
     (\<exists>rs. builder_network_rules b' = builder_network_rules b @ rs) \<and>
     (\<exists>vs. pending_example_validations b' = pending_example_validations b @ vs)"

lemma builder_grows_refl: "builder_grows b b"
  by (simp add: builder_grows_def)

lemma builder_grows_trans:
  assumes "builder_grows a b" "builder_grows b c" shows "builder_grows a c"
proof -
  have "\<exists>ms. unwrap_or_default (match_exact_rules (builder_build c) cmd) =
      unwrap_or_default (match_exact_rules (builder_build a) cmd) @ ms" for cmd
    using assms unfolding builder_grows_def by (metis append.assoc)
  moreover from assms have "\<exists>rs. builder_network_rules c = builder_network_rules a @ rs"
    "\<exists>vs. pending_example_validations c = pending_example_validations a @ vs"
    unfolding builder_grows_def by (metis append.assoc)+
  ultimately show ?thesis unfolding builder_grows_def by blast
qed

lemma match_exact_rules_only:
  "rules_by_program p = rules_by_program q \<Longrightarrow> match_exact_rules p cmd = match_exact_rules q cmd"
  by (simp add: match_exact_rules_def split: list.split)

lemma add_rule_ok: "builder_ok L b \<Longrightarrow> builder_ok L (add_rule r b)"
  using policy_wf_insert [of "builder_build b" r "rule_program r"]
  by (simp add: builder_ok_def add_rule_def builder_build_def policy_from_parts_def)

lemma add_rules_ok: "builder_ok L b \<Longrightarrow> builder_ok L (fold add_rule rs b)"
  by (induction rs arbitrary: b) (simp_all add: add_rule_ok)

lemma add_rules_grows:
  "builder_grows b (fold add_rule rs (add_pending_example_validation v b))"
  by (auto simp: builder_grows_def fold_add_rule add_pending_example_validation_def builder_build_def
      policy_from_parts_def match_exact_rules_eq mm_get_fold map_filter_append split: list.split)

lemma add_pending_ok: "builder_ok L b \<Longrightarrow> builder_ok L (add_pending_example_validation v b)"
  by (simp add: builder_ok_def add_pending_example_validation_def builder_build_def)

lemma prefix_rule_builtin_ok:
  assumes "prefix_rule_builtin L pat raw ms nms rj location b = Inr b'"
  shows "builder_grows b b'" "builder_ok L b \<Longrightarrow> builder_ok L b'"
  using assms by (auto elim!: prefix_rule_builtin_rules intro: add_rules_grows add_rules_ok add_pending_ok)

lemma network_rule_builtin_ok:
  assumes "network_rule_builtin h proto d j b = Inr b'"
  shows "builder_grows b b'" "builder_ok L b \<Longrightarrow> builder_ok L b'"
  using assms
  by (auto simp: network_rule_builtin_def and_then_eq_Inr builder_add_network_rule_def builder_grows_def
      builder_ok_def builder_build_def policy_from_parts_def policy_wf_def match_exact_rules_def
      normalize_network_rule_host_clean split: list.split)

lemma host_executable_paths_ok:
  assumes "host_executable_paths L name paths vs = Inr paths'" "distinct paths"
    "list_all (\<lambda>path. executable_path_lookup_key (hosts L) path =
       Some (executable_lookup_key (on_windows (hosts L)) name)) paths"
  shows "distinct paths' \<and> list_all (\<lambda>path. executable_path_lookup_key (hosts L) path =
       Some (executable_lookup_key (on_windows (hosts L)) name)) paths'"
  using assms
proof (induction vs arbitrary: paths)
  case (Cons v vs)
  then obtain path where path: "host_executable_path L name v = Inr path"
    and "host_executable_paths L name
      (if list_ex (\<lambda>existing. existing = path) paths then paths else paths @ [path]) vs = Inr paths'"
    by (auto simp: and_then_eq_Inr)
  moreover from path have "executable_path_lookup_key (hosts L) path =
      Some (executable_lookup_key (on_windows (hosts L)) name)"
    by (auto simp: host_executable_path_def and_then_eq_Inr split: option.splits if_splits)
  ultimately show ?case
    using Cons.prems Cons.IH [of paths] Cons.IH [of "paths @ [path]"] by (auto simp: list_ex_iff split: if_splits)
qed simp

lemma set_alist_update: "set (AList.update k v al) \<subseteq> insert (k, v) (set al)"
  by (induction al) auto

lemma host_executable_builtin_ok:
  assumes "host_executable_builtin L name vs b = Inr b'"
  shows "builder_grows b b'" "builder_ok L b \<Longrightarrow> builder_ok L b'"
proof -
  obtain paths where paths: "host_executable_paths L name [] vs = Inr paths"
    and b': "b' = add_host_executable (executable_lookup_key (on_windows (hosts L)) name) paths b"
    using assms by (auto simp: host_executable_builtin_def and_then_eq_Inr)
  show "builder_grows b b'"
    by (auto simp: b' builder_grows_def add_host_executable_def builder_build_def policy_from_parts_def
        match_exact_rules_def split: list.split)
  show "builder_ok L b'" if "builder_ok L b"
    using that host_executable_paths_ok [OF paths]
    by (auto dest!: subsetD [OF set_alist_update] simp: b' builder_ok_def add_host_executable_def builder_build_def policy_from_parts_def
        policy_wf_def distinct_update list_all_iff)
qed

lemma call_builtin_ok:
  assumes "call_builtin L c b = Inr b'"
  shows "builder_grows b b'" "builder_ok L b \<Longrightarrow> builder_ok L b'"
  using assms
  by (cases c; auto dest: prefix_rule_builtin_ok network_rule_builtin_ok host_executable_builtin_ok)+

interpretation builtins: step_relation "builtin_step L" "builder_ok L" builder_grows
  for L :: "'a policy_language"
proof
  fix b c :: "'a policy_builder" and e r
  show "builder_grows b b" by (rule builder_grows_refl)
  show "builder_grows a c" if "builder_grows a b" "builder_grows b c" for a b c :: "'a policy_builder"
    using that by (rule builder_grows_trans)
  assume "builder_ok L b" "builtin_step L b e = (c, r)"
  then show "builder_ok L c" "builder_grows b c"
    by (auto simp: builtin_step_def builder_grows_refl dest: call_builtin_ok split: sum.splits)
qed

lemma parse_policy_eq:
  "parse_policy L policy_identifier contents b =
     (case try_fold (builtin_step L) b (fst (eval_module L policy_identifier contents)) of
        (b', q) \<Rightarrow> (b',
          (case q of
             Inl e \<Rightarrow> Some (Inl (Starlark (builtin_failure L e)))
           | Inr u \<Rightarrow>
               (case snd (eval_module L policy_identifier contents) of
                  Some msg \<Rightarrow> Some (Inl (Starlark msg))
                | None \<Rightarrow> validate_pending_examples_from L b' (length (pending_example_validations b))))))"
  by (auto simp: parse_policy_def Let_def split: prod.splits sum.splits option.splits)

lemma parse_policy_run:
  assumes "parse_policy L policy_identifier contents b = (b', r)" "builder_ok L b"
  obtains q where "try_fold (builtin_step L) b (fst (eval_module L policy_identifier contents)) = (b', q)"
    and "r = (case q of
             Inl e \<Rightarrow> Some (Inl (Starlark (builtin_failure L e)))
           | Inr u \<Rightarrow>
               (case snd (eval_module L policy_identifier contents) of
                  Some msg \<Rightarrow> Some (Inl (Starlark msg))
                | None \<Rightarrow> validate_pending_examples_from L b' (length (pending_example_validations b))))"
    and "builder_grows b b'" "builder_ok L b'"
    and "length (pending_example_validations b) \<le> length (pending_example_validations b')"
proof -
  obtain b1 q where run: "try_fold (builtin_step L) b (fst (eval_module L policy_identifier contents)) = (b1, q)"
    by fastforce
  from builtins.try_fold_rel [OF assms(2) run] have "builder_grows b b1" .
  moreover from this have "length (pending_example_validations b) \<le> length (pending_example_validations b1)"
    by (auto simp: builder_grows_def)
  ultimately show ?thesis
    using that run assms(1) builtins.try_fold_inv [OF assms(2) run] by (auto simp: parse_policy_eq)
qed

text \<open>Parsing a policy file, accepted or refused, keeps the builder well formed (rules under their own
  program, listed paths with the right name, clean network hosts), removes nothing earlier files
  added, and does not panic.\<close>

theorem parse_policy_keeps:
  assumes "parse_policy L policy_identifier contents b = (b', r)" "builder_ok L b"
  shows "builder_ok L b' \<and> builder_grows b b' \<and> r \<noteq> None"
  using assms
  by (rule parse_policy_run) (auto simp: validate_pending_examples_from_def split: sum.splits option.splits)

section \<open>Examples are true\<close>

lemma attach_Inr [simp]: "attach_validation_location l r = Inr () \<longleftrightarrow> r = Inr ()"
  by (cases r) (simp_all add: attach_validation_location_def)

lemma validate_match_examples_iff:
  "validate_match_examples L p rs es = Inr () \<longleftrightarrow>
     (\<forall>e \<in> set es. matches_for_command_with_options (hosts L) p e None example_options \<noteq> [])"
  by (auto simp: validate_match_examples_def Let_def filter_empty_conv)

lemma validate_not_match_examples_iff:
  "validate_not_match_examples L p es = Inr () \<longleftrightarrow>
     (\<forall>e \<in> set es. matches_for_command_with_options (hosts L) p e None example_options = [])"
  by (induction es) (auto split: list.splits)

lemma validate_pending_iff:
  "validate_pending L b v = Inr () \<longleftrightarrow>
     (\<forall>e \<in> set (pending_not_matches v).
        matches_for_command_with_options (hosts L) (validation_policy b v) e None example_options = []) \<and>
     (\<forall>e \<in> set (pending_matches v).
        matches_for_command_with_options (hosts L) (validation_policy b v) e None example_options \<noteq> [])"
  by (auto simp: validate_pending_def Let_def and_then_eq_Inr validate_match_examples_iff
      validate_not_match_examples_iff)

lemma validate_pending_examples_iff:
  "validate_pending_examples_from L b n = Some (Inr ()) \<longleftrightarrow>
     n \<le> length (pending_example_validations b) \<and>
     (\<forall>v \<in> set (drop n (pending_example_validations b)). validate_pending L b v = Inr ())"
proof -
  have "list_all2 (\<lambda>v u. validate_pending L b v = Inr u) vs (replicate (length vs) ()) \<longleftrightarrow>
      (\<forall>v \<in> set vs. validate_pending L b v = Inr ())" for vs
    by (induction vs) auto
  moreover have "us = replicate (length us) ()" for us :: "unit list"
    by (induction us) auto
  ultimately have "(\<exists>us. try_map (validate_pending L b) vs = Inr us) \<longleftrightarrow>
      (\<forall>v \<in> set vs. validate_pending L b v = Inr ())" for vs
    by (metis try_map_Inr list_all2_lengthD)
  then show ?thesis by (auto simp: validate_pending_examples_from_def and_then_eq_Inr)
qed

text \<open>C15. A policy file is accepted exactly when it evaluates and its examples are true: every command
  given as a match is matched, and every command given as a non-match is not matched, by the rules
  of the call that gave it.\<close>

theorem parse_policy_examples:
  assumes "parse_policy L policy_identifier contents b = (b', r)" "builder_ok L b"
  shows "r = Some (Inr ()) \<longleftrightarrow>
    try_fold (builtin_step L) b (fst (eval_module L policy_identifier contents)) = (b', Inr ()) \<and>
    snd (eval_module L policy_identifier contents) = None \<and>
    (\<forall>v \<in> set (drop (length (pending_example_validations b)) (pending_example_validations b')).
      (\<forall>e \<in> set (pending_not_matches v).
        matches_for_command_with_options (hosts L) (validation_policy b' v) e None example_options = []) \<and>
      (\<forall>e \<in> set (pending_matches v).
        matches_for_command_with_options (hosts L) (validation_policy b' v) e None example_options \<noteq> []))"
  using assms
  by (rule parse_policy_run)
    (auto simp: validate_pending_examples_iff validate_pending_iff split: sum.splits option.splits)

end
