(* ===== verification/Exec_Amend.thy ===== *)
theory Exec_Amend
  imports Exec_Rule
begin

text \<open>
  Changing a policy file: \<^verbatim>\<open>codex-rs/execpolicy/src/amend.rs\<close>, which appends a rule the user
  approved, and \<^verbatim>\<open>sandbox_migration.rs\<close>, which once removes allow rules that are no longer
  offered. The files are a world \<open>'w\<close> behind the operations of the record \<open>policy_files\<close>; writing and
  reading JSON strings (\<^verbatim>\<open>serde_json\<close>) are parameters in the record \<open>json_codec\<close>.
\<close>

section \<open>Parameters\<close>

record ('w, 'p) policy_files =
  path_parent :: "'p \<Rightarrow> 'p option"
  home_join :: "'p \<Rightarrow> ustr \<Rightarrow> 'p"
  io_create_dir :: "'p \<Rightarrow> ('w, io_error, unit) effect"
  io_create_dir_all :: "'p \<Rightarrow> ('w, io_error, unit) effect"
  io_open_append :: "'p \<Rightarrow> ('w, io_error, unit) effect"
  io_lock :: "'p \<Rightarrow> ('w, io_error, unit) effect"
  io_seek_start :: "'p \<Rightarrow> ('w, io_error, unit) effect"
  io_read_to_string :: "'p \<Rightarrow> ('w, io_error, ustr) effect"
  io_append :: "'p \<Rightarrow> ustr \<Rightarrow> ('w, io_error, unit) effect"
  io_try_exists :: "'p \<Rightarrow> ('w, io_error, bool) effect"
  io_open_write :: "'p \<Rightarrow> ('w, io_error, unit) effect"
  io_write_at_start :: "'p \<Rightarrow> ustr \<Rightarrow> ('w, io_error, unit) effect"
  io_set_len_of :: "'p \<Rightarrow> ustr \<Rightarrow> ('w, io_error, unit) effect"
  io_persist_noclobber :: "'p \<Rightarrow> 'p \<Rightarrow> ustr \<Rightarrow> ('w, io_error, unit) effect"

record json_codec =
  json_to_string :: "ustr \<Rightarrow> ustr + ustr"
  json_from_str :: "ustr \<Rightarrow> ustr list option"
  debug_strings :: "ustr list \<Rightarrow> ustr"

section \<open>Appending a rule\<close>

datatype 'p amend_error =
    EmptyPrefix
  | InvalidNetworkRule ustr
  | MissingParent 'p
  | CreatePolicyDir 'p io_error
  | SerializePrefix ustr
  | SerializeNetworkRule ustr
  | OpenPolicyFile 'p io_error
  | WritePolicyFile 'p io_error
  | LockPolicyFile 'p io_error
  | SeekPolicyFile 'p io_error
  | ReadPolicyFile 'p io_error
  | PolicyMetadata 'p io_error

fun policy_error_display :: "json_codec \<Rightarrow> policy_error \<Rightarrow> ustr" where
  "policy_error_display J (InvalidDecision m) = str ''invalid decision: '' @ m"
| "policy_error_display J (InvalidPattern m) = str ''invalid pattern element: '' @ m"
| "policy_error_display J (InvalidExample m) = str ''invalid example: '' @ m"
| "policy_error_display J (InvalidRule m) = str ''invalid rule: '' @ m"
| "policy_error_display J (ExampleDidNotMatch rules examples location) =
     str ''expected every example to match at least one rule. rules: '' @ debug_strings J rules @
     str ''; unmatched examples: '' @ debug_strings J examples"
| "policy_error_display J (ExampleDidMatch rule example location) =
     str ''expected example to not match rule `'' @ rule @ str ''`: '' @ example"
| "policy_error_display J (Starlark m) = str ''starlark error: '' @ m"

definition append_locked_line ::
  "('w, 'p) policy_files \<Rightarrow> 'p \<Rightarrow> ustr \<Rightarrow> ('w, 'p amend_error, unit) effect" where
  "append_locked_line F policy_path line =
     io_then (io_map_err (OpenPolicyFile policy_path) (io_open_append F policy_path)) (\<lambda>_.
     io_then (io_map_err (LockPolicyFile policy_path) (io_lock F policy_path)) (\<lambda>_.
     io_then (io_map_err (SeekPolicyFile policy_path) (io_seek_start F policy_path)) (\<lambda>_.
     io_then (io_map_err (ReadPolicyFile policy_path) (io_read_to_string F policy_path)) (\<lambda>contents.
       if list_ex (\<lambda>existing. existing = line) (lines contents) then io_pure (Inr ())
       else
         io_then
           (if contents \<noteq> [] \<and> \<not> ends_with [LF] contents
            then io_map_err (WritePolicyFile policy_path) (io_append F policy_path [LF])
            else io_pure (Inr ()))
           (\<lambda>_. io_map_err (WritePolicyFile policy_path) (io_append F policy_path (line @ [LF])))))))"

text \<open>An \<^verbatim>\<open>AlreadyExists\<close> error counts as success.\<close>

definition ignore_existing :: "('w, io_error, unit) effect \<Rightarrow> ('w, io_error, unit) effect" where
  "ignore_existing m w =
     (case m w of
        (w', Inr u) \<Rightarrow> (w', Inr ())
      | (w', Inl (IoErr kind msg)) \<Rightarrow>
          if kind = AlreadyExists then (w', Inr ()) else (w', Inl (IoErr kind msg)))"

definition create_policy_dir ::
  "('w, 'p) policy_files \<Rightarrow> 'p \<Rightarrow> ('w, 'p amend_error, unit) effect" where
  "create_policy_dir F dir = io_map_err (CreatePolicyDir dir) (ignore_existing (io_create_dir F dir))"

definition append_rule_line ::
  "('w, 'p) policy_files \<Rightarrow> 'p \<Rightarrow> ustr \<Rightarrow> ('w, 'p amend_error, unit) effect" where
  "append_rule_line F policy_path rule =
     (case path_parent F policy_path of
        None \<Rightarrow> io_pure (Inl (MissingParent policy_path))
      | Some dir \<Rightarrow>
          io_then (create_policy_dir F dir) (\<lambda>_. append_locked_line F policy_path rule))"

definition allow_rule_line :: "ustr list \<Rightarrow> ustr" where
  "allow_rule_line tokens =
     str ''prefix_rule(pattern='' @ (str ''['' @ join (str '', '') tokens @ str '']'') @
     str '', decision=\"allow\")''"

definition map_err :: "('e \<Rightarrow> 'd) \<Rightarrow> 'e + 'a \<Rightarrow> 'd + 'a" where
  "map_err g r = (case r of Inl e \<Rightarrow> Inl (g e) | Inr a \<Rightarrow> Inr a)"

definition blocking_append_allow_prefix_rule ::
  "json_codec \<Rightarrow> ('w, 'p) policy_files \<Rightarrow> 'p \<Rightarrow> ustr list \<Rightarrow> ('w, 'p amend_error, unit) effect" where
  "blocking_append_allow_prefix_rule J F policy_path prefix =
     (if prefix = [] then io_pure (Inl EmptyPrefix)
      else io_then (io_pure (map_err SerializePrefix (try_map (json_to_string J) prefix))) (\<lambda>tokens.
        append_rule_line F policy_path (allow_rule_line tokens)))"

fun network_decision_word :: "decision \<Rightarrow> ustr" where
  "network_decision_word Allow = str ''allow''"
| "network_decision_word Prompt = str ''prompt''"
| "network_decision_word Forbidden = str ''deny''"

definition blocking_append_network_rule ::
  "json_codec \<Rightarrow> ('w, 'p) policy_files \<Rightarrow> 'p \<Rightarrow> ustr \<Rightarrow> network_rule_protocol \<Rightarrow> decision \<Rightarrow> ustr option \<Rightarrow>
     ('w, 'p amend_error, unit) effect" where
  "blocking_append_network_rule J F policy_path raw_host proto d j =
     (let json = (\<lambda>s. io_pure (map_err SerializeNetworkRule (json_to_string J s))) in
      io_then (io_pure (map_err (\<lambda>e. InvalidNetworkRule (policy_error_display J e))
          (normalize_network_rule_host raw_host))) (\<lambda>h.
      if (case j of Some raw \<Rightarrow> trim raw = [] | None \<Rightarrow> False)
      then io_pure (Inl (InvalidNetworkRule (str ''justification cannot be empty'')))
      else
        io_then (json h) (\<lambda>h_json.
        io_then (json (as_policy_string proto)) (\<lambda>proto_json.
        io_then (json (network_decision_word d)) (\<lambda>d_json.
          let args = [str ''host='' @ h_json, str ''protocol='' @ proto_json, str ''decision='' @ d_json] in
          io_then
            (case j of
               Some raw \<Rightarrow> io_then (json raw) (\<lambda>j_json. io_pure (Inr (args @ [str ''justification='' @ j_json])))
             | None \<Rightarrow> io_pure (Inr args))
            (\<lambda>args. append_rule_line F policy_path
               (str ''network_rule('' @ join (str '', '') args @ str '')'')))))))"

section \<open>The one-shot migration\<close>

definition MIGRATION_MARKER_FILENAME :: ustr where
  "MIGRATION_MARKER_FILENAME = str ''.sandbox_migration''"

definition unwrap_strip :: "uchar \<Rightarrow> ustr \<Rightarrow> ustr" where
  "unwrap_strip c line = (case strip_suffix [c] line of Some shorter \<Rightarrow> shorter | None \<Rightarrow> line)"

definition should_remove_rule :: "json_codec \<Rightarrow> ustr list list \<Rightarrow> ustr \<Rightarrow> bool" where
  "should_remove_rule J banned_prefixes raw =
     (let line = unwrap_strip CR (unwrap_strip LF raw) in
      case Option.bind (strip_prefix (str ''prefix_rule(pattern='') line)
             (strip_suffix (str '', decision=\"allow\")'')) of
        None \<Rightarrow> False
      | Some pattern_text \<Rightarrow>
          (case json_from_str J pattern_text of
             None \<Rightarrow> False
           | Some prefix \<Rightarrow> list_ex (\<lambda>banned. banned = map to_ascii_lowercase prefix) banned_prefixes))"

definition strip_banned_allow_rules :: "json_codec \<Rightarrow> ustr \<Rightarrow> ustr list list \<Rightarrow> ustr" where
  "strip_banned_allow_rules J contents banned_prefixes =
     concat (filter (\<lambda>line. \<not> should_remove_rule J (map (map to_ascii_lowercase) banned_prefixes) line)
       (split_inclusive contents))"

text \<open>A missing file ends the cleaning with success.\<close>

definition unless_missing :: "('w, io_error, 'a) effect \<Rightarrow> ('a \<Rightarrow> ('w, io_error, unit) effect) \<Rightarrow> ('w, io_error, unit) effect" where
  "unless_missing m f w =
     (case m w of
        (w', Inr a) \<Rightarrow> f a w'
      | (w', Inl (IoErr kind msg)) \<Rightarrow>
          if kind = NotFound then (w', Inr ()) else (w', Inl (IoErr kind msg)))"

definition clean_rules_file ::
  "json_codec \<Rightarrow> ('w, 'p) policy_files \<Rightarrow> 'p \<Rightarrow> ustr list list \<Rightarrow> ('w, io_error, unit) effect" where
  "clean_rules_file J F policy_path banned_prefixes =
     unless_missing (io_read_to_string F policy_path) (\<lambda>contents.
       if strip_banned_allow_rules J contents banned_prefixes = contents then io_pure (Inr ())
       else
         unless_missing (io_open_write F policy_path) (\<lambda>_.
         io_then (io_read_to_string F policy_path) (\<lambda>contents.
           let retained = strip_banned_allow_rules J contents banned_prefixes in
           if retained = contents then io_pure (Inr ())
           else
             io_then (io_seek_start F policy_path) (\<lambda>_.
             io_then (io_write_at_start F policy_path retained) (\<lambda>_.
               io_set_len_of F policy_path retained)))))"

definition write_migration_marker ::
  "('w, 'p) policy_files \<Rightarrow> 'p \<Rightarrow> 'p \<Rightarrow> ('w, io_error, unit) effect" where
  "write_migration_marker F codex_home marker_path =
     io_then (io_create_dir_all F codex_home) (\<lambda>_.
       ignore_existing (io_persist_noclobber F codex_home marker_path (str ''v1'' @ [LF])))"

definition prefix_rule_migration ::
  "json_codec \<Rightarrow> ('w, 'p) policy_files \<Rightarrow> 'p \<Rightarrow> 'p \<Rightarrow> ustr list list \<Rightarrow> ('w, io_error, unit) effect" where
  "prefix_rule_migration J F codex_home policy_path banned_prefixes =
     (let marker_path = home_join F codex_home MIGRATION_MARKER_FILENAME in
      io_then (io_try_exists F marker_path) (\<lambda>exists.
        if exists then io_pure (Inr ())
        else
          io_then (clean_rules_file J F policy_path banned_prefixes) (\<lambda>_.
            write_migration_marker F codex_home marker_path)))"

section \<open>What a policy file holds afterwards\<close>

text \<open>What the file operations document of themselves, over a reading of the world as the texts of its
  files: a successful open for appending creates a missing file, a successful append adds at the end,
  reading gives the whole text, a write at the start followed by a cut to its length leaves that
  text, and the other operations change no text. Nothing is said of the world after a failure.\<close>

definition policy_files_laws :: "('w, 'p) policy_files \<Rightarrow> ('w \<Rightarrow> 'p \<Rightarrow> ustr option) \<Rightarrow> bool" where
  "policy_files_laws F view \<longleftrightarrow>
     (\<forall>w w' p r. io_create_dir F p w = (w', r) \<longrightarrow> view w' = view w) \<and>
     (\<forall>w w' p. io_create_dir_all F p w = (w', Inr ()) \<longrightarrow> view w' = view w) \<and>
     (\<forall>w w' p. io_open_append F p w = (w', Inr ()) \<longrightarrow>
        view w' = (view w)(p \<mapsto> (case view w p of Some t \<Rightarrow> t | None \<Rightarrow> []))) \<and>
     (\<forall>w w' p. io_lock F p w = (w', Inr ()) \<longrightarrow> view w' = view w) \<and>
     (\<forall>w w' p. io_seek_start F p w = (w', Inr ()) \<longrightarrow> view w' = view w) \<and>
     (\<forall>w w' p t. io_read_to_string F p w = (w', Inr t) \<longrightarrow> view w' = view w \<and> view w p = Some t) \<and>
     (\<forall>w w' p m. io_read_to_string F p w = (w', Inl (IoErr NotFound m)) \<longrightarrow> view w' = view w \<and> view w p = None) \<and>
     (\<forall>w w' p t. io_append F p t w = (w', Inr ()) \<longrightarrow>
        view w' = (view w)(p \<mapsto> (case view w p of Some s \<Rightarrow> s | None \<Rightarrow> []) @ t)) \<and>
     (\<forall>w w' p b. io_try_exists F p w = (w', Inr b) \<longrightarrow> view w' = view w \<and> b = (view w p \<noteq> None)) \<and>
     (\<forall>w w' p. io_open_write F p w = (w', Inr ()) \<longrightarrow> view w' = view w) \<and>
     (\<forall>w w' p m. io_open_write F p w = (w', Inl (IoErr NotFound m)) \<longrightarrow> view w' = view w \<and> view w p = None) \<and>
     (\<forall>w u w' p t. io_write_at_start F p t w = (u, Inr ()) \<longrightarrow> io_set_len_of F p t u = (w', Inr ()) \<longrightarrow>
        view w' = (view w)(p \<mapsto> t)) \<and>
     (\<forall>w w' d p t. io_persist_noclobber F d p t w = (w', Inr ()) \<longrightarrow> view w' = (view w)(p \<mapsto> t)) \<and>
     (\<forall>w w' d p t m. io_persist_noclobber F d p t w = (w', Inl (IoErr AlreadyExists m)) \<longrightarrow>
        view w' = view w \<and> view w p \<noteq> None)"

lemma policy_files_lawsD:
  assumes "policy_files_laws F view"
  shows law_create_dir: "io_create_dir F p w = (w', r) \<Longrightarrow> view w' = view w"
    and law_create_dir_all: "io_create_dir_all F p w = (w', Inr ()) \<Longrightarrow> view w' = view w"
    and law_open_append: "io_open_append F p w = (w', Inr ()) \<Longrightarrow>
      view w' = (view w)(p \<mapsto> (case view w p of Some t \<Rightarrow> t | None \<Rightarrow> []))"
    and law_lock: "io_lock F p w = (w', Inr ()) \<Longrightarrow> view w' = view w"
    and law_seek: "io_seek_start F p w = (w', Inr ()) \<Longrightarrow> view w' = view w"
    and law_read: "io_read_to_string F p w = (w', Inr t) \<Longrightarrow> view w' = view w \<and> view w p = Some t"
    and law_read_missing: "io_read_to_string F p w = (w', Inl (IoErr NotFound m)) \<Longrightarrow>
      view w' = view w \<and> view w p = None"
    and law_append: "io_append F p t w = (w', Inr ()) \<Longrightarrow>
      view w' = (view w)(p \<mapsto> (case view w p of Some s \<Rightarrow> s | None \<Rightarrow> []) @ t)"
    and law_exists: "io_try_exists F p w = (w', Inr b) \<Longrightarrow> view w' = view w \<and> b = (view w p \<noteq> None)"
    and law_open_write: "io_open_write F p w = (w', Inr ()) \<Longrightarrow> view w' = view w"
    and law_open_missing: "io_open_write F p w = (w', Inl (IoErr NotFound m)) \<Longrightarrow>
      view w' = view w \<and> view w p = None"
    and law_overwrite: "io_write_at_start F p t w = (u, Inr ()) \<Longrightarrow> io_set_len_of F p t u = (w', Inr ()) \<Longrightarrow>
      view w' = (view w)(p \<mapsto> t)"
    and law_persist: "io_persist_noclobber F d p t w = (w', Inr ()) \<Longrightarrow> view w' = (view w)(p \<mapsto> t)"
    and law_persist_exists: "io_persist_noclobber F d p t w = (w', Inl (IoErr AlreadyExists m)) \<Longrightarrow>
      view w' = view w \<and> view w p \<noteq> None"
  by (insert assms, unfold policy_files_laws_def, (elim conjE, metis)+)

definition file_text :: "('p \<Rightarrow> ustr option) \<Rightarrow> 'p \<Rightarrow> ustr" where
  "file_text files p = (case files p of Some t \<Rightarrow> t | None \<Rightarrow> [])"

text \<open>The text with a line added, unless it is there.\<close>

definition with_line :: "ustr \<Rightarrow> ustr \<Rightarrow> ustr" where
  "with_line line contents =
     (if line \<in> set (lines contents) then contents
      else contents @ (if contents \<noteq> [] \<and> last contents \<noteq> LF then [LF] else []) @ line @ [LF])"

lemma ends_with_single: "ends_with [c] s \<longleftrightarrow> s \<noteq> [] \<and> last s = c"
  by (cases s rule: rev_cases) (auto simp: ends_with_iff)

lemma append_locked_line_text:
  assumes laws: "policy_files_laws F view"
    and run: "append_locked_line F p line w = (w', Inr ())"
  shows "view w' = (view w)(p \<mapsto> with_line line (file_text (view w) p))"
proof -
  obtain w1 w2 w3 w4 contents where steps: "io_open_append F p w = (w1, Inr ())" "io_lock F p w1 = (w2, Inr ())"
    "io_seek_start F p w2 = (w3, Inr ())" "io_read_to_string F p w3 = (w4, Inr contents)"
    and tail: "(if list_ex (\<lambda>existing. existing = line) (lines contents) then io_pure (Inr ())
       else io_then (if contents \<noteq> [] \<and> \<not> ends_with [LF] contents
            then io_map_err (WritePolicyFile p) (io_append F p [LF]) else io_pure (Inr ()))
           (\<lambda>_. io_map_err (WritePolicyFile p) (io_append F p (line @ [LF])))) w4 = (w', Inr ())"
    using run unfolding append_locked_line_def by (auto simp: io_then_Inr)
  have v4: "view w4 = (view w)(p \<mapsto> file_text (view w) p)" "contents = file_text (view w) p"
    using law_open_append [OF laws steps(1)] law_lock [OF laws steps(2)] law_seek [OF laws steps(3)]
      law_read [OF laws steps(4)] by (simp_all add: file_text_def)
  show ?thesis
  proof (cases "line \<in> set (lines contents)")
    case True
    with tail v4 show ?thesis by (simp add: list_ex_iff with_line_def)
  next
    case False
    with tail obtain w5 where w5: "(if contents \<noteq> [] \<and> \<not> ends_with [LF] contents
            then io_map_err (WritePolicyFile p) (io_append F p [LF]) else io_pure (Inr ())) w4 = (w5, Inr ())"
      and last: "io_append F p (line @ [LF]) w5 = (w', Inr ())"
      by (auto simp: list_ex_iff io_then_Inr)
    have "view w5 = (view w)(p \<mapsto> contents @ (if contents \<noteq> [] \<and> last contents \<noteq> LF then [LF] else []))"
      using w5 v4 law_append [OF laws, of p "[LF]" w4 w5]
      by (auto simp: ends_with_single split: if_splits)
    then have "view w' = (view w)(p \<mapsto> (contents @ (if contents \<noteq> [] \<and> last contents \<noteq> LF then [LF] else []))
        @ line @ [LF])"
      using law_append [OF laws last] by simp
    with False v4 show ?thesis by (simp add: with_line_def)
  qed
qed

lemma ignore_existing_Inr:
  "ignore_existing m w = (w', Inr ()) \<longleftrightarrow>
     m w = (w', Inr ()) \<or> (\<exists>msg. m w = (w', Inl (IoErr AlreadyExists msg)))"
  by (auto simp: ignore_existing_def split: prod.splits sum.splits io_error.splits if_splits)

lemma append_rule_line_text:
  assumes laws: "policy_files_laws F view"
    and run: "append_rule_line F p line w = (w', Inr ())"
  shows "view w' = (view w)(p \<mapsto> with_line line (file_text (view w) p))"
proof -
  obtain dir w1 where "create_policy_dir F dir w = (w1, Inr ())"
    and tail: "append_locked_line F p line w1 = (w', Inr ())"
    using run by (auto simp: append_rule_line_def io_then_Inr split: option.splits)
  then have "view w1 = view w"
    using law_create_dir [OF laws]
    by (auto simp: create_policy_dir_def ignore_existing_Inr)
  with append_locked_line_text [OF laws tail] show ?thesis by simp
qed

lemma with_line_lines:
  assumes "LF \<notin> set line" "line = [] \<or> last line \<noteq> CR" "contents = [] \<or> last contents \<noteq> CR"
  shows "lines (with_line line contents) =
    (if line \<in> set (lines contents) then lines contents else lines contents @ [line])"
proof (cases "contents \<noteq> [] \<and> last contents \<noteq> LF")
  case True
  with assms lines_append_line [of "contents @ [LF]" line] lines_terminate [of contents]
  show ?thesis by (auto simp: with_line_def drop_cr_no_cr)
next
  case False
  with assms lines_append_line [of contents line] show ?thesis
    by (auto simp: with_line_def drop_cr_no_cr)
qed

lemma with_line_again:
  assumes "LF \<notin> set line" "line = [] \<or> last line \<noteq> CR"
  shows "with_line line (with_line line contents) = with_line line contents"
proof (cases "line \<in> set (lines contents)")
  case False
  have "line \<in> set (lines (with_line line contents))"
  proof (cases "contents \<noteq> [] \<and> last contents \<noteq> LF")
    case True
    with False assms lines_append_line [of "contents @ [LF]" line] show ?thesis
      by (simp add: with_line_def drop_cr_no_cr)
  next
    case False
    with assms lines_append_line [of contents line] show ?thesis
      by (auto simp: with_line_def drop_cr_no_cr)
  qed
  then show ?thesis by (simp add: with_line_def [of line "with_line line contents"])
qed (simp add: with_line_def)

text \<open>What \<^verbatim>\<open>serde_json\<close> documents: strings are written on one line, and an array of written
  strings reads back as those strings.\<close>

definition json_codec_laws :: "json_codec \<Rightarrow> bool" where
  "json_codec_laws J \<longleftrightarrow>
     (\<forall>s t. json_to_string J s = Inr t \<longrightarrow> LF \<notin> set t) \<and>
     (\<forall>prefix tokens. try_map (json_to_string J) prefix = Inr tokens \<longrightarrow>
        json_from_str J (str ''['' @ join (str '', '') tokens @ str '']'') = Some prefix)"

lemma join_set: "set (join d xs) \<subseteq> set d \<union> (\<Union>x \<in> set xs. set x)"
  by (induction d xs rule: join.induct) auto

lemma allow_rule_line_shape:
  assumes "json_codec_laws J" "try_map (json_to_string J) prefix = Inr tokens"
  shows "LF \<notin> set (allow_rule_line tokens)" "last (allow_rule_line tokens) \<noteq> CR"
    "allow_rule_line tokens \<noteq> []"
proof -
  have "LF \<notin> set t" if "t \<in> set tokens" for t
    using assms that by (auto simp: json_codec_laws_def try_map_Inr list_all2_conv_all_nth in_set_conv_nth)
  then have "LF \<notin> set (join (str '', '') tokens)"
    using join_set [of "str '', ''" tokens] by (auto simp: str_def)
  then show "LF \<notin> set (allow_rule_line tokens)" by (simp add: allow_rule_line_def) (simp add: str_def)
  show "last (allow_rule_line tokens) \<noteq> CR" "allow_rule_line tokens \<noteq> []"
    by (simp_all add: allow_rule_line_def) (simp_all add: str_def)
qed


section \<open>What the migration removes\<close>

lemma should_remove_allow_rule:
  assumes "json_codec_laws J" "try_map (json_to_string J) prefix = Inr tokens"
  shows "should_remove_rule J banned (allow_rule_line tokens @ [LF]) \<longleftrightarrow>
    map to_ascii_lowercase prefix \<in> set banned"
proof -
  have "unwrap_strip CR (unwrap_strip LF (allow_rule_line tokens @ [LF])) = allow_rule_line tokens"
    using allow_rule_line_shape [OF assms] by (auto simp: unwrap_strip_def split: option.splits)
  moreover have "Option.bind (strip_prefix (str ''prefix_rule(pattern='') (allow_rule_line tokens))
      (strip_suffix (str '', decision=\"allow\")'')) = Some (str ''['' @ join (str '', '') tokens @ str '']'')"
    unfolding allow_rule_line_def strip_prefix_append by (simp del: append_assoc add: append_assoc [symmetric])
  ultimately show ?thesis
    using assms unfolding should_remove_rule_def json_codec_laws_def by (simp add: list_ex_iff)
qed

lemma split_inclusive_acc_append:
  assumes "s = [] \<and> cur = [] \<or> s \<noteq> [] \<and> last s = LF"
  shows "split_inclusive_acc cur (s @ t) = split_inclusive_acc cur s @ split_inclusive_acc [] t"
  using assms
proof (induction cur s rule: split_inclusive_acc.induct)
  case (2 cur c cs)
  then show ?case by (cases "cs = []") auto
qed simp

text \<open>The migration takes back exactly what approval wrote: the line an approved prefix added is
  removed when the prefix is banned, whatever its case, and kept otherwise; the rest of the file is
  treated as if the line were not there.\<close>

theorem migration_removes_approved_rule:
  assumes "json_codec_laws J" "try_map (json_to_string J) prefix = Inr tokens"
    and "contents = [] \<or> last contents = LF"
  shows "strip_banned_allow_rules J (contents @ allow_rule_line tokens @ [LF]) banned =
    strip_banned_allow_rules J contents banned @
    (if map to_ascii_lowercase prefix \<in> set (map (map to_ascii_lowercase) banned) then []
     else allow_rule_line tokens @ [LF])"
proof -
  have "split_inclusive (contents @ allow_rule_line tokens @ [LF]) =
      split_inclusive contents @ [allow_rule_line tokens @ [LF]]"
    using assms(3) allow_rule_line_shape(1) [OF assms(1,2)] split_inclusive_acc_append [of contents "[]"]
      split_inclusive_acc_line [of "allow_rule_line tokens" "[]" "[]"]
    by (auto simp: split_inclusive_def)
  with should_remove_allow_rule [OF assms(1,2)] show ?thesis
    by (simp add: strip_banned_allow_rules_def)
qed

lemma unless_missing_Inr:
  "unless_missing m f w = (w', Inr ()) \<longleftrightarrow>
     (\<exists>u a. m w = (u, Inr a) \<and> f a u = (w', Inr ())) \<or> (\<exists>msg. m w = (w', Inl (IoErr NotFound msg)))"
  by (auto simp: unless_missing_def split: prod.splits sum.splits io_error.splits if_splits)

lemma clean_rules_file_text:
  assumes laws: "policy_files_laws F view" and run: "clean_rules_file J F p banned w = (w', Inr ())"
  shows "view w' = (view w)(p := map_option (\<lambda>t. strip_banned_allow_rules J t banned) (view w p))"
proof -
  let ?strip = "\<lambda>t. strip_banned_allow_rules J t banned"
  consider (missing) msg where "io_read_to_string F p w = (w', Inl (IoErr NotFound msg))"
    | (read) w1 t where "io_read_to_string F p w = (w1, Inr t)"
        "(if ?strip t = t then io_pure (Inr ())
          else unless_missing (io_open_write F p) (\<lambda>_.
            io_then (io_read_to_string F p) (\<lambda>t.
              let retained = ?strip t in
              if retained = t then io_pure (Inr ())
              else io_then (io_seek_start F p) (\<lambda>_.
                io_then (io_write_at_start F p retained) (\<lambda>_. io_set_len_of F p retained))))) w1 = (w', Inr ())"
    using run unfolding clean_rules_file_def unless_missing_Inr by blast
  then show ?thesis
  proof cases
    case missing
    with law_read_missing [OF laws] show ?thesis by (metis fun_upd_triv option.map_disc_iff)
  next
    case read
    have t: "view w1 = view w" "view w p = Some t" using law_read [OF laws read(1)] by auto
    show ?thesis
    proof (cases "?strip t = t")
      case True
      with read t show ?thesis by (simp add: fun_upd_idem)
    next
      case False
      with read(2) consider (gone) msg where "io_open_write F p w1 = (w', Inl (IoErr NotFound msg))"
        | (kept) w2 w3 t' where "io_open_write F p w1 = (w2, Inr ())" "io_read_to_string F p w2 = (w3, Inr t')"
          "?strip t' = t'" "w' = w3"
        | (rewritten) w2 w3 t' w4 w5 where "io_open_write F p w1 = (w2, Inr ())"
          "io_read_to_string F p w2 = (w3, Inr t')" "io_seek_start F p w3 = (w4, Inr ())"
          "io_write_at_start F p (?strip t') w4 = (w5, Inr ())" "io_set_len_of F p (?strip t') w5 = (w', Inr ())"
        by (auto simp: unless_missing_Inr io_then_Inr Let_def split: if_splits)
      then show ?thesis
      proof cases
        case gone
        with law_open_missing [OF laws] t show ?thesis by (metis option.distinct(1))
      next
        case kept
        with law_open_write [OF laws kept(1)] law_read [OF laws kept(2)] t False show ?thesis by simp
      next
        case rewritten
        with law_open_write [OF laws rewritten(1)] law_read [OF laws rewritten(2)] law_seek [OF laws rewritten(3)]
          law_overwrite [OF laws rewritten(4,5)] t show ?thesis by simp
      qed
    qed
  qed
qed

lemma write_migration_marker_text:
  assumes laws: "policy_files_laws F view" and run: "write_migration_marker F home marker w = (w', Inr ())"
  shows "view w' = (view w)(marker \<mapsto> (case view w marker of Some t \<Rightarrow> t | None \<Rightarrow> str ''v1'' @ [LF])) \<or>
    view w' = (view w)(marker \<mapsto> str ''v1'' @ [LF])"
proof -
  let ?v1 = "str ''v1'' @ [LF]"
  obtain w1 where w1: "io_create_dir_all F home w = (w1, Inr ())"
    and "io_persist_noclobber F home marker ?v1 w1 = (w', Inr ()) \<or>
      (\<exists>msg. io_persist_noclobber F home marker ?v1 w1 = (w', Inl (IoErr AlreadyExists msg)))"
    using run unfolding write_migration_marker_def io_then_Inr ignore_existing_Inr by auto
  then show ?thesis
    using law_create_dir_all [OF laws w1] law_persist [OF laws, of home marker ?v1 w1 w']
      law_persist_exists [OF laws, of home marker ?v1 w1 w']
    by (auto simp: fun_upd_idem)
qed

text \<open>The migration is one-shot: the first successful run strips the banned rules from the policy file
  and leaves the marker, a run that finds the marker changes nothing, and no other file is touched.\<close>

theorem prefix_rule_migration_once:
  assumes "policy_files_laws F view" "prefix_rule_migration J F home p banned w = (w', Inr ())"
    and "marker = home_join F home MIGRATION_MARKER_FILENAME" "marker \<noteq> p"
  shows "\<exists>t. view w' = (view w)
      (p := (if view w marker = None then map_option (\<lambda>t. strip_banned_allow_rules J t banned) (view w p)
             else view w p),
       marker \<mapsto> t) \<and>
    (\<forall>w''. prefix_rule_migration J F home p banned w' = (w'', Inr ()) \<longrightarrow> view w'' = view w')"
proof -
  have found: "view v' = view v" if "view v marker \<noteq> None"
    "prefix_rule_migration J F home p banned v = (v', Inr ())" for v v'
    using that by (auto simp: prefix_rule_migration_def Let_def io_then_Inr assms(3)
        dest!: law_exists [OF assms(1)] split: if_splits)
  show ?thesis
  proof (cases "view w marker")
    case (Some t)
    with found [of w w'] found [of w'] assms(2) show ?thesis
      by (intro exI [of _ t]) (auto simp: fun_upd_idem)
  next
    case None
    with assms(2) obtain w1 w2 where "io_try_exists F marker w = (w1, Inr False)"
      "clean_rules_file J F p banned w1 = (w2, Inr ())" "write_migration_marker F home marker w2 = (w', Inr ())"
      using law_exists [OF assms(1), of marker w _ True]
      by (auto simp: prefix_rule_migration_def Let_def io_then_Inr assms(3) [symmetric] split: if_splits)
    note steps = law_exists [OF assms(1) this(1)] clean_rules_file_text [OF assms(1) this(2)]
      write_migration_marker_text [OF assms(1) this(3)]
    then have "view w' marker \<noteq> None" by auto
    with found [of w'] steps None show ?thesis by auto
  qed
qed

end
