(* ===== verification/Exec_Examples.thy ===== *)
theory Exec_Examples
  imports Exec_Parser_Laws Exec_Amend
begin

text \<open>
  Instances of the parameters of the execution policy (paths as texts with a leading slash, a world of
  files as an association list, a JSON codec for the strings that need no escape) and runs of the
  policy on them: the hypotheses of its theorems can hold, and what they say there.
\<close>

section \<open>Paths and policies\<close>

definition demo_hosts :: "ustr host_paths" where
  "demo_hosts = \<lparr>
     absolute_path = (\<lambda>s. if starts_with (str ''/'') s then Some s else None),
     path_file_name = (\<lambda>s. Some (last (split_on 47 s))),
     on_windows = False\<rparr>"

definition literal_rule :: "ustr list \<Rightarrow> decision \<Rightarrow> prefix_rule" where
  "literal_rule words d = \<lparr>pattern = \<lparr>first = hd words, rest = map Single (tl words)\<rparr>,
     rule_decision = d, justification = None\<rparr>"

definition git_status :: "ustr list" where
  "git_status = [str ''git'', str ''status'']"

definition base_policy :: "ustr policy" where
  "base_policy = (policy_new (mm_index rule_program
     [literal_rule [str ''git''] Prompt, literal_rule [str ''ls''] Allow]))
     \<lparr>host_executables_by_name := [(str ''git'', [str ''/usr/bin/git''])]\<rparr>"

definition overlay_policy :: "ustr policy" where
  "overlay_policy = policy_new (mm_index rule_program [literal_rule git_status Allow])"

definition always_prompt :: "ustr list \<Rightarrow> decision" where
  "always_prompt cmd = Prompt"

theorem merge_overlay_never_relaxes_witness:
  "\<exists>b m. check_with_options demo_hosts base_policy git_status always_prompt default_match_options = Some b \<and>
    check_with_options demo_hosts (merge_overlay base_policy overlay_policy) git_status always_prompt
      default_match_options = Some m \<and>
    matched_rules m = matched_rules b @ unwrap_or_default (match_exact_rules overlay_policy git_status) \<and>
    eval_decision b \<le> eval_decision m"
  by (rule merge_overlay_never_relaxes) code_simp+

definition resolved_match :: "ustr rule_match" where
  "resolved_match = PrefixRuleMatch [str ''git''] Prompt (Some (str ''/usr/bin/git'')) None"

theorem host_executable_match_listed_witness:
  "\<exists>w args program name r.
    [str ''/usr/bin/git'', str ''status''] = w # args \<and> absolute_path demo_hosts w = Some program \<and>
    executable_path_lookup_key demo_hosts program = Some name \<and>
    (\<forall>paths. map_of (host_executables_by_name base_policy) name = Some paths \<longrightarrow> program \<in> set paths) \<and>
    r \<in> set (unwrap_or_default (mm_get_vec (rules_by_program base_policy) name)) \<and>
    resolved_match = PrefixRuleMatch (the (matches_prefix (pattern r) (name # args))) (rule_decision r)
      (Some program) (justification r) \<and>
    matches_prefix (pattern r) (name # args) \<noteq> None"
  by (rule host_executable_match_listed) code_simp

text \<open>Any other path of the same name is not matched.\<close>

lemma unlisted_path: "match_host_executable_rules demo_hosts base_policy [str ''/tmp/git'', str ''status''] = []"
  by code_simp

section \<open>A policy file\<close>

definition demo_calls :: "builtin_call list" where
  "demo_calls =
     [PrefixRuleCall [SList [SStr (str ''git''), SStr (str ''hg'')], SStr (str ''status'')] (Some (str ''allow''))
        (Some [SStr (str ''git status -s''), SList [SStr (str ''hg''), SStr (str ''status'')]])
        (Some [SStr (str ''git push'')]) None None,
      NetworkRuleCall (str ''Example.com:443'') (str ''https'') (str ''deny'') None,
      HostExecutableCall (str ''git'') [SStr (str ''/usr/bin/git'')]]"

definition demo_language :: "ustr policy_language" where
  "demo_language = \<lparr>hosts = demo_hosts,
     eval_module = (\<lambda>_ _. (demo_calls, None)),
     builtin_failure = (\<lambda>e. str ''builtin failed''),
     shlex_split = (\<lambda>s. Some (filter (\<lambda>w. w \<noteq> []) (split_on 32 s))),
     shlex_try_join = (\<lambda>ws. Some (join [32] ws)),
     debug_rule = (\<lambda>r. rule_program r),
     debug_match = (\<lambda>m. str ''match''),
     is_absolute = starts_with (str ''/''),
     absolute_path_failure = (\<lambda>s. str ''not absolute''),
     component_count = (\<lambda>s. length (split_on 47 s)),
     file_name_of = (\<lambda>s. Some (last (split_on 47 s)))\<rparr>"

definition demo_builder :: "ustr policy_builder" where
  "demo_builder = fst (parse_policy demo_language (str ''f'') [] builder_new)"

definition demo_prefix_rule :: "ustr policy_builder" where
  "demo_prefix_rule = fst (builtin_step demo_language builder_new (hd demo_calls))"

theorem prefix_rule_builtin_matches_witness:
  "\<exists>t ts d. parse_pattern [SList [SStr (str ''git''), SStr (str ''hg'')], SStr (str ''status'')] = Inr (t # ts) \<and>
    optional_decision (Some (str ''allow'')) = Inr d \<and>
    unwrap_or_default (match_exact_rules (builder_build demo_prefix_rule) git_status) =
      unwrap_or_default (match_exact_rules (builder_build (builder_new :: ustr policy_builder)) git_status) @
      (if tokens_match (t # ts) git_status
       then replicate (count_list (alternatives t) (hd git_status))
         (PrefixRuleMatch (take (Suc (length ts)) git_status) d None None)
       else [])"
  by (rule prefix_rule_builtin_matches [where L = demo_language and location = None and
        ms = "Some [SStr (str ''git status -s''), SList [SStr (str ''hg''), SStr (str ''status'')]]" and
        nms = "Some [SStr (str ''git push'')]"])
    code_simp

theorem parse_policy_keeps_witness:
  "builder_ok demo_language demo_builder \<and> builder_grows builder_new demo_builder \<and>
   (Some (Inr ()) :: (policy_error + unit) option) \<noteq> None"
proof (rule parse_policy_keeps)
  show "parse_policy demo_language (str ''f'') [] builder_new = (demo_builder, Some (Inr ()))" by code_simp
  show "builder_ok demo_language builder_new" by code_simp
qed

theorem parse_policy_examples_witness:
  "Some (Inr ()) = (Some (Inr ()) :: (policy_error + unit) option) \<longleftrightarrow>
    try_fold (builtin_step demo_language) builder_new (fst (eval_module demo_language (str ''f'') [])) =
      (demo_builder, Inr ()) \<and>
    snd (eval_module demo_language (str ''f'') []) = None \<and>
    (\<forall>v \<in> set (drop (length (pending_example_validations (builder_new :: ustr policy_builder)))
        (pending_example_validations demo_builder)).
      (\<forall>e \<in> set (pending_not_matches v).
        matches_for_command_with_options (hosts demo_language) (validation_policy demo_builder v) e None
          example_options = []) \<and>
      (\<forall>e \<in> set (pending_matches v).
        matches_for_command_with_options (hosts demo_language) (validation_policy demo_builder v) e None
          example_options \<noteq> []))"
proof (rule parse_policy_examples)
  show "parse_policy demo_language (str ''f'') [] builder_new = (demo_builder, Some (Inr ()))" by code_simp
  show "builder_ok demo_language builder_new" by code_simp
qed

section \<open>A world of files\<close>

type_synonym file_world = "(ustr \<times> ustr) list"

definition world_text :: "file_world \<Rightarrow> ustr \<Rightarrow> ustr" where
  "world_text w p = (case map_of w p of Some t \<Rightarrow> t | None \<Rightarrow> [])"

definition missing_file :: io_error where
  "missing_file = IoErr NotFound (str ''no such file'')"

definition world_files :: "(file_world, ustr) policy_files" where
  "world_files = \<lparr>
     path_parent = (\<lambda>p. map_option fst (rsplit_once 47 p)),
     home_join = (\<lambda>p name. p @ str ''/'' @ name),
     io_create_dir = (\<lambda>p w. (w, Inr ())),
     io_create_dir_all = (\<lambda>p w. (w, Inr ())),
     io_open_append = (\<lambda>p w. (AList.update p (world_text w p) w, Inr ())),
     io_lock = (\<lambda>p w. (w, Inr ())),
     io_seek_start = (\<lambda>p w. (w, Inr ())),
     io_read_to_string = (\<lambda>p w. (w, case map_of w p of Some t \<Rightarrow> Inr t | None \<Rightarrow> Inl missing_file)),
     io_append = (\<lambda>p t w. (AList.update p (world_text w p @ t) w, Inr ())),
     io_try_exists = (\<lambda>p w. (w, Inr (map_of w p \<noteq> None))),
     io_open_write = (\<lambda>p w. (w, if map_of w p = None then Inl missing_file else Inr ())),
     io_write_at_start = (\<lambda>p t w. (AList.update p (t @ drop (length t) (world_text w p)) w, Inr ())),
     io_set_len_of = (\<lambda>p t w. (AList.update p (take (length t) (world_text w p)) w, Inr ())),
     io_persist_noclobber = (\<lambda>d p t w.
       if map_of w p = None then (AList.update p t w, Inr ()) else (w, Inl (IoErr AlreadyExists [])))\<rparr>"

lemma world_laws: "policy_files_laws world_files map_of"
  by (auto simp: policy_files_laws_def world_files_def world_text_def update_conv' missing_file_def fun_eq_iff
      split: option.splits if_splits)

section \<open>JSON strings without escapes\<close>

fun second_items :: "'a list \<Rightarrow> 'a list" where
  "second_items (x # y # zs) = y # second_items zs"
| "second_items _ = []"

definition plain_json :: json_codec where
  "plain_json = \<lparr>
     json_to_string = (\<lambda>s. if list_all (\<lambda>c. 32 \<le> c \<and> c \<noteq> 34 \<and> c \<noteq> 92) s
       then Inr ([34] @ s @ [34]) else Inl (str ''unsupported'')),
     json_from_str = (\<lambda>t. Some (second_items (split_on 34 t))),
     debug_strings = (\<lambda>ss. join (str '', '') ss)\<rparr>"

lemma plain_json_items:
  assumes "34 \<notin> set p" "\<forall>s \<in> set ss. 34 \<notin> set s"
  shows "second_items (split_on 34 (p @ join (str '', '') (map (\<lambda>s. [34] @ s @ [34]) ss) @ str '']'')) = ss"
  using assms
proof (induction ss arbitrary: p)
  case Nil
  then show ?case by (simp add: split_on_none str_def)
next
  case (Cons s ss)
  have quoted: "split_on 34 (p @ 34 # s @ 34 # t) = p # s # split_on 34 t" for t
    using Cons.prems by (simp add: split_on_append)
  show ?case
  proof (cases ss)
    case Nil
    then show ?thesis using quoted [of "str '']''"] by (simp add: split_on_none str_def)
  next
    case (Cons s' ss')
    have "second_items (split_on 34 (str '', '' @ join (str '', '') (map (\<lambda>s. [34] @ s @ [34]) ss) @ str '']'')) = ss"
      using Cons.prems by (intro Cons.IH) (auto simp: str_def)
    then show ?thesis using Cons quoted by simp
  qed
qed

lemma plain_json_laws: "json_codec_laws plain_json"
proof -
  have "tokens = map (\<lambda>s. [34] @ s @ [34]) prefix \<and> (\<forall>s \<in> set prefix. 34 \<notin> set s)"
    if "try_map (json_to_string plain_json) prefix = Inr tokens" for prefix tokens
    using that unfolding try_map_Inr
    by (induction prefix tokens rule: list_all2_induct)
      (auto simp: plain_json_def list_all_iff split: if_splits)
  then have "json_from_str plain_json (str ''['' @ join (str '', '') tokens @ str '']'') = Some prefix"
    if "try_map (json_to_string plain_json) prefix = Inr tokens" for prefix tokens
    using that plain_json_items [of "str ''[''" prefix] by (simp add: plain_json_def str_def)
  moreover have "LF \<notin> set t" if "json_to_string plain_json s = Inr t" for s t
    using that by (force simp: plain_json_def list_all_iff split: if_splits)
  ultimately show ?thesis by (simp add: json_codec_laws_def)
qed

section \<open>Amending and migrating\<close>

definition rules_path :: ustr where
  "rules_path = str ''/h/rules''"

definition demo_world :: file_world where
  "demo_world = [(rules_path, str ''# mine'')]"

definition rm_rf :: "ustr list" where
  "rm_rf = [str ''rm'', str ''-rf'']"

definition approved_world :: file_world where
  "approved_world = fst (blocking_append_allow_prefix_rule plain_json world_files rules_path rm_rf demo_world)"


definition quoted_rm_rf :: "ustr list" where
  "quoted_rm_rf = [[34] @ str ''rm'' @ [34], [34] @ str ''-rf'' @ [34]]"

theorem migration_removes_approved_rule_witness:
  "strip_banned_allow_rules plain_json ((str ''# mine'' @ [LF]) @ allow_rule_line quoted_rm_rf @ [LF])
      [[str ''RM'', str ''-rf'']] =
    strip_banned_allow_rules plain_json (str ''# mine'' @ [LF]) [[str ''RM'', str ''-rf'']] @
    (if map to_ascii_lowercase rm_rf \<in> set (map (map to_ascii_lowercase) [[str ''RM'', str ''-rf'']]) then []
     else allow_rule_line quoted_rm_rf @ [LF])"
proof (rule migration_removes_approved_rule [OF plain_json_laws])
  show "try_map (json_to_string plain_json) rm_rf = Inr quoted_rm_rf" by code_simp
  show "str ''# mine'' @ [LF] = [] \<or> last (str ''# mine'' @ [LF]) = LF" by simp
qed

definition migrated_world :: file_world where
  "migrated_world = fst (prefix_rule_migration plain_json world_files (str ''/h'') rules_path [rm_rf] approved_world)"

definition marker_file :: ustr where
  "marker_file = home_join world_files (str ''/h'') MIGRATION_MARKER_FILENAME"

theorem prefix_rule_migration_once_witness:
  "\<exists>t. map_of migrated_world = (map_of approved_world)
      (rules_path := (if map_of approved_world marker_file = None
         then map_option (\<lambda>t. strip_banned_allow_rules plain_json t [rm_rf]) (map_of approved_world rules_path)
         else map_of approved_world rules_path),
       marker_file \<mapsto> t) \<and>
    (\<forall>w''. prefix_rule_migration plain_json world_files (str ''/h'') rules_path [rm_rf] migrated_world =
      (w'', Inr ()) \<longrightarrow> map_of w'' = map_of migrated_world)"
proof (rule prefix_rule_migration_once [OF world_laws])
  show "prefix_rule_migration plain_json world_files (str ''/h'') rules_path [rm_rf] approved_world =
      (migrated_world, Inr ())" by code_simp
  show "marker_file = home_join world_files (str ''/h'') MIGRATION_MARKER_FILENAME"
    by (rule marker_file_def)
  show "marker_file \<noteq> rules_path" by code_simp
qed

text \<open>A host that loses a trailing dot or its brackets may still end in a port: normalising it again gives
  another host. A rule appended for it is read back as a rule for that other host.\<close>

lemma normalize_host_twice:
  "normalize_network_rule_host (str ''a:80.'') = Inr (str ''a:80'') \<and>
   normalize_network_rule_host (str ''a:80'') = Inr (str ''a'') \<and>
   normalize_network_rule_host (str ''[a:80]'') = Inr (str ''a:80'')"
  by code_simp

end
