(* ===== verification/Stream_Text.thy ===== *)
theory Stream_Text
  imports Text_Search
begin

text \<open>
  Parsers of streamed assistant text: \<^verbatim>\<open>codex-rs/utils/stream-parser/src/stream_text.rs\<close>. The
  trait \<^verbatim>\<open>StreamTextParser\<close> is the locale \<open>stream_text_parser\<close>: what a caller may rely on is
  that a push always returns, and that cutting the stream into other chunks shows the same text and
  extracts the same payloads, up to a normal form \<open>norm\<close> of the payloads (plan text that arrives in
  pieces is reported in pieces). A push that does not return is \<open>None\<close>.
\<close>

record 't stream_text_chunk =
  visible_text :: ustr
  extracted :: "'t list"

definition chunk_default :: "'t stream_text_chunk" where
  "chunk_default = \<lparr>visible_text = [], extracted = []\<rparr>"

definition chunk_is_empty :: "'t stream_text_chunk \<Rightarrow> bool" where
  "chunk_is_empty c \<longleftrightarrow> visible_text c = [] \<and> extracted c = []"

text \<open>\<^verbatim>\<open>visible_text.push_str\<close> and \<^verbatim>\<open>extracted.extend\<close>.\<close>

definition chunk_append :: "'t stream_text_chunk \<Rightarrow> 't stream_text_chunk \<Rightarrow> 't stream_text_chunk" where
  "chunk_append a b =
     \<lparr>visible_text = visible_text a @ visible_text b, extracted = extracted a @ extracted b\<rparr>"

lemma chunk_append_assoc: "chunk_append (chunk_append a b) c = chunk_append a (chunk_append b c)"
  by (simp add: chunk_append_def)

lemma chunk_append_default [simp]:
  "chunk_append chunk_default a = a" "chunk_append a chunk_default = a"
  by (simp_all add: chunk_append_def chunk_default_def)

text \<open>What a caller sees: every chunk pushed in turn, then the end of the stream.\<close>

fun push_all ::
  "('s \<Rightarrow> ustr \<Rightarrow> ('s \<times> 't stream_text_chunk) option) \<Rightarrow> 's \<Rightarrow> ustr list \<Rightarrow> ('s \<times> 't stream_text_chunk) option" where
  "push_all push s [] = Some (s, chunk_default)"
| "push_all push s (c # cs) =
     (case push s c of
        None \<Rightarrow> None
      | Some (s', out) \<Rightarrow> map_option (\<lambda>(t, more). (t, chunk_append out more)) (push_all push s' cs))"

definition collect_chunks ::
  "('s \<Rightarrow> ustr \<Rightarrow> ('s \<times> 't stream_text_chunk) option) \<Rightarrow> ('s \<Rightarrow> 's \<times> 't stream_text_chunk) \<Rightarrow>
     's \<Rightarrow> ustr list \<Rightarrow> 't stream_text_chunk option" where
  "collect_chunks push finish s cs =
     map_option (\<lambda>(t, out). chunk_append out (snd (finish t))) (push_all push s cs)"

text \<open>The same text and the same payloads up to \<open>norm\<close>.\<close>

definition chunk_equiv :: "('t list \<Rightarrow> 't list) \<Rightarrow> 't stream_text_chunk \<Rightarrow> 't stream_text_chunk \<Rightarrow> bool" where
  "chunk_equiv norm a b \<longleftrightarrow>
     visible_text a = visible_text b \<and> norm (extracted a) = norm (extracted b)"

locale stream_text_parser =
  fixes push :: "'s \<Rightarrow> ustr \<Rightarrow> ('s \<times> 't stream_text_chunk) option"
    and finish :: "'s \<Rightarrow> 's \<times> 't stream_text_chunk"
    and norm :: "'t list \<Rightarrow> 't list"
    and inv :: "'s \<Rightarrow> bool"
  assumes norm_left: "norm (norm xs @ ys) = norm (xs @ ys)"
    and norm_right: "norm (xs @ norm ys) = norm (xs @ ys)"
    and push_returns: "inv s \<Longrightarrow> \<exists>s' out. push s c = Some (s', out) \<and> inv s'"
    and push_nothing: "inv s \<Longrightarrow> push s [] = Some (s, chunk_default)"
    and push_append: "inv s \<Longrightarrow> push s c = Some (s1, out1) \<Longrightarrow> push s1 d = Some (s2, out2) \<Longrightarrow>
      \<exists>out. push s (c @ d) = Some (s2, out) \<and> chunk_equiv norm out (chunk_append out1 out2)"
begin

lemma norm_cong:
  assumes "norm xs = norm xs'" "norm ys = norm ys'" shows "norm (xs @ ys) = norm (xs' @ ys')"
proof -
  have "norm (xs @ ys) = norm (norm xs @ norm ys)" by (simp only: norm_left norm_right)
  also have "\<dots> = norm (norm xs' @ norm ys')" by (simp only: assms)
  finally show ?thesis by (simp only: norm_left norm_right)
qed

lemma chunk_append_cong:
  "chunk_equiv norm a a' \<Longrightarrow> chunk_equiv norm b b' \<Longrightarrow> chunk_equiv norm (chunk_append a b) (chunk_append a' b')"
  by (auto simp: chunk_equiv_def chunk_append_def intro: norm_cong)

lemma chunk_equiv_refl: "chunk_equiv norm a a"
  by (simp add: chunk_equiv_def)

lemma chunk_equiv_trans: "chunk_equiv norm a b \<Longrightarrow> chunk_equiv norm b c \<Longrightarrow> chunk_equiv norm a c"
  by (simp add: chunk_equiv_def)

lemma chunk_equiv_sym: "chunk_equiv norm a b \<Longrightarrow> chunk_equiv norm b a"
  by (simp add: chunk_equiv_def)

text \<open>A run over any chunks ends in the state, and with the output, of one push of the whole text.\<close>

lemma push_all_concat:
  "inv s \<Longrightarrow> \<exists>t out whole. push_all push s cs = Some (t, out) \<and> push s (concat cs) = Some (t, whole) \<and>
     inv t \<and> chunk_equiv norm out whole"
proof (induction cs arbitrary: s)
  case Nil
  then show ?case by (simp add: push_nothing chunk_equiv_refl)
next
  case (Cons c cs)
  from push_returns [OF Cons.prems] obtain s1 out1 where s1: "push s c = Some (s1, out1)" "inv s1" by blast
  from Cons.IH [OF s1(2)] obtain t out whole where rest: "push_all push s1 cs = Some (t, out)"
    "push s1 (concat cs) = Some (t, whole)" "inv t" "chunk_equiv norm out whole" by blast
  from push_append [OF Cons.prems s1(1) rest(2)] obtain all where
    all: "push s (c @ concat cs) = Some (t, all)" "chunk_equiv norm all (chunk_append out1 whole)" by blast
  have "chunk_equiv norm (chunk_append out1 out) all"
    by (rule chunk_equiv_trans [OF chunk_append_cong [OF chunk_equiv_refl rest(4)] chunk_equiv_sym [OF all(2)]])
  with s1 rest all show ?case by simp
qed

lemma collect_chunks_concat:
  assumes "inv s"
  shows "\<exists>out whole. collect_chunks push finish s cs = Some out \<and>
    collect_chunks push finish s [concat cs] = Some whole \<and> chunk_equiv norm out whole"
proof -
  from push_all_concat [OF assms, of cs] obtain t out whole where "push_all push s cs = Some (t, out)"
    "push s (concat cs) = Some (t, whole)" "chunk_equiv norm out whole" by blast
  then show ?thesis
    by (auto simp: collect_chunks_def intro: chunk_append_cong chunk_equiv_refl)
qed

end

end
