(* ===== verification/Inline_Tags.thy ===== *)
theory Inline_Tags
  imports Stream_Text
begin

text \<open>
  \<^verbatim>\<open>codex-rs/utils/stream-parser/src/inline_hidden_tag.rs\<close> and \<^verbatim>\<open>citation.rs\<close>: inline
  tags hidden from the streamed text. Strings are lists of Unicode scalars instead of UTF-8 bytes: the
  positions compared and the cuts made are the same, since they lie on character boundaries.
\<close>

section \<open>Searching\<close>

text \<open>\<^verbatim>\<open>str::find\<close>.\<close>

fun find_str :: "ustr \<Rightarrow> ustr \<Rightarrow> nat option" where
  "find_str d [] = (if d = [] then Some 0 else None)"
| "find_str d (c # cs) = (if starts_with d (c # cs) then Some 0 else map_option Suc (find_str d cs))"

definition longest_suffix_prefix_len :: "ustr \<Rightarrow> ustr \<Rightarrow> nat" where
  "longest_suffix_prefix_len s needle =
     (let longest = min (length s) (length needle - 1) in
      case List.find (\<lambda>k. ends_with (take k needle) s) (rev [1..<longest + 1]) of
        Some k \<Rightarrow> k
      | None \<Rightarrow> 0)"

section \<open>The parser\<close>

record 'g extracted_inline_tag =
  inline_tag :: 'g
  inline_content :: ustr

record 'g inline_tag_spec =
  spec_tag :: 'g
  spec_open :: ustr
  spec_close :: ustr

record 'g active_tag =
  active_name :: 'g
  active_close :: ustr
  active_content :: ustr

record 'g inline_hidden_tag_parser =
  inline_specs :: "'g inline_tag_spec list"
  inline_pending :: ustr
  inline_active :: "'g active_tag option"

text \<open>The assertions of the constructor; \<open>None\<close> is their panic.\<close>

definition inline_new :: "'g inline_tag_spec list \<Rightarrow> 'g inline_hidden_tag_parser option" where
  "inline_new specs =
     (if specs \<noteq> [] \<and> list_all (\<lambda>spec. spec_open spec \<noteq> [] \<and> spec_close spec \<noteq> []) specs
      then Some \<lparr>inline_specs = specs, inline_pending = [], inline_active = None\<rparr>
      else None)"

text \<open>The order of \<^verbatim>\<open>min_by\<close>: the earlier position, the longer delimiter, the earlier spec.\<close>

definition open_before :: "nat \<times> nat \<times> nat \<Rightarrow> nat \<times> nat \<times> nat \<Rightarrow> bool" where
  "open_before a b \<longleftrightarrow>
     (case (a, b) of ((pos_a, len_a, idx_a), (pos_b, len_b, idx_b)) \<Rightarrow>
        pos_a < pos_b \<or> pos_a = pos_b \<and> (len_b < len_a \<or> len_b = len_a \<and> idx_a < idx_b))"

fun min_open :: "(nat \<times> nat \<times> nat) list \<Rightarrow> (nat \<times> nat \<times> nat) option" where
  "min_open [] = None"
| "min_open (a # as) =
     (case min_open as of None \<Rightarrow> Some a | Some b \<Rightarrow> Some (if open_before b a then b else a))"

definition find_next_open :: "'g inline_tag_spec list \<Rightarrow> ustr \<Rightarrow> (nat \<times> nat) option" where
  "find_next_open specs pending =
     map_option (\<lambda>(pos, len, idx). (pos, idx))
       (min_open (List.map_filter (\<lambda>(idx, spec).
          map_option (\<lambda>pos. (pos, length (spec_open spec), idx)) (find_str (spec_open spec) pending))
          (enumerate 0 specs)))"

definition max_open_prefix_suffix_len :: "'g inline_tag_spec list \<Rightarrow> ustr \<Rightarrow> nat" where
  "max_open_prefix_suffix_len specs pending =
     fold max (map (\<lambda>spec. longest_suffix_prefix_len pending (spec_open spec)) specs) 0"

text \<open>The loop of \<^verbatim>\<open>push_str\<close> over the pending text, the active tag and the output so far.\<close>

partial_function (option) push_loop ::
  "'g inline_tag_spec list \<Rightarrow> ustr \<Rightarrow> 'g active_tag option \<Rightarrow> 'g extracted_inline_tag stream_text_chunk \<Rightarrow>
     (ustr \<times> 'g active_tag option \<times> 'g extracted_inline_tag stream_text_chunk) option" where
  "push_loop specs pending active out =
     (case active of
        Some a \<Rightarrow>
          (case find_str (active_close a) pending of
             Some close_idx \<Rightarrow>
               push_loop specs (drop (close_idx + length (active_close a)) pending) None
                 (out\<lparr>extracted := extracted out @
                    [\<lparr>inline_tag = active_name a, inline_content = active_content a @ take close_idx pending\<rparr>]\<rparr>)
           | None \<Rightarrow>
               (let n = length pending - longest_suffix_prefix_len pending (active_close a) in
                Some (drop n pending, Some (a\<lparr>active_content := active_content a @ take n pending\<rparr>), out)))
      | None \<Rightarrow>
          (case find_next_open specs pending of
             Some (open_idx, spec_idx) \<Rightarrow>
               (let spec = specs ! spec_idx in
                push_loop specs (drop (open_idx + length (spec_open spec)) pending)
                  (Some \<lparr>active_name = spec_tag spec, active_close = spec_close spec, active_content = []\<rparr>)
                  (out\<lparr>visible_text := visible_text out @ take open_idx pending\<rparr>))
           | None \<Rightarrow>
               (let n = length pending - max_open_prefix_suffix_len specs pending in
                Some (drop n pending, None, out\<lparr>visible_text := visible_text out @ take n pending\<rparr>))))"

definition inline_push_str ::
  "'g inline_hidden_tag_parser \<Rightarrow> ustr \<Rightarrow>
     ('g inline_hidden_tag_parser \<times> 'g extracted_inline_tag stream_text_chunk) option" where
  "inline_push_str p chunk =
     map_option (\<lambda>(pending, active, out). (p\<lparr>inline_pending := pending, inline_active := active\<rparr>, out))
       (push_loop (inline_specs p) (inline_pending p @ chunk) (inline_active p) chunk_default)"

definition inline_finish ::
  "'g inline_hidden_tag_parser \<Rightarrow> 'g inline_hidden_tag_parser \<times> 'g extracted_inline_tag stream_text_chunk" where
  "inline_finish p =
     (case inline_active p of
        Some a \<Rightarrow>
          (p\<lparr>inline_pending := [], inline_active := None\<rparr>,
           \<lparr>visible_text = [],
            extracted = [\<lparr>inline_tag = active_name a, inline_content = active_content a @ inline_pending p\<rparr>]\<rparr>)
      | None \<Rightarrow> (p\<lparr>inline_pending := []\<rparr>, \<lparr>visible_text = inline_pending p, extracted = []\<rparr>))"

section \<open>Citations\<close>

datatype citation_tag = Citation

definition CITATION_OPEN :: ustr where
  "CITATION_OPEN = str ''<oai-mem-citation>''"

definition CITATION_CLOSE :: ustr where
  "CITATION_CLOSE = str ''</oai-mem-citation>''"

definition citation_spec :: "citation_tag inline_tag_spec" where
  "citation_spec = \<lparr>spec_tag = Citation, spec_open = CITATION_OPEN, spec_close = CITATION_CLOSE\<rparr>"

type_synonym citation_stream_parser = "citation_tag inline_hidden_tag_parser"

definition citation_new :: citation_stream_parser where
  "citation_new = \<lparr>inline_specs = [citation_spec], inline_pending = [], inline_active = None\<rparr>"

definition citation_chunk ::
  "citation_tag extracted_inline_tag stream_text_chunk \<Rightarrow> ustr stream_text_chunk" where
  "citation_chunk inner =
     \<lparr>visible_text = visible_text inner, extracted = map inline_content (extracted inner)\<rparr>"

definition citation_push_str ::
  "citation_stream_parser \<Rightarrow> ustr \<Rightarrow> (citation_stream_parser \<times> ustr stream_text_chunk) option" where
  "citation_push_str p chunk =
     map_option (\<lambda>(p', inner). (p', citation_chunk inner)) (inline_push_str p chunk)"

definition citation_finish :: "citation_stream_parser \<Rightarrow> citation_stream_parser \<times> ustr stream_text_chunk" where
  "citation_finish p = (case inline_finish p of (p', inner) \<Rightarrow> (p', citation_chunk inner))"

definition strip_citations :: "ustr \<Rightarrow> (ustr \<times> ustr list) option" where
  "strip_citations text_in =
     (case citation_push_str citation_new text_in of
        None \<Rightarrow> None
      | Some (p, out) \<Rightarrow>
          (let tail = snd (citation_finish p) in
           Some (visible_text out @ visible_text tail, extracted out @ extracted tail)))"

section \<open>Search in a stream\<close>

lemma starts_with_take: "starts_with d s \<longleftrightarrow> take (length d) s = d"
  by (auto simp: starts_with_iff) (metis append_take_drop_id)

lemma find_str_Some:
  "find_str d s = Some n \<longleftrightarrow>
     n \<le> length s \<and> starts_with d (drop n s) \<and> (\<forall>m < n. \<not> starts_with d (drop m s))"
proof (induction s arbitrary: n)
  case Nil
  then show ?case by (auto simp: starts_with_iff)
next
  case (Cons c cs)
  then show ?case
    by (cases n) (auto simp: less_Suc_eq_0_disj)
qed

lemma find_str_None: "find_str d s = None \<longleftrightarrow> (\<forall>m \<le> length s. \<not> starts_with d (drop m s))"
proof (induction s)
  case Nil
  then show ?case by (auto simp: starts_with_iff)
next
  case (Cons c cs)
  have "(\<forall>m \<le> Suc k. Q m) \<longleftrightarrow> Q 0 \<and> (\<forall>m \<le> k. Q (Suc m))" for Q and k :: nat
    by (metis Suc_le_mono le0 nat.exhaust)
  from this [of "length cs" "\<lambda>m. \<not> starts_with d (drop m (c # cs))"]
  have "(\<forall>m \<le> length (c # cs). \<not> starts_with d (drop m (c # cs))) \<longleftrightarrow>
      \<not> starts_with d (c # cs) \<and> (\<forall>m \<le> length cs. \<not> starts_with d (drop m cs))"
    by simp
  with Cons show ?case by auto
qed

lemma find_str_end:
  assumes "find_str d s = Some n" shows "n + length d \<le> length s"
proof -
  from assms obtain r where "n \<le> length s" "drop n s = d @ r" by (auto simp: find_str_Some starts_with_iff)
  from this(1) arg_cong [OF this(2), of length] show ?thesis by simp
qed

lemma find_str_append:
  assumes "find_str d s = Some n" shows "find_str d (s @ t) = Some n"
proof -
  from assms have n: "n \<le> length s" "starts_with d (drop n s)" "\<forall>m < n. \<not> starts_with d (drop m s)"
    unfolding find_str_Some by auto
  have "n + length d \<le> length s" using assms by (rule find_str_end)
  moreover have "starts_with d (drop m (s @ t)) = starts_with d (drop m s)" if "m + length d \<le> length s" for m
    using that by (simp add: starts_with_take)
  ultimately show ?thesis
    using n unfolding find_str_Some by auto
qed

lemma find_str_skip:
  assumes "\<forall>m < length x. \<not> starts_with d (drop m (x @ u))"
  shows "find_str d (x @ u) = map_option (\<lambda>n. length x + n) (find_str d u)"
  using assms
proof (induction x)
  case Nil
  then show ?case by (cases "find_str d u") auto
next
  case (Cons c x)
  from Cons.prems have "\<not> starts_with d (c # x @ u)" "\<forall>m < length x. \<not> starts_with d (drop m (x @ u))"
    by (auto dest: spec [of _ 0] spec [of _ "Suc _"])
  with Cons.IH show ?case by (cases "find_str d u") auto
qed

text \<open>How long a suffix of the text may still grow into the delimiter.\<close>

definition grows_into :: "ustr \<Rightarrow> ustr \<Rightarrow> nat \<Rightarrow> bool" where
  "grows_into s d k \<longleftrightarrow> k \<le> length s \<and> (k = 0 \<or> k < length d) \<and> drop (length s - k) s = take k d"

lemma find_rev_upt_Some:
  "List.find P (rev [1..<Suc n]) = Some k \<longleftrightarrow> 1 \<le> k \<and> k \<le> n \<and> P k \<and> (\<forall>j. k < j \<and> j \<le> n \<longrightarrow> \<not> P j)"
  by (induction n) (auto simp: le_Suc_eq)

lemma find_rev_upt_None: "List.find P (rev [1..<Suc n]) = None \<longleftrightarrow> (\<forall>k. 1 \<le> k \<and> k \<le> n \<longrightarrow> \<not> P k)"
  by (induction n) (auto simp: le_Suc_eq)

lemma longest_suffix_prefix:
  "grows_into s d (longest_suffix_prefix_len s d)"
  "grows_into s d k \<Longrightarrow> k \<le> longest_suffix_prefix_len s d"
proof -
  let ?m = "min (length s) (length d - 1)"
  let ?P = "\<lambda>k. ends_with (take k d) s"
  have ends: "?P k \<longleftrightarrow> drop (length s - k) s = take k d" if "k \<le> ?m" for k
  proof -
    have "length (take k d) = k" using that by auto
    then show ?thesis
      by (auto simp: ends_with_iff) (metis append_take_drop_id)
  qed
  have grows: "grows_into s d k \<longleftrightarrow> k = 0 \<or> k \<le> ?m \<and> ?P k" for k
    using ends by (auto simp: grows_into_def)
  have len: "longest_suffix_prefix_len s d =
      (case List.find ?P (rev [1..<Suc ?m]) of Some k \<Rightarrow> k | None \<Rightarrow> 0)"
    by (simp only: longest_suffix_prefix_len_def Let_def Suc_eq_plus1)
  show "grows_into s d (longest_suffix_prefix_len s d)"
  proof (cases "List.find ?P (rev [1..<Suc ?m])")
    case (Some k)
    with find_rev_upt_Some [of ?P ?m k] show ?thesis unfolding len grows by simp
  qed (simp add: len grows)
  show "k \<le> longest_suffix_prefix_len s d" if "grows_into s d k"
  proof (cases "List.find ?P (rev [1..<Suc ?m])")
    case None
    with find_rev_upt_None [of ?P ?m] have "\<not> (1 \<le> k \<and> k \<le> ?m \<and> ?P k)" by metis
    with None that show ?thesis unfolding len grows by auto
  next
    case (Some j)
    with find_rev_upt_Some [of ?P ?m j] have "\<not> (j < k \<and> k \<le> ?m \<and> ?P k)" by metis
    with Some that show ?thesis unfolding len grows by auto
  qed
qed

text \<open>What is held back is enough: once a text without the delimiter is cut down to that suffix, the
  delimiter is found, and held back, as in the whole text.\<close>

lemma drop_suffix:
  assumes "k \<le> length s" shows "drop (length (s @ t) - (k + length t)) (s @ t) = drop (length s - k) s @ t"
  using assms by simp

lemma find_str_held_back:
  assumes none: "find_str d s = None" and n: "n = length s - longest_suffix_prefix_len s d"
  shows "find_str d (s @ t) = map_option (\<lambda>i. n + i) (find_str d (drop n s @ t))"
proof -
  have "\<not> starts_with d (drop m (s @ t))" if m: "m < n" for m
  proof
    assume occ: "starts_with d (drop m (s @ t))"
    from m n have m_len: "m < length s" by simp
    show False
    proof (cases "m + length d \<le> length s")
      case True
      with occ have "starts_with d (drop m s)" by (simp add: starts_with_take)
      with none m_len show False unfolding find_str_None by auto
    next
      case False
      let ?k = "length s - m"
      have "drop m s = take ?k d"
      proof -
        from occ have "take (length d) (drop m s @ t) = d" using m_len by (simp add: starts_with_take)
        then have "take ?k (take (length d) (drop m s @ t)) = take ?k d" by simp
        with False m_len show ?thesis by (simp add: min_def)
      qed
      with False m_len have "grows_into s d ?k" by (auto simp: grows_into_def)
      from longest_suffix_prefix(2) [OF this] m n m_len show False by linarith
    qed
  qed
  then have "find_str d (take n s @ drop n s @ t) = map_option (\<lambda>i. length (take n s) + i) (find_str d (drop n s @ t))"
    using n by (intro find_str_skip) (simp add: append_assoc [symmetric] del: append_assoc)
  with n show ?thesis by (simp add: append_assoc [symmetric] del: append_assoc)
qed

lemma held_back_held_back:
  assumes n: "n = length s - longest_suffix_prefix_len s d"
  shows "longest_suffix_prefix_len (s @ t) d = longest_suffix_prefix_len (drop n s @ t) d"
proof (rule antisym)
  let ?l = "longest_suffix_prefix_len s d"
  let ?k = "longest_suffix_prefix_len (s @ t) d"
  have l: "?l \<le> length s" using longest_suffix_prefix(1) [of s d] by (simp add: grows_into_def)
  have k: "?k \<le> length s + length t" "?k = 0 \<or> ?k < length d" "drop (length s + length t - ?k) (s @ t) = take ?k d"
    using longest_suffix_prefix(1) [of "s @ t" d] by (simp_all add: grows_into_def)
  have len: "length (drop n s @ t) = ?l + length t" using n l by simp
  have "?k \<le> ?l + length t"
  proof (rule ccontr)
    assume "\<not> ?k \<le> ?l + length t"
    then obtain i where i: "?k = i + length t" "?l < i" by (metis add.commute add_less_cancel_right less_imp_add_positive linorder_not_le add.assoc less_add_same_cancel1)
    with k have "i \<le> length s" "drop (length s - i) s @ t = take (i + length t) d" by auto
    then have "drop (length s - i) s = take i d"
      by (metis (no_types) append_eq_append_conv diff_diff_cancel length_drop take_add take_take append_take_drop_id min.absorb1 le_add1 length_append add_diff_cancel_right' append_eq_conv_conj take_append)
    with i k have "grows_into s d i" using \<open>i \<le> length s\<close> by (auto simp: grows_into_def)
    from longest_suffix_prefix(2) [OF this] i show False by simp
  qed
  then have "grows_into (drop n s @ t) d ?k"
    using k len n l by (auto simp: grows_into_def drop_append add.commute)
  then show "?k \<le> longest_suffix_prefix_len (drop n s @ t) d" by (rule longest_suffix_prefix(2))
  let ?j = "longest_suffix_prefix_len (drop n s @ t) d"
  have "grows_into (drop n s @ t) d ?j" by (rule longest_suffix_prefix(1))
  then have "grows_into (s @ t) d ?j"
    using len n l by (auto simp: grows_into_def drop_append add.commute)
  then show "?j \<le> ?k" by (rule longest_suffix_prefix(2))
qed

section \<open>One tag\<close>

text \<open>The text held back: a proper prefix of the delimiter awaited.\<close>

definition held :: "ustr \<Rightarrow> ustr \<Rightarrow> bool" where
  "held d p \<longleftrightarrow> length p < length d \<and> take (length p) d = p"

lemma held_find: "held d p \<Longrightarrow> find_str d p = None"
  using find_str_end [of d p] by (cases "find_str d p") (auto simp: held_def)

lemma held_all:
  assumes "held d p" shows "longest_suffix_prefix_len p d = length p"
proof (rule antisym)
  show "longest_suffix_prefix_len p d \<le> length p"
    using longest_suffix_prefix(1) [of p d] by (simp add: grows_into_def)
  show "length p \<le> longest_suffix_prefix_len p d"
    using assms by (intro longest_suffix_prefix(2)) (auto simp: held_def grows_into_def)
qed

lemma held_back_held:
  "d \<noteq> [] \<Longrightarrow> held d (drop (length s - longest_suffix_prefix_len s d) s)"
  using longest_suffix_prefix(1) [of s d] by (auto simp: held_def grows_into_def)

lemma find_next_open_single:
  "find_next_open [spec] pending = map_option (\<lambda>pos. (pos, 0)) (find_str (spec_open spec) pending)"
  by (cases "find_str (spec_open spec) pending")
    (simp_all add: find_next_open_def List.map_filter_simps)

lemma max_open_single:
  "max_open_prefix_suffix_len [spec] pending = longest_suffix_prefix_len pending (spec_open spec)"
  by (simp add: max_open_prefix_suffix_len_def)

text \<open>The four ways an iteration goes.\<close>

lemma loop_open:
  "find_str (spec_open spec) p = Some i \<Longrightarrow>
   push_loop [spec] p None out = push_loop [spec] (drop (i + length (spec_open spec)) p)
     (Some \<lparr>active_name = spec_tag spec, active_close = spec_close spec, active_content = []\<rparr>)
     (out\<lparr>visible_text := visible_text out @ take i p\<rparr>)"
  by (subst push_loop.simps) (simp add: find_next_open_single)

lemma loop_visible:
  "find_str (spec_open spec) p = None \<Longrightarrow>
   push_loop [spec] p None out =
     (let n = length p - longest_suffix_prefix_len p (spec_open spec) in
      Some (drop n p, None, out\<lparr>visible_text := visible_text out @ take n p\<rparr>))"
  by (subst push_loop.simps) (simp add: find_next_open_single max_open_single)

lemma loop_close:
  "find_str (active_close a) p = Some i \<Longrightarrow>
   push_loop [spec] p (Some a) out = push_loop [spec] (drop (i + length (active_close a)) p) None
     (out\<lparr>extracted := extracted out @
        [\<lparr>inline_tag = active_name a, inline_content = active_content a @ take i p\<rparr>]\<rparr>)"
  by (subst push_loop.simps) simp

lemma loop_content:
  "find_str (active_close a) p = None \<Longrightarrow>
   push_loop [spec] p (Some a) out =
     (let n = length p - longest_suffix_prefix_len p (active_close a) in
      Some (drop n p, Some (a\<lparr>active_content := active_content a @ take n p\<rparr>), out))"
  by (subst push_loop.simps) simp

definition spec_ok :: "'g inline_tag_spec \<Rightarrow> bool" where
  "spec_ok spec \<longleftrightarrow> spec_open spec \<noteq> [] \<and> spec_close spec \<noteq> []"

definition awaited :: "'g inline_tag_spec \<Rightarrow> 'g active_tag option \<Rightarrow> ustr" where
  "awaited spec active = (case active of Some a \<Rightarrow> active_close a | None \<Rightarrow> spec_open spec)"

lemma loop_held_back:
  assumes "find_str (awaited spec active) p = None"
    and n: "n = length p - longest_suffix_prefix_len p (awaited spec active)"
  shows "push_loop [spec] (p @ t) active out =
    (case active of
       Some a \<Rightarrow> push_loop [spec] (drop n p @ t) (Some (a\<lparr>active_content := active_content a @ take n p\<rparr>)) out
     | None \<Rightarrow> push_loop [spec] (drop n p @ t) None (out\<lparr>visible_text := visible_text out @ take n p\<rparr>))"
proof -
  let ?d = "awaited spec active"
  have n_le: "n \<le> length p" using n by simp
  have find: "find_str ?d (p @ t) = map_option (\<lambda>i. n + i) (find_str ?d (drop n p @ t))"
    using assms by (rule find_str_held_back)
  have len: "longest_suffix_prefix_len (p @ t) ?d = longest_suffix_prefix_len (drop n p @ t) ?d"
    using n by (rule held_back_held_back)
  have dropn: "drop n (p @ t) = drop n p @ t" and taken: "take n (p @ t) = take n p"
    using n_le by simp_all
  have cut_drop: "drop (n + i) (p @ t) = drop i (drop n p @ t)" for i
    by (simp only: dropn [symmetric] drop_drop add.commute)
  have cut_take: "take (n + i) (p @ t) = take n p @ take i (drop n p @ t)" for i
    by (simp only: dropn [symmetric] taken [symmetric] take_add)
  have rest: "length (p @ t) - longest_suffix_prefix_len (p @ t) ?d =
      n + (length (drop n p @ t) - longest_suffix_prefix_len (drop n p @ t) ?d)"
  proof -
    have "longest_suffix_prefix_len (drop n p @ t) ?d \<le> length (drop n p @ t)"
      using longest_suffix_prefix(1) [of "drop n p @ t" ?d] by (simp only: grows_into_def)
    with n_le len show ?thesis by simp
  qed
  show ?thesis
  proof (cases active)
    case None
    then have d: "?d = spec_open spec" by (simp add: awaited_def)
    show ?thesis
    proof (cases "find_str ?d (drop n p @ t)")
      case (Some i)
      with find have "find_str ?d (p @ t) = Some (n + i)" by simp
      with Some None d show ?thesis
        by (simp add: loop_open cut_take cut_drop add.assoc del: drop_append take_append)
    next
      case none: None
      with find have "find_str ?d (p @ t) = None" by simp
      with none None d rest show ?thesis
        by (simp add: loop_visible Let_def cut_take cut_drop del: length_append drop_append take_append)
    qed
  next
    case (Some a)
    then have d: "?d = active_close a" by (simp add: awaited_def)
    show ?thesis
    proof (cases "find_str ?d (drop n p @ t)")
      case found: (Some i)
      with find have "find_str ?d (p @ t) = Some (n + i)" by simp
      with found Some d show ?thesis
        by (simp add: loop_close cut_take cut_drop add.assoc del: drop_append take_append)
    next
      case None
      with find have "find_str ?d (p @ t) = None" by simp
      with None Some d rest show ?thesis
        by (simp add: loop_content Let_def cut_take cut_drop del: length_append drop_append take_append)
    qed
  qed
qed

text \<open>The loop always ends, holding back a proper prefix of the delimiter it awaits; and more text is
  treated as if the loop had not stopped in between.\<close>

definition active_ok :: "'g active_tag option \<Rightarrow> bool" where
  "active_ok active \<longleftrightarrow> (case active of Some a \<Rightarrow> active_close a \<noteq> [] | None \<Rightarrow> True)"

definition loop_result ::
  "'g inline_tag_spec \<Rightarrow> ustr \<Rightarrow> 'g active_tag option \<Rightarrow> ustr \<Rightarrow> 'g active_tag option \<Rightarrow>
     'g extracted_inline_tag stream_text_chunk \<Rightarrow> bool" where
  "loop_result spec p active p' active' d \<longleftrightarrow>
     active_ok active' \<and> held (awaited spec active') p' \<and>
     (\<forall>out. push_loop [spec] p active out = Some (p', active', chunk_append out d)) \<and>
     (\<forall>t out. push_loop [spec] (p @ t) active out = push_loop [spec] (p' @ t) active' (chunk_append out d))"

definition visible_chunk :: "ustr \<Rightarrow> 't stream_text_chunk" where
  "visible_chunk v = \<lparr>visible_text = v, extracted = []\<rparr>"

definition extracted_chunk :: "'t \<Rightarrow> 't stream_text_chunk" where
  "extracted_chunk x = \<lparr>visible_text = [], extracted = [x]\<rparr>"

lemma chunk_updates:
  "out\<lparr>visible_text := visible_text out @ v\<rparr> = chunk_append out (visible_chunk v)"
  "out\<lparr>extracted := extracted out @ [x]\<rparr> = chunk_append out (extracted_chunk x)"
  for out :: "'t stream_text_chunk"
  by (simp_all add: chunk_append_def visible_chunk_def extracted_chunk_def)

lemma loop_ends:
  assumes "spec_ok spec" "active_ok active"
  shows "\<exists>p' active' d. loop_result spec p active p' active' d"
  using assms(2)
proof (induction "length p" arbitrary: p active rule: less_induct)
  case less
  let ?d = "awaited spec active"
  have d: "?d \<noteq> []" using assms(1) less.prems by (auto simp: awaited_def spec_ok_def active_ok_def split: option.splits)
  show ?case
  proof (cases "find_str ?d p")
    case None
    define n where n: "n = length p - longest_suffix_prefix_len p ?d"
    have held: "held ?d (drop n p)" unfolding n using d by (rule held_back_held)
    note more = loop_held_back [OF None n]
    show ?thesis
    proof (cases active)
      case inactive: None
      have "loop_result spec p active (drop n p) None (visible_chunk (take n p))"
        using None held more inactive n
        by (simp add: loop_result_def active_ok_def awaited_def loop_visible Let_def chunk_updates)
      then show ?thesis by blast
    next
      case (Some a)
      have "loop_result spec p active (drop n p) (Some (a\<lparr>active_content := active_content a @ take n p\<rparr>)) chunk_default"
        using None held more Some n less.prems
        by (simp add: loop_result_def active_ok_def awaited_def loop_content Let_def)
      then show ?thesis by blast
    qed
  next
    case (Some i)
    let ?q = "drop (i + length ?d) p"
    have i: "i + length ?d \<le> length p" using Some by (rule find_str_end)
    with d have shorter: "length ?q < length p" by (cases ?d) auto
    have more: "find_str ?d (p @ t) = Some i" "drop (i + length ?d) (p @ t) = ?q @ t" "take i (p @ t) = take i p" for t
      using Some i by (simp_all add: find_str_append)
    show ?thesis
    proof (cases active)
      case None
      let ?a = "Some \<lparr>active_name = spec_tag spec, active_close = spec_close spec, active_content = []\<rparr>"
      have "active_ok ?a" using assms(1) by (simp add: active_ok_def spec_ok_def)
      from less.hyps [OF shorter this] obtain p' active' d' where "loop_result spec ?q ?a p' active' d'" by blast
      then have "loop_result spec p active p' active' (chunk_append (visible_chunk (take i p)) d')"
        using Some None more
        by (simp add: loop_result_def awaited_def loop_open chunk_updates chunk_append_assoc del: drop_append take_append)
      then show ?thesis by blast
    next
      case active: (Some a)
      have "active_ok (None :: 'a active_tag option)" by (simp add: active_ok_def)
      from less.hyps [OF shorter this] obtain p' active' d' where "loop_result spec ?q None p' active' d'" by blast
      then have "loop_result spec p active p' active' (chunk_append (extracted_chunk
          \<lparr>inline_tag = active_name a, inline_content = active_content a @ take i p\<rparr>) d')"
        using Some active more
        by (simp add: loop_result_def awaited_def loop_close chunk_updates chunk_append_assoc del: drop_append take_append)
      then show ?thesis by blast
    qed
  qed
qed

text \<open>Parsers for one tag, between two pushes.\<close>

definition inline_ok :: "'g inline_hidden_tag_parser \<Rightarrow> bool" where
  "inline_ok p \<longleftrightarrow> (case inline_specs p of
     [spec] \<Rightarrow> spec_ok spec \<and> active_ok (inline_active p) \<and>
       held (awaited spec (inline_active p)) (inline_pending p)
   | _ \<Rightarrow> False)"

lemma inline_push_result:
  assumes "inline_specs p = [spec]"
    and "loop_result spec (inline_pending p @ c) (inline_active p) p' active' d"
  shows "inline_push_str p c = Some (p\<lparr>inline_pending := p', inline_active := active'\<rparr>, d)"
  using assms by (simp add: inline_push_str_def loop_result_def)

interpretation inline_tags: stream_text_parser inline_push_str inline_finish "\<lambda>xs. xs" inline_ok
proof
  fix p p1 p2 :: "'g inline_hidden_tag_parser" and c d out1 out2
  assume ok: "inline_ok p"
  then obtain spec where spec: "inline_specs p = [spec]" "spec_ok spec" "active_ok (inline_active p)"
    "held (awaited spec (inline_active p)) (inline_pending p)"
    by (auto simp: inline_ok_def split: list.splits)
  from loop_ends [OF spec(2,3)] obtain q active1 o1
    where first: "loop_result spec (inline_pending p @ c) (inline_active p) q active1 o1" by blast
  note push = inline_push_result [OF spec(1) first]
  show "\<exists>s' out. inline_push_str p c = Some (s', out) \<and> inline_ok s'"
    using push first spec by (simp add: inline_ok_def loop_result_def)
  have "longest_suffix_prefix_len (inline_pending p) (awaited spec (inline_active p)) = length (inline_pending p)"
    "find_str (awaited spec (inline_active p)) (inline_pending p) = None"
    using spec(4) by (simp_all add: held_all held_find)
  then show "inline_push_str p [] = Some (p, chunk_default)"
    using spec(1)
    by (cases "inline_active p") (simp_all add: inline_push_str_def awaited_def loop_visible loop_content chunk_default_def)
  assume run: "inline_push_str p c = Some (p1, out1)" "inline_push_str p1 d = Some (p2, out2)"
  then have p1: "p1 = p\<lparr>inline_pending := q, inline_active := active1\<rparr>" "out1 = o1" using push by simp_all
  from first have ok1: "active_ok active1" by (simp add: loop_result_def)
  from loop_ends [OF spec(2) ok1] obtain r active2 o2
    where second: "loop_result spec (q @ d) active1 r active2 o2" by blast
  with p1 spec(1) run(2) have p2: "p2 = p\<lparr>inline_pending := r, inline_active := active2\<rparr>" "out2 = o2"
    using inline_push_result [of p1 spec d r active2 o2] by simp_all
  have "push_loop [spec] (inline_pending p @ c @ d) (inline_active p) chunk_default =
      Some (r, active2, chunk_append o1 o2)"
    using first second unfolding loop_result_def by (metis append.assoc chunk_append_default(1))
  with spec(1) p1 p2 show "\<exists>out. inline_push_str p (c @ d) = Some (p2, out) \<and>
      chunk_equiv (\<lambda>xs. xs) out (chunk_append out1 out2)"
    by (simp add: inline_push_str_def chunk_equiv_def)
qed simp_all

section \<open>Citations in any chunks\<close>

lemma citation_chunk_append: "citation_chunk (chunk_append a b) = chunk_append (citation_chunk a) (citation_chunk b)"
  by (simp add: citation_chunk_def chunk_append_def)

interpretation citations: stream_text_parser citation_push_str citation_finish "\<lambda>xs. xs" inline_ok
proof
  fix p p1 p2 :: citation_stream_parser and c d out1 out2
  assume ok: "inline_ok p"
  show "\<exists>s' out. citation_push_str p c = Some (s', out) \<and> inline_ok s'"
    using inline_tags.push_returns [OF ok, of c] by (auto simp: citation_push_str_def)
  show "citation_push_str p [] = Some (p, chunk_default)"
    using inline_tags.push_nothing [OF ok]
    by (simp add: citation_push_str_def citation_chunk_def chunk_default_def)
  assume "citation_push_str p c = Some (p1, out1)" "citation_push_str p1 d = Some (p2, out2)"
  then obtain o1 o2 where "inline_push_str p c = Some (p1, o1)" "inline_push_str p1 d = Some (p2, o2)"
    "out1 = citation_chunk o1" "out2 = citation_chunk o2"
    by (auto simp: citation_push_str_def)
  with inline_tags.push_append [OF ok, of c p1 o1 d p2 o2]
  show "\<exists>out. citation_push_str p (c @ d) = Some (p2, out) \<and> chunk_equiv (\<lambda>xs. xs) out (chunk_append out1 out2)"
    by (auto simp: citation_push_str_def citation_chunk_def chunk_append_def chunk_equiv_def)
qed simp_all

text \<open>What hiding a tag means for a whole text: the text up to the first opening delimiter is visible,
  what follows up to the first closing delimiter is hidden, and so on; a tag that is not closed hides
  the rest.\<close>

function hide_tags :: "ustr \<Rightarrow> ustr \<Rightarrow> ustr \<Rightarrow> ustr \<times> ustr list" where
  "hide_tags open_tag close_tag s =
     (case (if open_tag = [] then None else find_str open_tag s) of
        None \<Rightarrow> (s, [])
      | Some i \<Rightarrow>
          (let body = drop (i + length open_tag) s in
           case find_str close_tag body of
             None \<Rightarrow> (take i s, [body])
           | Some j \<Rightarrow>
               (case hide_tags open_tag close_tag (drop (j + length close_tag) body) of
                  (visible, contents) \<Rightarrow> (take i s @ visible, take j body # contents))))"
  by pat_completeness auto

termination
proof (relation "measure (\<lambda>(open_tag, close_tag, s). length s)")
  fix open_tag close_tag s :: ustr and i body j
  assume "(if open_tag = [] then None else find_str open_tag s) = Some i" "body = drop (i + length open_tag) s"
    "find_str close_tag body = Some j"
  moreover from this have "open_tag \<noteq> []" "i + length open_tag \<le> length s"
    using find_str_end by (auto split: if_splits)
  ultimately show "((open_tag, close_tag, drop (j + length close_tag) body), open_tag, close_tag, s)
      \<in> measure (\<lambda>(open_tag, close_tag, s). length s)"
    by (cases open_tag) auto
qed simp

declare hide_tags.simps [simp del]

definition tag_chunk :: "'g \<Rightarrow> ustr \<times> ustr list \<Rightarrow> 'g extracted_inline_tag stream_text_chunk" where
  "tag_chunk g vc = \<lparr>visible_text = fst vc,
     extracted = map (\<lambda>content. \<lparr>inline_tag = g, inline_content = content\<rparr>) (snd vc)\<rparr>"

definition flush :: "ustr \<times> 'g active_tag option \<times> 'g extracted_inline_tag stream_text_chunk \<Rightarrow>
    'g extracted_inline_tag stream_text_chunk" where
  "flush r = (case r of (p, active, out) \<Rightarrow> chunk_append out (snd (inline_finish
     \<lparr>inline_specs = [], inline_pending = p, inline_active = active\<rparr>)))"

lemma loop_hides:
  assumes "spec_ok spec"
  shows "map_option flush (push_loop [spec] s None out) =
    Some (chunk_append out (tag_chunk (spec_tag spec) (hide_tags (spec_open spec) (spec_close spec) s)))"
proof (induction "spec_open spec" "spec_close spec" s arbitrary: out rule: hide_tags.induct)
  case (1 s)
  have ne: "spec_open spec \<noteq> []" using assms by (simp add: spec_ok_def)
  show ?case
  proof (cases "find_str (spec_open spec) s")
    case None
    with ne show ?thesis
      by (simp add: loop_visible Let_def flush_def inline_finish_def tag_chunk_def chunk_append_def
          hide_tags.simps [of _ _ s])
  next
    case (Some i)
    let ?body = "drop (i + length (spec_open spec)) s"
    show ?thesis
    proof (cases "find_str (spec_close spec) ?body")
      case None
      with Some ne show ?thesis
        by (simp add: loop_open loop_content Let_def flush_def inline_finish_def tag_chunk_def chunk_append_def
            hide_tags.simps [of _ _ s] del: drop_drop)
    next
      case close: (Some j)
      obtain v xs where rest: "hide_tags (spec_open spec) (spec_close spec)
          (drop (j + length (spec_close spec)) ?body) = (v, xs)" by fastforce
      with "1.hyps" [of i ?body j] Some close ne show ?thesis
        by (simp add: loop_open loop_close hide_tags.simps [of _ _ s] tag_chunk_def chunk_append_def Let_def
            del: map_option_eq_Some)
    qed
  qed
qed

lemma citation_new_ok: "inline_ok citation_new"
  by (simp add: inline_ok_def citation_new_def spec_ok_def citation_spec_def active_ok_def held_def awaited_def)
    (simp add: CITATION_OPEN_def CITATION_CLOSE_def str_def)

lemma citations_whole:
  "map_option (\<lambda>c. (visible_text c, extracted c)) (collect_chunks citation_push_str citation_finish citation_new [s]) =
   Some (hide_tags CITATION_OPEN CITATION_CLOSE s)"
proof -
  have ok: "spec_ok citation_spec"
    by (simp add: spec_ok_def citation_spec_def CITATION_OPEN_def CITATION_CLOSE_def str_def)
  from loop_hides [OF ok, of s chunk_default] obtain p active out
    where run: "push_loop [citation_spec] s None chunk_default = Some (p, active, out)"
    and "flush (p, active, out) = tag_chunk Citation (hide_tags CITATION_OPEN CITATION_CLOSE s)"
    by (auto simp: citation_spec_def)
  moreover have "snd (inline_finish (citation_new\<lparr>inline_pending := p, inline_active := active\<rparr>)) =
      snd (inline_finish \<lparr>inline_specs = [], inline_pending = p, inline_active = active\<rparr>)"
    by (simp add: inline_finish_def split: option.split)
  ultimately have "citation_chunk (chunk_append out (snd (inline_finish
      (citation_new\<lparr>inline_pending := p, inline_active := active\<rparr>)))) =
      \<lparr>visible_text = fst (hide_tags CITATION_OPEN CITATION_CLOSE s),
       extracted = snd (hide_tags CITATION_OPEN CITATION_CLOSE s)\<rparr>"
    by (simp add: flush_def) (simp add: citation_chunk_def tag_chunk_def o_def)
  moreover have "push_loop (inline_specs citation_new) (inline_pending citation_new @ s) (inline_active citation_new)
      chunk_default = Some (p, active, out)"
    using run by (simp add: citation_new_def)
  ultimately show ?thesis
    by (simp add: collect_chunks_def citation_push_str_def inline_push_str_def citation_finish_def
        citation_chunk_append split_beta)
qed

lemma citations_collect:
  "map_option (\<lambda>c. (visible_text c, extracted c))
     (collect_chunks citation_push_str citation_finish citation_new cs) =
   Some (hide_tags CITATION_OPEN CITATION_CLOSE (concat cs))"
proof -
  from citations.collect_chunks_concat [OF citation_new_ok, of cs] obtain out whole
    where "collect_chunks citation_push_str citation_finish citation_new cs = Some out"
      "collect_chunks citation_push_str citation_finish citation_new [concat cs] = Some whole"
      "chunk_equiv (\<lambda>xs. xs) out whole" by blast
  with citations_whole [of "concat cs"] show ?thesis by (simp add: chunk_equiv_def)
qed

text \<open>However the assistant's text is cut into chunks, streaming it through the citation parser shows
  and extracts what hiding the citation tags of the whole text does; and \<^verbatim>\<open>strip_citations\<close>
  does the same to a whole text.\<close>

theorem citations_streamed:
  "map_option (\<lambda>c. (visible_text c, extracted c))
     (collect_chunks citation_push_str citation_finish citation_new cs) =
   Some (hide_tags CITATION_OPEN CITATION_CLOSE (concat cs)) \<and>
   strip_citations (concat cs) = Some (hide_tags CITATION_OPEN CITATION_CLOSE (concat cs))"
proof -
  have "strip_citations s = map_option (\<lambda>c. (visible_text c, extracted c))
      (collect_chunks citation_push_str citation_finish citation_new [s])" for s
    by (simp add: strip_citations_def collect_chunks_def chunk_append_def chunk_default_def Let_def split: option.split)
  then show ?thesis
    using citations_collect [of cs] citations_whole [of "concat cs"] by simp
qed

end
