(* ===== verification/Tagged_Lines.thy ===== *)
theory Tagged_Lines
  imports Stream_Text
begin

text \<open>
  \<^verbatim>\<open>codex-rs/utils/stream-parser/src/tagged_line_parser.rs\<close> and \<^verbatim>\<open>proposed_plan.rs\<close>:
  blocks between tags that stand alone on a line, and the plan the assistant proposes in such a block.
\<close>

section \<open>The line parser\<close>

record 'g tag_spec =
  tag_open :: ustr
  tag_close :: ustr
  tag_name :: 'g

datatype 'g tagged_line_segment = Normal ustr | TagStart 'g | TagDelta 'g ustr | TagEnd 'g

record 'g tagged_line_parser =
  tag_specs :: "'g tag_spec list"
  current_tag :: "'g option"
  detect_tag :: bool
  line_buffer :: ustr

definition tagged_new :: "'g tag_spec list \<Rightarrow> 'g tagged_line_parser" where
  "tagged_new specs = \<lparr>tag_specs = specs, current_tag = None, detect_tag = True, line_buffer = []\<rparr>"

fun push_segment :: "'g tagged_line_segment list \<Rightarrow> 'g tagged_line_segment \<Rightarrow> 'g tagged_line_segment list" where
  "push_segment segments (Normal delta) =
     (if delta = [] then segments
      else case (segments = [], last segments) of
             (False, Normal existing) \<Rightarrow> butlast segments @ [Normal (existing @ delta)]
           | _ \<Rightarrow> segments @ [Normal delta])"
| "push_segment segments (TagDelta g delta) =
     (if delta = [] then segments
      else case (segments = [], last segments) of
             (False, TagDelta existing_tag existing) \<Rightarrow>
               if existing_tag = g then butlast segments @ [TagDelta existing_tag (existing @ delta)]
               else segments @ [TagDelta g delta]
           | _ \<Rightarrow> segments @ [TagDelta g delta])"
| "push_segment segments (TagStart g) = segments @ [TagStart g]"
| "push_segment segments (TagEnd g) = segments @ [TagEnd g]"

definition text_segment :: "'g option \<Rightarrow> ustr \<Rightarrow> 'g tagged_line_segment" where
  "text_segment current txt = (case current of Some g \<Rightarrow> TagDelta g txt | None \<Rightarrow> Normal txt)"

definition push_text ::
  "'g tagged_line_parser \<Rightarrow> ustr \<Rightarrow> 'g tagged_line_segment list \<Rightarrow> 'g tagged_line_segment list" where
  "push_text p txt segments = push_segment segments (text_segment (current_tag p) txt)"

definition is_tag_prefix :: "'g tag_spec list \<Rightarrow> ustr \<Rightarrow> bool" where
  "is_tag_prefix specs slug =
     (let slug = trim_end slug in
      list_ex (\<lambda>spec. starts_with slug (tag_open spec) \<or> starts_with slug (tag_close spec)) specs)"

definition match_open :: "'g tag_spec list \<Rightarrow> ustr \<Rightarrow> 'g option" where
  "match_open specs slug = map_option tag_name (List.find (\<lambda>spec. tag_open spec = slug) specs)"

definition match_close :: "'g tag_spec list \<Rightarrow> ustr \<Rightarrow> 'g option" where
  "match_close specs slug = map_option tag_name (List.find (\<lambda>spec. tag_close spec = slug) specs)"

text \<open>What a complete line is: the tag state after it and the segment it gives.\<close>

definition line_segment :: "'g tag_spec list \<Rightarrow> 'g option \<Rightarrow> ustr \<Rightarrow> 'g option \<times> 'g tagged_line_segment" where
  "line_segment specs current line =
     (let without_newline = (case strip_suffix [LF] line of Some l \<Rightarrow> l | None \<Rightarrow> line);
          slug = trim_end (trim_start without_newline)
      in case (match_open specs slug, current) of
           (Some g, None) \<Rightarrow> (Some g, TagStart g)
         | _ \<Rightarrow>
             (case (match_close specs slug, current) of
                (Some g, Some h) \<Rightarrow>
                  if h = g then (None, TagEnd g) else (current, text_segment current line)
              | _ \<Rightarrow> (current, text_segment current line)))"

definition tagged_finish_line ::
  "'g tagged_line_parser \<Rightarrow> 'g tagged_line_segment list \<Rightarrow> 'g tagged_line_parser \<times> 'g tagged_line_segment list" where
  "tagged_finish_line p segments =
     (case line_segment (tag_specs p) (current_tag p) (line_buffer p) of
        (current', segment) \<Rightarrow>
          (p\<lparr>line_buffer := [], current_tag := current', detect_tag := True\<rparr>, push_segment segments segment))"

definition parse_char ::
  "'g tagged_line_parser \<times> ustr \<times> 'g tagged_line_segment list \<Rightarrow> uchar \<Rightarrow>
     'g tagged_line_parser \<times> ustr \<times> 'g tagged_line_segment list" where
  "parse_char st ch =
     (case st of (p, run, segments) \<Rightarrow>
        if detect_tag p then
          (let segments1 = (if run \<noteq> [] then push_text p run segments else segments);
               p1 = p\<lparr>line_buffer := line_buffer p @ [ch]\<rparr>
           in if ch = LF then (case tagged_finish_line p1 segments1 of (p2, segments2) \<Rightarrow> (p2, [], segments2))
              else
                (let slug = trim_start (line_buffer p1) in
                 if slug = [] \<or> is_tag_prefix (tag_specs p1) slug then (p1, [], segments1)
                 else (p1\<lparr>line_buffer := [], detect_tag := False\<rparr>, [], push_text p1 (line_buffer p1) segments1)))
        else
          (let run1 = run @ [ch] in
           if ch = LF then (p\<lparr>detect_tag := True\<rparr>, [], push_text p run1 segments)
           else (p, run1, segments)))"

definition tagged_parse ::
  "'g tagged_line_parser \<Rightarrow> ustr \<Rightarrow> 'g tagged_line_parser \<times> 'g tagged_line_segment list" where
  "tagged_parse p delta =
     (case foldl parse_char (p, [], []) delta of
        (p', run, segments) \<Rightarrow> (p', if run \<noteq> [] then push_text p' run segments else segments))"

definition tagged_finish ::
  "'g tagged_line_parser \<Rightarrow> 'g tagged_line_parser \<times> 'g tagged_line_segment list" where
  "tagged_finish p =
     (let (p1, segments) =
            (if line_buffer p \<noteq> [] then
               (case line_segment (tag_specs p) (current_tag p) (line_buffer p) of
                  (current', segment) \<Rightarrow> (p\<lparr>line_buffer := [], current_tag := current'\<rparr>, push_segment [] segment))
             else (p, []))
      in case current_tag p1 of
           Some g \<Rightarrow> (p1\<lparr>current_tag := None, detect_tag := True\<rparr>, push_segment segments (TagEnd g))
         | None \<Rightarrow> (p1\<lparr>detect_tag := True\<rparr>, segments))"

section \<open>Proposed plans\<close>

datatype plan_tag = ProposedPlan

datatype proposed_plan_segment =
    PlanNormal ustr
  | ProposedPlanStart
  | ProposedPlanDelta ustr
  | ProposedPlanEnd

definition OPEN_TAG :: ustr where
  "OPEN_TAG = str ''<proposed_plan>''"

definition CLOSE_TAG :: ustr where
  "CLOSE_TAG = str ''</proposed_plan>''"

type_synonym proposed_plan_parser = "plan_tag tagged_line_parser"

definition plan_specs :: "plan_tag tag_spec list" where
  "plan_specs = [\<lparr>tag_open = OPEN_TAG, tag_close = CLOSE_TAG, tag_name = ProposedPlan\<rparr>]"

definition plan_new :: proposed_plan_parser where
  "plan_new = tagged_new plan_specs"

fun plan_segment :: "plan_tag tagged_line_segment \<Rightarrow> proposed_plan_segment" where
  "plan_segment (Normal txt) = PlanNormal txt"
| "plan_segment (TagStart ProposedPlan) = ProposedPlanStart"
| "plan_segment (TagDelta ProposedPlan txt) = ProposedPlanDelta txt"
| "plan_segment (TagEnd ProposedPlan) = ProposedPlanEnd"

fun plan_visible :: "proposed_plan_segment \<Rightarrow> ustr" where
  "plan_visible (PlanNormal txt) = txt"
| "plan_visible _ = []"

definition map_segments :: "plan_tag tagged_line_segment list \<Rightarrow> proposed_plan_segment stream_text_chunk" where
  "map_segments segments =
     (let mapped = map plan_segment segments
      in \<lparr>visible_text = concat (map plan_visible mapped), extracted = mapped\<rparr>)"

definition plan_push_str ::
  "proposed_plan_parser \<Rightarrow> ustr \<Rightarrow> (proposed_plan_parser \<times> proposed_plan_segment stream_text_chunk) option" where
  "plan_push_str p chunk = (case tagged_parse p chunk of (p', segments) \<Rightarrow> Some (p', map_segments segments))"

definition plan_finish :: "proposed_plan_parser \<Rightarrow> proposed_plan_parser \<times> proposed_plan_segment stream_text_chunk" where
  "plan_finish p = (case tagged_finish p of (p', segments) \<Rightarrow> (p', map_segments segments))"

definition strip_proposed_plan_blocks :: "ustr \<Rightarrow> ustr" where
  "strip_proposed_plan_blocks txt =
     (case tagged_parse plan_new txt of
        (p, segments) \<Rightarrow> visible_text (map_segments segments) @ visible_text (snd (plan_finish p)))"

fun plan_text_step :: "ustr \<times> bool \<Rightarrow> proposed_plan_segment \<Rightarrow> ustr \<times> bool" where
  "plan_text_step (plan_text, saw_plan_block) ProposedPlanStart = ([], True)"
| "plan_text_step (plan_text, saw_plan_block) (ProposedPlanDelta delta) = (plan_text @ delta, saw_plan_block)"
| "plan_text_step (plan_text, saw_plan_block) ProposedPlanEnd = (plan_text, saw_plan_block)"
| "plan_text_step (plan_text, saw_plan_block) (PlanNormal txt) = (plan_text, saw_plan_block)"

definition extract_proposed_plan_text :: "ustr \<Rightarrow> ustr option" where
  "extract_proposed_plan_text txt =
     (case tagged_parse plan_new txt of
        (p, segments) \<Rightarrow>
          (case foldl plan_text_step ([], False)
                  (extracted (map_segments segments) @ extracted (snd (plan_finish p))) of
             (plan_text, saw_plan_block) \<Rightarrow> if saw_plan_block then Some plan_text else None))"

end
