(* ===== verification/Tagged_Lines_Laws.thy ===== *)
theory Tagged_Lines_Laws
  imports Tagged_Lines
begin

text \<open>
  The line parser works character by character and reports text in runs; here it is shown to treat a
  text line by line, whatever the chunks.
\<close>

section \<open>Merged segments\<close>

text \<open>Segments as one push would report them.\<close>

definition merge :: "'g tagged_line_segment list \<Rightarrow> 'g tagged_line_segment list" where
  "merge segments = foldl push_segment [] segments"

lemma push_segment_empty [simp]: "push_segment segments (text_segment c []) = segments"
  by (simp add: text_segment_def split: option.split)

lemma push_segment_join:
  "push_segment (push_segment segments (text_segment c x)) (text_segment c y) =
   push_segment segments (text_segment c (x @ y))"
  by (cases segments rule: rev_cases; cases c)
    (auto simp: text_segment_def butlast_append split: tagged_line_segment.splits)

lemma push_segment_cases:
  "push_segment segments s = segments @ [s] \<or>
   (\<exists>c. s = text_segment c [] \<and> push_segment segments s = segments) \<or>
   (\<exists>c x y rest. segments = rest @ [text_segment c x] \<and> s = text_segment c y \<and>
      push_segment segments s = rest @ [text_segment c (x @ y)])"
proof -
  have text_case: ?thesis if s: "s = text_segment c v" for c v
  proof (cases "v = []")
    case False
    show ?thesis
    proof (cases segments rule: rev_cases)
      case Nil
      with False s show ?thesis by (simp add: text_segment_def split: option.split)
    next
      case (snoc rest t)
      have "push_segment (rest @ [t]) s = rest @ [t, s] \<or>
          (\<exists>x. t = text_segment c x \<and> push_segment (rest @ [t]) s = rest @ [text_segment c (x @ v)])"
        using False by (cases t; cases c) (auto simp: s text_segment_def)
      with snoc s show ?thesis by auto
    qed
  qed (use s in auto)
  show ?thesis
    using text_case [of None] text_case [of "Some _"] by (cases s) (simp_all add: text_segment_def)
qed

lemma foldl_push_merge: "foldl push_segment acc (foldl push_segment [] xs) = foldl push_segment acc xs"
proof (induction xs rule: rev_induct)
  case (snoc s xs)
  let ?m = "foldl push_segment [] xs"
  consider "push_segment ?m s = ?m @ [s]"
    | c where "s = text_segment c []" "push_segment ?m s = ?m"
    | c x y rest where "?m = rest @ [text_segment c x]" "s = text_segment c y"
      "push_segment ?m s = rest @ [text_segment c (x @ y)]"
    using push_segment_cases [of ?m s] by blast
  then show ?case
  proof cases
    case (3 c x y rest)
    then have "foldl push_segment acc xs = push_segment (foldl push_segment acc rest) (text_segment c x)"
      using snoc.IH by simp
    with 3 show ?thesis by (simp add: push_segment_join)
  qed (use snoc.IH in auto)
qed simp

lemma merge_left: "merge (merge xs @ ys) = merge (xs @ ys)"
  by (simp add: merge_def foldl_push_merge)

lemma merge_merge: "merge (merge xs) = merge xs"
  using merge_left [of xs "[]"] by simp

lemma merge_right: "merge (xs @ merge ys) = merge (xs @ ys)"
  by (simp add: merge_def foldl_push_merge)

section \<open>Characters one by one\<close>

text \<open>The parser without runs: the state after a character and the segments it adds.\<close>

definition char_events ::
  "'g tagged_line_parser \<Rightarrow> uchar \<Rightarrow> 'g tagged_line_parser \<times> 'g tagged_line_segment list" where
  "char_events p ch =
     (if detect_tag p then
        (let p1 = p\<lparr>line_buffer := line_buffer p @ [ch]\<rparr> in
         if ch = LF then
           (case line_segment (tag_specs p) (current_tag p) (line_buffer p1) of
              (current', segment) \<Rightarrow> (p\<lparr>line_buffer := [], current_tag := current'\<rparr>, [segment]))
         else if trim_start (line_buffer p1) = [] \<or> is_tag_prefix (tag_specs p) (trim_start (line_buffer p1))
           then (p1, [])
         else (p\<lparr>line_buffer := [], detect_tag := False\<rparr>, [text_segment (current_tag p) (line_buffer p1)]))
      else (p\<lparr>detect_tag := (ch = LF)\<rparr>, [text_segment (current_tag p) [ch]]))"

fun text_events ::
  "'g tagged_line_parser \<Rightarrow> ustr \<Rightarrow> 'g tagged_line_parser \<times> 'g tagged_line_segment list" where
  "text_events p [] = (p, [])"
| "text_events p (ch # cs) =
     (case char_events p ch of (p1, evs) \<Rightarrow> (case text_events p1 cs of (p2, later) \<Rightarrow> (p2, evs @ later)))"

lemma text_events_append:
  "text_events p (cs @ ds) =
     (case text_events p cs of (p1, evs) \<Rightarrow> (case text_events p1 ds of (p2, later) \<Rightarrow> (p2, evs @ later)))"
  by (induction cs arbitrary: p) (auto split: prod.split)

definition flushed :: "'g tagged_line_parser \<times> ustr \<times> 'g tagged_line_segment list \<Rightarrow>
    'g tagged_line_parser \<times> 'g tagged_line_segment list" where
  "flushed st = (case st of (p, run, segments) \<Rightarrow> (p, push_text p run segments))"

lemma push_text_empty [simp]: "push_text p [] segments = segments"
  by (simp add: push_text_def)

lemma parse_char_events:
  "flushed (parse_char (p, run, segments) ch) =
     (case char_events p ch of (p1, evs) \<Rightarrow> (p1, foldl push_segment (push_text p run segments) evs))"
  by (auto simp: parse_char_def char_events_def flushed_def tagged_finish_line_def push_text_def Let_def push_segment_join
      split: prod.split)

lemma foldl_parse_char_events:
  "flushed (foldl parse_char (p, run, segments) cs) =
     (case text_events p cs of (p1, evs) \<Rightarrow> (p1, foldl push_segment (push_text p run segments) evs))"
proof (induction cs arbitrary: p run segments)
  case Nil
  then show ?case by (simp add: flushed_def)
next
  case (Cons ch cs)
  obtain p1 run1 segments1 where one: "parse_char (p, run, segments) ch = (p1, run1, segments1)"
    by (metis prod.collapse)
  with parse_char_events [of p run segments ch] Cons.IH [of p1 run1 segments1] show ?case
    by (auto simp: flushed_def split: prod.splits)
qed

lemma tagged_parse_events:
  "tagged_parse p cs = (case text_events p cs of (p1, evs) \<Rightarrow> (p1, merge evs))"
proof -
  have "tagged_parse p cs = flushed (foldl parse_char (p, [], []) cs)"
    by (auto simp: tagged_parse_def flushed_def split: prod.split)
  then show ?thesis by (simp add: foldl_parse_char_events merge_def)
qed

section \<open>Lines\<close>

text \<open>The reference: lines one after the other; an open block is closed at the end.\<close>

fun tagged_lines :: "'g tag_spec list \<Rightarrow> 'g option \<Rightarrow> ustr list \<Rightarrow> 'g tagged_line_segment list" where
  "tagged_lines specs current [] = (case current of Some g \<Rightarrow> [TagEnd g] | None \<Rightarrow> [])"
| "tagged_lines specs current (line # rest) =
     (case line_segment specs current line of
        (current', segment) \<Rightarrow> segment # tagged_lines specs current' rest)"

text \<open>A line that was given up as a tag is none, however it goes on.\<close>

definition no_tag_line :: "'g tag_spec list \<Rightarrow> ustr \<Rightarrow> bool" where
  "no_tag_line specs x \<longleftrightarrow>
     (\<forall>z. match_open specs (trim (x @ z)) = None \<and> match_close specs (trim (x @ z)) = None)"

lemma trim_end_prefix: "\<exists>w. s = trim_end s @ w"
proof -
  have "s = rev (takeWhile is_whitespace (rev s) @ dropWhile is_whitespace (rev s))" by simp
  then show ?thesis unfolding trim_end_def by (metis rev_append)
qed

lemma trim_start_append: "trim_start x \<noteq> [] \<Longrightarrow> trim_start (x @ z) = trim_start x @ z"
  by (induction x) (auto simp: trim_start_def)

lemma trim_end_of_prefix:
  assumes "trim_end (a @ z) = d" shows "starts_with (trim_end a) d"
proof (cases "trim_end z = []")
  case True
  with assms have "d = trim_end a" by (simp add: trim_end_append)
  then show ?thesis by (simp add: starts_with_def)
next
  case False
  with assms have "d = a @ trim_end z" by (simp add: trim_end_append)
  with trim_end_prefix [of a] show ?thesis by (auto simp: starts_with_iff) (metis append.assoc)
qed

lemma disproved:
  assumes "trim_start x \<noteq> []" "\<not> is_tag_prefix specs (trim_start x)"
  shows "no_tag_line specs x"
proof -
  have "tag_open spec \<noteq> trim (x @ z)" "tag_close spec \<noteq> trim (x @ z)" if "spec \<in> set specs" for spec z
  proof -
    have "trim (x @ z) = trim_end (trim_start x @ z)"
      using assms(1) by (simp add: trim_def trim_start_append)
    with assms(2) that trim_end_of_prefix [of "trim_start x" z]
    show "tag_open spec \<noteq> trim (x @ z)" "tag_close spec \<noteq> trim (x @ z)"
      by (auto simp: is_tag_prefix_def Let_def list_ex_iff)
  qed
  then show ?thesis
    unfolding no_tag_line_def match_open_def match_close_def
    by (auto simp: find_None_iff)
qed

lemma no_tag_line_append: "no_tag_line specs x \<Longrightarrow> no_tag_line specs (x @ y)"
  by (simp add: no_tag_line_def)

lemma no_tag_line_segment:
  assumes "no_tag_line specs x" "line = x \<or> line = x @ [LF]" "LF \<notin> set x"
  shows "line_segment specs current line = (current, text_segment current line)"
proof -
  have "(case strip_suffix [LF] line of Some l \<Rightarrow> l | None \<Rightarrow> line) = x"
    using assms(2,3) by (auto split: option.split)
  moreover have "match_open specs (trim x) = None" "match_close specs (trim x) = None"
    using assms(1) by (auto simp: no_tag_line_def dest: spec [of _ "[]"])
  ultimately show ?thesis
    by (simp add: line_segment_def Let_def trim_def)
qed

definition fresh :: "'g tagged_line_parser \<Rightarrow> bool" where
  "fresh p \<longleftrightarrow> detect_tag p \<and> line_buffer p = []"

text \<open>Segments that amount to one.\<close>

definition adds :: "'g tagged_line_segment list \<Rightarrow> 'g tagged_line_segment \<Rightarrow> bool" where
  "adds evs segment \<longleftrightarrow> (\<forall>segments. foldl push_segment segments evs = push_segment segments segment)"

text \<open>Within a line the parser waits, holding the line, or has given it up as a tag and reported it.\<close>

lemma partial_line:
  assumes "fresh p" "LF \<notin> set x" "text_events p x = (q, evs)"
  shows "q = p\<lparr>line_buffer := x\<rparr> \<and> evs = [] \<or>
    q = p\<lparr>detect_tag := False\<rparr> \<and> no_tag_line (tag_specs p) x \<and> adds evs (text_segment (current_tag p) x)"
  using assms(2,3)
proof (induction x arbitrary: q evs rule: rev_induct)
  case Nil
  with assms(1) show ?case by (simp add: fresh_def)
next
  case (snoc ch x)
  obtain q0 evs0 where q0: "text_events p x = (q0, evs0)" by fastforce
  from snoc.prems have ch: "ch \<noteq> LF" and x: "LF \<notin> set x" by auto
  from snoc.IH [OF x q0] consider "q0 = p\<lparr>line_buffer := x\<rparr>" "evs0 = []"
    | "q0 = p\<lparr>detect_tag := False\<rparr>" "no_tag_line (tag_specs p) x" "adds evs0 (text_segment (current_tag p) x)"
    by blast
  then show ?case
  proof cases
    case 1
    have give_up: "no_tag_line (tag_specs p) (x @ [ch])"
      if "trim_start (x @ [ch]) \<noteq> []" "\<not> is_tag_prefix (tag_specs p) (trim_start (x @ [ch]))"
      using that by (rule disproved)
    show ?thesis
      using 1 q0 snoc.prems(2) ch assms(1) give_up
      by (auto simp: text_events_append char_events_def fresh_def Let_def adds_def split: if_splits)
  next
    case 2
    with q0 snoc.prems(2) ch show ?thesis
      by (auto simp: text_events_append char_events_def adds_def push_segment_join no_tag_line_append)
  qed
qed

lemma full_line:
  assumes "fresh p" "LF \<notin> set x" "text_events p (x @ [LF]) = (q, evs)"
    and "line_segment (tag_specs p) (current_tag p) (x @ [LF]) = (current', segment)"
  shows "q = p\<lparr>current_tag := current'\<rparr> \<and> adds evs segment"
proof -
  obtain q0 evs0 where q0: "text_events p x = (q0, evs0)" by fastforce
  from partial_line [OF assms(1,2) q0] consider "q0 = p\<lparr>line_buffer := x\<rparr>" "evs0 = []"
    | "q0 = p\<lparr>detect_tag := False\<rparr>" "no_tag_line (tag_specs p) x" "adds evs0 (text_segment (current_tag p) x)"
    by blast
  then show ?thesis
  proof cases
    case 1
    with q0 assms show ?thesis
      by (auto simp: text_events_append char_events_def fresh_def Let_def adds_def)
  next
    case 2
    have "line_segment (tag_specs p) (current_tag p) (x @ [LF]) = (current_tag p, text_segment (current_tag p) (x @ [LF]))"
      using 2(2) assms(2) by (intro no_tag_line_segment) auto
    with 2 q0 assms show ?thesis
      by (auto simp: text_events_append char_events_def fresh_def adds_def push_segment_join)
  qed
qed

lemma split_inclusive_line: "LF \<notin> set x \<Longrightarrow> split_inclusive (x @ LF # t) = (x @ [LF]) # split_inclusive t"
  by (simp add: split_inclusive_def split_inclusive_acc_line)

lemma split_inclusive_acc_rest:
  "LF \<notin> set x \<Longrightarrow> split_inclusive_acc cur x = (if cur @ x = [] then [] else [cur @ x])"
  by (induction x arbitrary: cur) auto

lemma split_inclusive_rest: "LF \<notin> set x \<Longrightarrow> split_inclusive x = (if x = [] then [] else [x])"
  by (simp add: split_inclusive_def split_inclusive_acc_rest)

lemma foldl_push_push:
  "foldl push_segment acc (push_segment (foldl push_segment [] xs) y) = push_segment (foldl push_segment acc xs) y"
  using foldl_push_merge [of acc "xs @ [y]"] by simp

lemma last_line:
  assumes "fresh p" "LF \<notin> set x" "text_events p x = (q, evs)"
  shows "foldl push_segment segments (evs @ snd (tagged_finish q)) =
    foldl push_segment segments (tagged_lines (tag_specs p) (current_tag p) (split_inclusive x))"
  using partial_line [OF assms]
proof
  assume waiting: "q = p\<lparr>line_buffer := x\<rparr> \<and> evs = []"
  show ?thesis
  proof (cases "x = []")
    case True
    with waiting show ?thesis
      by (simp add: tagged_finish_def split_inclusive_rest split: option.split)
  next
    case False
    obtain c segment where line: "line_segment (tag_specs p) (current_tag p) x = (c, segment)" by fastforce
    with waiting False assms(2) show ?thesis
      using foldl_push_push [of segments "[segment]"] foldl_push_push [of segments "[]" segment]
      by (simp add: tagged_finish_def split_inclusive_rest split: option.split)
  qed
next
  assume given: "q = p\<lparr>detect_tag := False\<rparr> \<and> no_tag_line (tag_specs p) x \<and>
    adds evs (text_segment (current_tag p) x)"
  then have "line_segment (tag_specs p) (current_tag p) x = (current_tag p, text_segment (current_tag p) x)"
    using assms(2) by (intro no_tag_line_segment) auto
  with given assms show ?thesis
    by (cases "x = []")
      (auto simp: tagged_finish_def split_inclusive_rest adds_def fresh_def split: option.split)
qed

text \<open>A whole text, from the start of a line to the end of the stream.\<close>

lemma text_events_lines:
  assumes "fresh p" "text_events p t = (q, evs)"
  shows "foldl push_segment segments (evs @ snd (tagged_finish q)) =
    foldl push_segment segments (tagged_lines (tag_specs p) (current_tag p) (split_inclusive t))"
  using assms
proof (induction "length t" arbitrary: p t q evs segments rule: less_induct)
  case less
  show ?case
  proof (cases "split_once LF t")
    case None
    then have "LF \<notin> set t" by (simp add: split_once_None)
    with less.prems show ?thesis by (intro last_line) auto
  next
    case (Some xr)
    then obtain x r where t: "t = x @ LF # r" "LF \<notin> set x"
      by (cases xr) (auto dest: split_once_Some)
    obtain q0 evs0 where line: "text_events p (x @ [LF]) = (q0, evs0)" by fastforce
    obtain evs1 where rest: "text_events q0 r = (q, evs1)" "evs = evs0 @ evs1"
      using less.prems(2) line text_events_append [of p "x @ [LF]" r] by (auto simp: t split: prod.splits)
    obtain c segment where seg: "line_segment (tag_specs p) (current_tag p) (x @ [LF]) = (c, segment)" by fastforce
    from full_line [OF less.prems(1) t(2) line seg] have q0: "q0 = p\<lparr>current_tag := c\<rparr>" "adds evs0 segment" by auto
    with less.prems(1) have "fresh q0" by (simp add: fresh_def)
    from less.hyps [OF _ this rest(1), of "foldl push_segment segments evs0"] t q0 seg rest(2) show ?thesis
      by (simp add: adds_def split_inclusive_line)
  qed
qed

section \<open>Plans in any chunks\<close>

fun tagged_segment :: "proposed_plan_segment \<Rightarrow> plan_tag tagged_line_segment" where
  "tagged_segment (PlanNormal v) = Normal v"
| "tagged_segment ProposedPlanStart = TagStart ProposedPlan"
| "tagged_segment (ProposedPlanDelta v) = TagDelta ProposedPlan v"
| "tagged_segment ProposedPlanEnd = TagEnd ProposedPlan"

lemma tagged_plan_segment [simp]: "tagged_segment (plan_segment s) = s"
  by (cases s rule: plan_segment.cases) simp_all

lemma map_tagged_plan [simp]: "map (tagged_segment \<circ> plan_segment) xs = xs"
  by (induction xs) simp_all

text \<open>The normal form of reported plan segments: text that arrived in pieces is one piece.\<close>

definition plan_norm :: "proposed_plan_segment list \<Rightarrow> proposed_plan_segment list" where
  "plan_norm segments = map plan_segment (merge (map tagged_segment segments))"

lemma plan_norm_map: "plan_norm (map plan_segment xs) = map plan_segment (merge xs)"
  by (simp add: plan_norm_def)

lemma plan_delta: "plan_segment (TagDelta g v) = ProposedPlanDelta v"
  by (cases g) simp

lemma visible_push:
  "concat (map (\<lambda>s. plan_visible (plan_segment s)) (push_segment segments s)) =
   concat (map (\<lambda>s. plan_visible (plan_segment s)) segments) @ plan_visible (plan_segment s)"
proof -
  have txts: "plan_visible (plan_segment (text_segment c x)) = (if c = None then x else [])" for c x
    by (cases c) (simp_all add: text_segment_def plan_delta)
  show ?thesis
    using push_segment_cases [of segments s] by (auto simp: txts)
qed

lemma visible_merge:
  "concat (map (\<lambda>s. plan_visible (plan_segment s)) (foldl push_segment segments xs)) =
   concat (map (\<lambda>s. plan_visible (plan_segment s)) (segments @ xs))"
  by (induction xs arbitrary: segments) (simp_all add: visible_push)

lemma plan_text_push:
  "foldl plan_text_step st (map plan_segment (push_segment segments s)) =
   plan_text_step (foldl plan_text_step st (map plan_segment segments)) (plan_segment s)"
proof -
  have txts: "plan_text_step (t, b) (plan_segment (text_segment c x)) = (if c = None then t else t @ x, b)" for t b c x
    by (cases c) (simp_all add: text_segment_def plan_delta)
  have steps: "plan_text_step (plan_text_step st (plan_segment (text_segment c x))) (plan_segment (text_segment c y)) =
      plan_text_step st (plan_segment (text_segment c (x @ y)))"
    "plan_text_step st (plan_segment (text_segment c [])) = st" for st c x y
    by (cases st; simp add: txts)+
  show ?thesis
    using push_segment_cases [of segments s] by (auto simp: steps)
qed

lemma plan_text_merge:
  "foldl plan_text_step st (map plan_segment (foldl push_segment segments xs)) =
   foldl plan_text_step st (map plan_segment (segments @ xs))"
  by (induction xs arbitrary: segments) (simp_all add: plan_text_push)

lemma map_segments_merge:
  "visible_text (map_segments (merge xs)) = concat (map (\<lambda>s. plan_visible (plan_segment s)) xs)"
  "extracted (map_segments (merge xs)) = map plan_segment (merge xs)"
  by (simp_all add: map_segments_def merge_def visible_merge o_def)

lemma plan_push_events:
  "plan_push_str p c = (case text_events p c of (p', evs) \<Rightarrow> Some (p', map_segments (merge evs)))"
  by (simp add: plan_push_str_def tagged_parse_events split: prod.split)

interpretation plans: stream_text_parser plan_push_str plan_finish plan_norm "\<lambda>_. True"
proof
  show "plan_norm (plan_norm xs @ ys) = plan_norm (xs @ ys)" "plan_norm (xs @ plan_norm ys) = plan_norm (xs @ ys)"
    for xs ys
    by (simp_all add: plan_norm_def merge_left merge_right)
  show "\<exists>s' out. plan_push_str p c = Some (s', out) \<and> True" for p c
    by (simp add: plan_push_events split: prod.split)
  show "plan_push_str p [] = Some (p, chunk_default)" for p
    by (simp add: plan_push_events merge_def map_segments_def chunk_default_def)
  fix p p1 p2 c d out1 out2
  assume "plan_push_str p c = Some (p1, out1)" "plan_push_str p1 d = Some (p2, out2)"
  then obtain evs1 evs2 where "text_events p c = (p1, evs1)" "text_events p1 d = (p2, evs2)"
    "out1 = map_segments (merge evs1)" "out2 = map_segments (merge evs2)"
    by (auto simp: plan_push_events split: prod.splits)
  then show "\<exists>out. plan_push_str p (c @ d) = Some (p2, out) \<and> chunk_equiv plan_norm out (chunk_append out1 out2)"
    by (simp add: plan_push_events text_events_append chunk_equiv_def chunk_append_def map_segments_merge
        plan_norm_def merge_left merge_right merge_merge)
qed

text \<open>What a plan in a whole text is: the segments of its lines.\<close>

definition plan_lines :: "ustr \<Rightarrow> proposed_plan_segment list" where
  "plan_lines t = map plan_segment (tagged_lines plan_specs None (split_inclusive t))"

definition plan_text_of :: "proposed_plan_segment list \<Rightarrow> ustr option" where
  "plan_text_of segments =
     (case foldl plan_text_step ([], False) segments of
        (plan_text, saw_plan_block) \<Rightarrow> if saw_plan_block then Some plan_text else None)"

lemma plan_whole:
  assumes "text_events plan_new t = (p, evs)"
  shows "foldl push_segment [] (evs @ snd (tagged_finish p)) =
    foldl push_segment [] (tagged_lines plan_specs None (split_inclusive t))"
  using text_events_lines [of plan_new t p evs "[]"] assms
  by (simp add: plan_new_def tagged_new_def fresh_def)

lemma plan_collect:
  "\<exists>out. collect_chunks plan_push_str plan_finish plan_new cs = Some out \<and>
     visible_text out = concat (map plan_visible (plan_lines (concat cs))) \<and>
     plan_norm (extracted out) = plan_norm (plan_lines (concat cs)) \<and>
     strip_proposed_plan_blocks (concat cs) = visible_text out \<and>
     extract_proposed_plan_text (concat cs) = plan_text_of (plan_lines (concat cs))"
proof -
  let ?t = "concat cs"
  let ?lines = "tagged_lines plan_specs None (split_inclusive ?t)"
  obtain p evs where run: "text_events plan_new ?t = (p, evs)" by fastforce
  obtain q fin where finish: "tagged_finish p = (q, fin)" by fastforce
  from plan_whole [OF run] finish have whole: "foldl push_segment [] (evs @ fin) = foldl push_segment [] ?lines"
    by simp
  from plans.collect_chunks_concat [of plan_new cs] obtain out one
    where out: "collect_chunks plan_push_str plan_finish plan_new cs = Some out"
      "collect_chunks plan_push_str plan_finish plan_new [?t] = Some one" "chunk_equiv plan_norm out one" by auto
  have one: "one = chunk_append (map_segments (merge evs)) (map_segments fin)"
    using out(2) run finish by (simp add: collect_chunks_def plan_push_events plan_finish_def)
  have vis: "visible_text one = concat (map plan_visible (plan_lines ?t))"
    using arg_cong [OF whole, of "\<lambda>xs. concat (map (\<lambda>s. plan_visible (plan_segment s)) xs)"]
    by (simp add: one chunk_append_def map_segments_merge visible_merge plan_lines_def o_def del: foldl_append)
      (simp add: map_segments_def o_def)
  have "plan_norm (extracted one) = plan_norm (plan_lines ?t)"
    using whole
    by (simp add: one chunk_append_def map_segments_merge plan_norm_def merge_left plan_lines_def)
      (simp add: map_segments_def merge_def)
  moreover have "strip_proposed_plan_blocks ?t = visible_text one"
    by (simp add: strip_proposed_plan_blocks_def tagged_parse_events run plan_finish_def finish one chunk_append_def)
  moreover have "foldl plan_text_step ([], False) (extracted one) = foldl plan_text_step ([], False) (plan_lines ?t)"
    using arg_cong [OF whole, of "\<lambda>xs. foldl plan_text_step ([], False) (map plan_segment xs)"]
    by (simp only: plan_text_merge)
      (simp add: one chunk_append_def map_segments_def merge_def plan_text_merge plan_lines_def)
  moreover from this have "extract_proposed_plan_text ?t = plan_text_of (plan_lines ?t)"
    by (simp add: extract_proposed_plan_text_def tagged_parse_events run plan_finish_def finish one chunk_append_def
        plan_text_of_def)
  ultimately show ?thesis
    using out vis by (simp add: chunk_equiv_def)
qed

text \<open>However the assistant's text is cut into chunks, the plan parser shows the lines outside plan
  blocks and reports, up to the cutting of text, the segments of the text's lines; stripping the plan
  and extracting it from the whole text agree with that.\<close>

theorem plan_streamed:
  "\<exists>out. collect_chunks plan_push_str plan_finish plan_new cs = Some out \<and>
     visible_text out = concat (map plan_visible (plan_lines (concat cs))) \<and>
     plan_norm (extracted out) = plan_norm (plan_lines (concat cs)) \<and>
     strip_proposed_plan_blocks (concat cs) = visible_text out \<and>
     extract_proposed_plan_text (concat cs) = plan_text_of (plan_lines (concat cs))"
  by (rule plan_collect)

end
