(* ===== verification/Assistant_Text.thy ===== *)
theory Assistant_Text
  imports Inline_Tags Tagged_Lines_Laws
begin

text \<open>
  \<^verbatim>\<open>codex-rs/utils/stream-parser/src/assistant_text.rs\<close>: the citation parser in front of the
  plan parser.
\<close>

record assistant_text_chunk =
  assistant_visible :: ustr
  assistant_citations :: "ustr list"
  plan_segments :: "proposed_plan_segment list"

definition assistant_default :: assistant_text_chunk where
  "assistant_default = \<lparr>assistant_visible = [], assistant_citations = [], plan_segments = []\<rparr>"

definition assistant_is_empty :: "assistant_text_chunk \<Rightarrow> bool" where
  "assistant_is_empty c \<longleftrightarrow> assistant_visible c = [] \<and> assistant_citations c = [] \<and> plan_segments c = []"

record assistant_text_stream_parser =
  plan_mode :: bool
  citation_parser :: citation_stream_parser
  plan_parser :: proposed_plan_parser

definition assistant_new :: "bool \<Rightarrow> assistant_text_stream_parser" where
  "assistant_new mode = \<lparr>plan_mode = mode, citation_parser = citation_new, plan_parser = plan_new\<rparr>"

definition parse_visible_text ::
  "assistant_text_stream_parser \<Rightarrow> ustr \<Rightarrow> (assistant_text_stream_parser \<times> assistant_text_chunk) option" where
  "parse_visible_text p visible =
     (if \<not> plan_mode p then Some (p, assistant_default\<lparr>assistant_visible := visible\<rparr>)
      else case plan_push_str (plan_parser p) visible of
             None \<Rightarrow> None
           | Some (plan', plan_chunk) \<Rightarrow>
               Some (p\<lparr>plan_parser := plan'\<rparr>,
                 assistant_default\<lparr>assistant_visible := visible_text plan_chunk,
                   plan_segments := extracted plan_chunk\<rparr>))"

definition assistant_push_str ::
  "assistant_text_stream_parser \<Rightarrow> ustr \<Rightarrow> (assistant_text_stream_parser \<times> assistant_text_chunk) option" where
  "assistant_push_str p chunk =
     (case citation_push_str (citation_parser p) chunk of
        None \<Rightarrow> None
      | Some (citation', cited_chunk) \<Rightarrow>
          map_option (\<lambda>(p', out). (p', out\<lparr>assistant_citations := extracted cited_chunk\<rparr>))
            (parse_visible_text (p\<lparr>citation_parser := citation'\<rparr>) (visible_text cited_chunk)))"

definition assistant_finish ::
  "assistant_text_stream_parser \<Rightarrow> (assistant_text_stream_parser \<times> assistant_text_chunk) option" where
  "assistant_finish p =
     (case citation_finish (citation_parser p) of
        (citation', cited_chunk) \<Rightarrow>
          (case parse_visible_text (p\<lparr>citation_parser := citation'\<rparr>) (visible_text cited_chunk) of
             None \<Rightarrow> None
           | Some (p1, out) \<Rightarrow>
               (let (p2, out1) =
                      (if plan_mode p1 then
                         (case plan_finish (plan_parser p1) of
                            (plan', tail) \<Rightarrow>
                              (p1\<lparr>plan_parser := plan'\<rparr>,
                               if \<not> chunk_is_empty tail
                               then out\<lparr>assistant_visible := assistant_visible out @ visible_text tail,
                                        plan_segments := plan_segments out @ extracted tail\<rparr>
                               else out))
                       else (p1, out))
                in Some (p2, out1\<lparr>assistant_citations := extracted cited_chunk\<rparr>))))"

definition assistant_append :: "assistant_text_chunk \<Rightarrow> assistant_text_chunk \<Rightarrow> assistant_text_chunk" where
  "assistant_append a b =
     \<lparr>assistant_visible = assistant_visible a @ assistant_visible b,
      assistant_citations = assistant_citations a @ assistant_citations b,
      plan_segments = plan_segments a @ plan_segments b\<rparr>"

text \<open>What a caller shows of a stream: every chunk pushed in turn, then the end.\<close>

fun assistant_collect ::
  "assistant_text_stream_parser \<Rightarrow> ustr list \<Rightarrow> assistant_text_chunk option" where
  "assistant_collect p [] = map_option snd (assistant_finish p)"
| "assistant_collect p (c # cs) =
     (case assistant_push_str p c of
        None \<Rightarrow> None
      | Some (p', out) \<Rightarrow> map_option (assistant_append out) (assistant_collect p' cs))"

section \<open>The two parsers in sequence\<close>

text \<open>The pieces of visible text the citation parser hands to the plan parser, the last one at the end of
  the stream.\<close>

fun visible_pieces :: "citation_stream_parser \<Rightarrow> ustr list \<Rightarrow> ustr list" where
  "visible_pieces c [] = [visible_text (snd (citation_finish c))]"
| "visible_pieces c (d # ds) =
     (case citation_push_str c d of
        None \<Rightarrow> []
      | Some (c', out) \<Rightarrow> visible_text out # visible_pieces c' ds)"

lemma collect_Cons:
  "collect_chunks push finish s (c # cs) =
     (case push s c of None \<Rightarrow> None
      | Some (s', out) \<Rightarrow> map_option (chunk_append out) (collect_chunks push finish s' cs))"
  by (auto simp: collect_chunks_def option.map_comp o_def chunk_append_assoc case_prod_unfold split: option.split)

lemma collect_Nil: "collect_chunks push finish s [] = Some (snd (finish s))"
  by (simp add: collect_chunks_def)

lemma visible_pieces_concat:
  "collect_chunks citation_push_str citation_finish c ds = Some out \<Longrightarrow>
   concat (visible_pieces c ds) = visible_text out"
  by (induction ds arbitrary: c out)
    (auto simp: collect_Nil collect_Cons chunk_append_def split: option.splits)

lemma assistant_collect_plain:
  assumes "\<not> plan_mode p" "collect_chunks citation_push_str citation_finish (citation_parser p) cs = Some cited"
  shows "assistant_collect p cs =
    Some \<lparr>assistant_visible = visible_text cited, assistant_citations = extracted cited, plan_segments = []\<rparr>"
  using assms
proof (induction cs arbitrary: p cited)
  case Nil
  then show ?case
    by (auto simp: collect_Nil assistant_finish_def parse_visible_text_def assistant_default_def split: prod.split)
next
  case (Cons c cs)
  then obtain c' out rest where step: "citation_push_str (citation_parser p) c = Some (c', out)"
    "collect_chunks citation_push_str citation_finish c' cs = Some rest" "cited = chunk_append out rest"
    by (auto simp: collect_Cons split: option.splits)
  with Cons.prems Cons.IH [of "p\<lparr>citation_parser := c'\<rparr>" rest] show ?case
    by (simp add: assistant_push_str_def parse_visible_text_def assistant_append_def assistant_default_def
        chunk_append_def)
qed

lemma assistant_collect_plan:
  assumes "plan_mode p" "collect_chunks citation_push_str citation_finish (citation_parser p) cs = Some cited"
  shows "assistant_collect p cs =
    map_option (\<lambda>planned. \<lparr>assistant_visible = visible_text planned, assistant_citations = extracted cited,
        plan_segments = extracted planned\<rparr>)
      (collect_chunks plan_push_str plan_finish (plan_parser p) (visible_pieces (citation_parser p) cs))"
  using assms
proof (induction cs arbitrary: p cited)
  case Nil
  then show ?case
    by (auto simp: collect_Nil collect_Cons assistant_finish_def parse_visible_text_def assistant_default_def
        chunk_is_empty_def chunk_append_def Let_def split: prod.split option.split)
next
  case (Cons c cs)
  then obtain c' out rest where step: "citation_push_str (citation_parser p) c = Some (c', out)"
    "collect_chunks citation_push_str citation_finish c' cs = Some rest" "cited = chunk_append out rest"
    by (auto simp: collect_Cons split: option.splits)
  show ?case
  proof (cases "plan_push_str (plan_parser p) (visible_text out)")
    case None
    with step Cons.prems show ?thesis
      by (simp add: assistant_push_str_def parse_visible_text_def collect_Cons)
  next
    case (Some r)
    then obtain plan' planned where "plan_push_str (plan_parser p) (visible_text out) = Some (plan', planned)"
      by (cases r) auto
    with step Cons.prems Cons.IH [of "p\<lparr>citation_parser := c', plan_parser := plan'\<rparr>" rest] show ?thesis
      by (simp add: assistant_push_str_def parse_visible_text_def collect_Cons assistant_append_def
          assistant_default_def chunk_append_def option.map_comp o_def)
  qed
qed

text \<open>C27. Streaming the assistant's text in any chunks comes to the same as parsing it at once: the
  citations are those of the text, and what is left is shown, or in plan mode treated line by line as
  text outside the plan (shown) and plan.\<close>

theorem assistant_text_streamed:
  "\<exists>out. assistant_collect (assistant_new mode) cs = Some out \<and>
     (case hide_tags CITATION_OPEN CITATION_CLOSE (concat cs) of (visible, citations) \<Rightarrow>
        assistant_citations out = citations \<and>
        assistant_visible out = (if mode then concat (map plan_visible (plan_lines visible)) else visible) \<and>
        plan_norm (plan_segments out) = (if mode then plan_norm (plan_lines visible) else []))"
proof -
  from citations_collect [of cs] obtain cited
    where cited: "collect_chunks citation_push_str citation_finish citation_new cs = Some cited"
    and hide: "hide_tags CITATION_OPEN CITATION_CLOSE (concat cs) = (visible_text cited, extracted cited)"
    by auto
  show ?thesis
  proof (cases mode)
    case False
    with assistant_collect_plain [of "assistant_new mode" cs cited] cited hide show ?thesis
      by (simp add: assistant_new_def plan_norm_def merge_def)
  next
    case True
    obtain planned where "collect_chunks plan_push_str plan_finish plan_new (visible_pieces citation_new cs) = Some planned"
      "visible_text planned = concat (map plan_visible (plan_lines (visible_text cited)))"
      "plan_norm (extracted planned) = plan_norm (plan_lines (visible_text cited))"
      using plan_collect [of "visible_pieces citation_new cs"] visible_pieces_concat [OF cited] by auto
    with True assistant_collect_plan [of "assistant_new mode" cs cited] cited hide show ?thesis
      by (simp add: assistant_new_def)
  qed
qed

end
