(* ===== verification/Utf8.thy ===== *)
theory Utf8
  imports Text_Search
begin

text \<open>
  UTF-8 as the standard library documents it: the bytes of a text, and \<^verbatim>\<open>str::from_utf8\<close> with the
  position and length of the first invalid sequence. Bytes are natural numbers.
\<close>

section \<open>UTF-8\<close>

definition is_scalar :: "uchar \<Rightarrow> bool" where
  "is_scalar c \<longleftrightarrow> c < 55296 \<or> 57344 \<le> c \<and> c < 1114112"

definition utf8_encode :: "uchar \<Rightarrow> nat list" where
  "utf8_encode c =
     (if c < 128 then [c]
      else if c < 2048 then [192 + c div 64, 128 + c mod 64]
      else if c < 65536 then [224 + c div 4096, 128 + c div 64 mod 64, 128 + c mod 64]
      else [240 + c div 262144, 128 + c div 4096 mod 64, 128 + c div 64 mod 64, 128 + c mod 64])"

definition utf8_bytes :: "ustr \<Rightarrow> nat list" where
  "utf8_bytes t = concat (map utf8_encode t)"

definition is_continuation :: "nat \<Rightarrow> bool" where
  "is_continuation b \<longleftrightarrow> 128 \<le> b \<and> b < 192"

text \<open>The second byte of a sequence of three or four bytes excludes overlong forms, surrogates and values
  beyond the last code point.\<close>

definition second_ok :: "nat \<Rightarrow> nat \<Rightarrow> bool" where
  "second_ok a b \<longleftrightarrow>
     is_continuation b \<and> (a = 224 \<longrightarrow> 160 \<le> b) \<and> (a = 237 \<longrightarrow> b < 160) \<and>
     (a = 240 \<longrightarrow> 144 \<le> b) \<and> (a = 244 \<longrightarrow> b < 144)"

datatype utf8_step = Decoded uchar "nat list" | Invalid nat | Truncated

definition utf8_width :: "nat \<Rightarrow> nat" where
  "utf8_width a =
     (if a < 128 then 1 else if 194 \<le> a \<and> a < 224 then 2 else if 224 \<le> a \<and> a < 240 then 3
      else if 240 \<le> a \<and> a < 245 then 4 else 0)"

definition next_char :: "nat list \<Rightarrow> utf8_step" where
  "next_char bs =
     (case bs of
        [] \<Rightarrow> Truncated
      | a # r \<Rightarrow>
          if utf8_width a = 0 then Invalid 1
          else if utf8_width a = 1 then Decoded a r
          else (case r of
             [] \<Rightarrow> Truncated
           | b # r \<Rightarrow>
               if \<not> second_ok a b then Invalid 1
               else if utf8_width a = 2 then Decoded ((a - 192) * 64 + (b - 128)) r
               else (case r of
                  [] \<Rightarrow> Truncated
                | c # r \<Rightarrow>
                    if \<not> is_continuation c then Invalid 2
                    else if utf8_width a = 3 then Decoded ((a - 224) * 4096 + (b - 128) * 64 + (c - 128)) r
                    else (case r of
                       [] \<Rightarrow> Truncated
                     | d # r \<Rightarrow>
                         if \<not> is_continuation d then Invalid 3
                         else Decoded ((a - 240) * 262144 + (b - 128) * 4096 + (c - 128) * 64 + (d - 128)) r))))"

lemma next_char_shorter: "next_char bs = Decoded c r \<Longrightarrow> length r < length bs"
  by (auto simp: next_char_def split: list.splits if_splits)

text \<open>The text decoded, the bytes left and, when they are not a text, the length of the error or \<open>None\<close> for
  a sequence that ends too early.\<close>

function utf8_decode :: "nat list \<Rightarrow> ustr \<times> nat list \<times> nat option option" where
  "utf8_decode bs =
     (if bs = [] then ([], [], None)
      else case next_char bs of
             Decoded c r \<Rightarrow> (case utf8_decode r of (t, r', e) \<Rightarrow> (c # t, r', e))
           | Invalid n \<Rightarrow> ([], bs, Some (Some n))
           | Truncated \<Rightarrow> ([], bs, Some None))"
  by pat_completeness auto

termination
  by (relation "measure length") (auto dest: next_char_shorter)

declare utf8_decode.simps [simp del]

record utf8_error =
  valid_up_to :: nat
  error_len :: "nat option"

definition from_utf8 :: "nat list \<Rightarrow> utf8_error + ustr" where
  "from_utf8 bs =
     (case utf8_decode bs of
        (t, r, None) \<Rightarrow> Inr t
      | (t, r, Some e) \<Rightarrow> Inl \<lparr>valid_up_to = length bs - length r, error_len = e\<rparr>)"

section \<open>Decoding an encoded text\<close>

lemma utf8_encode_nonempty [simp]: "utf8_encode c \<noteq> []"
  by (simp add: utf8_encode_def)

lemma base64:
  obtains q d where "n = q * 64 + d" "d < 64" "n div 64 = q" "n mod 64 = (d :: nat)"
  by (rule that [of "n div 64" "n mod 64"]) simp_all

lemma base64_div: "n div 4096 = n div 64 div (64 :: nat)" "n div 262144 = n div 64 div 64 div (64 :: nat)"
  by (simp_all add: div_mult2_eq [symmetric])

text \<open>The four shapes of an encoded code point, in the digits of base 64.\<close>

lemma utf8_shapes:
  assumes "is_scalar c"
  obtains (one) "c < 128" "utf8_encode c = [c]"
  | (two) a b where "c = a * 64 + b" "2 \<le> a" "a < 32" "b < 64" "utf8_encode c = [192 + a, 128 + b]"
  | (three) a b d where "c = a * 4096 + b * 64 + d" "a < 16" "b < 64" "d < 64" "a = 0 \<longrightarrow> 32 \<le> b"
      "a = 13 \<longrightarrow> b < 32" "utf8_encode c = [224 + a, 128 + b, 128 + d]"
  | (four) a b d e where "c = a * 262144 + b * 4096 + d * 64 + e" "a < 5" "b < 64" "d < 64" "e < 64"
      "a = 0 \<longrightarrow> 16 \<le> b" "a = 4 \<longrightarrow> b < 16" "utf8_encode c = [240 + a, 128 + b, 128 + d, 128 + e]"
proof -
  consider "c < 128" | "128 \<le> c" "c < 2048" | "2048 \<le> c" "c < 65536" | "65536 \<le> c" by linarith
  then show thesis
  proof cases
    case 1
    then show thesis by (intro one) (simp_all add: utf8_encode_def)
  next
    case 2
    obtain a b where a: "c = a * 64 + b" "b < 64" "c div 64 = a" "c mod 64 = b" by (rule base64)
    have "utf8_encode c = [192 + a, 128 + b]" using 2 by (simp add: utf8_encode_def a(3,4))
    moreover have "2 \<le> a" "a < 32" using 2 a(1,2) by linarith+
    ultimately show thesis using a(1,2) by (intro two [of a b])
  next
    case 3
    have scalar: "c < 55296 \<or> 57344 \<le> c" using assms by (auto simp: is_scalar_def)
    obtain q d where q: "c = q * 64 + d" "d < 64" "c div 64 = q" "c mod 64 = d" by (rule base64)
    obtain a b where a: "q = a * 64 + b" "b < 64" "q div 64 = a" "q mod 64 = b" by (rule base64)
    have "utf8_encode c = [224 + a, 128 + b, 128 + d]"
      using 3 by (simp add: utf8_encode_def base64_div q(3,4) a(3,4))
    moreover have "a < 16" "a = 0 \<longrightarrow> 32 \<le> b" "a = 13 \<longrightarrow> b < 32" using 3 scalar q(1,2) a(1,2) by linarith+
    ultimately show thesis using q(1,2) a(1,2) by (intro three [of a b d]) simp_all
  next
    case 4
    have less: "c < 1114112" using assms 4 unfolding is_scalar_def by linarith
    obtain q e where q: "c = q * 64 + e" "e < 64" "c div 64 = q" "c mod 64 = e" by (rule base64)
    obtain r d where r: "q = r * 64 + d" "d < 64" "q div 64 = r" "q mod 64 = d" by (rule base64)
    obtain a b where a: "r = a * 64 + b" "b < 64" "r div 64 = a" "r mod 64 = b" by (rule base64)
    have "utf8_encode c = [240 + a, 128 + b, 128 + d, 128 + e]"
      using 4 by (simp add: utf8_encode_def base64_div q(3,4) r(3,4) a(3,4))
    moreover have "a < 5" "a = 0 \<longrightarrow> 16 \<le> b" "a = 4 \<longrightarrow> b < 16" using 4 less q(1,2) r(1,2) a(1,2) by linarith+
    ultimately show thesis using q(1,2) r(1,2) a(1,2) by (intro four [of a b d e]) simp_all
  qed
qed

lemmas next_char_defs = next_char_def utf8_width_def second_ok_def is_continuation_def

lemma next_char_encode:
  assumes "is_scalar c"
  shows "next_char (utf8_encode c @ r) = Decoded c r"
  using assms by (cases rule: utf8_shapes) (simp_all add: next_char_defs)

lemma next_char_truncated:
  assumes "is_scalar c" "p @ q = utf8_encode c" "q \<noteq> []"
  shows "next_char p = Truncated"
  using assms(1)
  by (cases rule: utf8_shapes) (use assms(2,3) in \<open>auto simp: next_char_defs append_eq_Cons_conv\<close>)

lemma utf8_decode_Nil [simp]: "utf8_decode [] = ([], [], None)"
  by (simp add: utf8_decode.simps)

lemma utf8_decode_encode:
  "is_scalar c \<Longrightarrow> utf8_decode (utf8_encode c @ r) = (case utf8_decode r of (t, r', e) \<Rightarrow> (c # t, r', e))"
  by (subst utf8_decode.simps) (simp add: next_char_encode)

lemma utf8_bytes_simps [simp]:
  "utf8_bytes [] = []" "utf8_bytes (c # t) = utf8_encode c @ utf8_bytes t"
  "utf8_bytes (t @ u) = utf8_bytes t @ utf8_bytes u"
  by (simp_all add: utf8_bytes_def)

lemma append_eq_longer: "xs @ ys = us @ vs \<Longrightarrow> length us \<le> length xs \<Longrightarrow> \<exists>zs. xs = us @ zs \<and> zs @ ys = vs"
  by (induction us arbitrary: xs) (auto simp: append_eq_Cons_conv)

text \<open>A piece of an encoded text is whole characters and the start of one more.\<close>

lemma utf8_decode_prefix:
  assumes "list_all is_scalar t" "bs @ more_bytes = utf8_bytes t"
  shows "\<exists>u v r. t = u @ v \<and> bs = utf8_bytes u @ r \<and>
    utf8_decode bs = (u, r, if r = [] then None else Some None)"
  using assms
proof (induction t arbitrary: bs)
  case Nil
  then show ?case by simp
next
  case (Cons c t)
  show ?case
  proof (cases "length (utf8_encode c) \<le> length bs")
    case True
    from append_eq_longer [OF Cons.prems(2) [unfolded utf8_bytes_simps] True]
    obtain bs' where bs: "bs = utf8_encode c @ bs'" "bs' @ more_bytes = utf8_bytes t" by blast
    with Cons.IH [OF _ bs(2)] Cons.prems(1) obtain u v r where "t = u @ v" "bs' = utf8_bytes u @ r"
      "utf8_decode bs' = (u, r, if r = [] then None else Some None)"
      by auto
    with Cons.prems(1) bs show ?thesis
      by (intro exI [of _ "c # u"] exI [of _ v] exI [of _ r]) (simp add: utf8_decode_encode)
  next
    case False
    from append_eq_longer [OF Cons.prems(2) [unfolded utf8_bytes_simps, symmetric]] False
    obtain q where "bs @ q = utf8_encode c" "q \<noteq> []" by fastforce
    with Cons.prems(1) have "next_char bs = Truncated" by (auto intro: next_char_truncated)
    then show ?thesis
      by (intro exI [of _ "[]"] exI [of _ "c # t"] exI [of _ bs]) (simp add: utf8_decode.simps)
  qed
qed

lemma from_utf8_bytes [simp]: "list_all is_scalar t \<Longrightarrow> from_utf8 (utf8_bytes t) = Inr t"
proof -
  have "list_all is_scalar t \<Longrightarrow> utf8_decode (utf8_bytes t) = (t, [], None)"
    by (induction t) (simp_all add: utf8_decode_encode)
  then show "list_all is_scalar t \<Longrightarrow> from_utf8 (utf8_bytes t) = Inr t" by (simp add: from_utf8_def)
qed

section \<open>Lossy decoding\<close>

text \<open>\<^verbatim>\<open>String::from_utf8_lossy\<close>: every invalid sequence becomes one replacement character.\<close>

abbreviation REPLACEMENT_CHARACTER :: uchar where
  "REPLACEMENT_CHARACTER \<equiv> 65533"

lemma next_char_invalid: "next_char bs = Invalid n \<Longrightarrow> 0 < n \<and> bs \<noteq> []"
  by (auto simp: next_char_def split: list.splits if_splits)

lemma utf8_decode_rest:
  "utf8_decode bs = (t, r, Some (Some n)) \<Longrightarrow> 0 < n \<and> r \<noteq> [] \<and> length r \<le> length bs"
proof (induction bs arbitrary: t rule: utf8_decode.induct)
  case (1 bs)
  have bs: "bs \<noteq> []" using "1.prems" by auto
  show ?case
  proof (cases "next_char bs")
    case (Decoded c b)
    obtain t' r' e where d: "utf8_decode b = (t', r', e)" by (cases "utf8_decode b")
    then have "utf8_decode bs = (c # t', r', e)" using bs Decoded by (simp add: utf8_decode.simps [of bs])
    with "1.prems" d have "utf8_decode b = (t', r, Some (Some n))" by simp
    from "1.IH" [OF bs Decoded this] next_char_shorter [OF Decoded] show ?thesis by simp
  next
    case (Invalid m)
    then have "utf8_decode bs = ([], bs, Some (Some m))" using bs by (simp add: utf8_decode.simps [of bs])
    with "1.prems" next_char_invalid [OF Invalid] show ?thesis by simp
  next
    case Truncated
    then have "utf8_decode bs = ([], bs, Some None)" using bs by (simp add: utf8_decode.simps [of bs])
    with "1.prems" show ?thesis by simp
  qed
qed

lemma utf8_decode_rest_shorter:
  "(t, r, Some (Some n)) = utf8_decode bs \<Longrightarrow> length (drop n r) < length bs"
proof -
  assume "(t, r, Some (Some n)) = utf8_decode bs"
  from utf8_decode_rest [OF this [symmetric]] have "0 < n" "0 < length r" "length r \<le> length bs" by simp_all
  then show "length (drop n r) < length bs" unfolding length_drop by linarith
qed

function from_utf8_lossy :: "nat list \<Rightarrow> ustr" where
  "from_utf8_lossy bs =
     (let d = utf8_decode bs in
      case snd (snd d) of
        None \<Rightarrow> fst d
      | Some None \<Rightarrow> fst d @ [REPLACEMENT_CHARACTER]
      | Some (Some n) \<Rightarrow> fst d @ [REPLACEMENT_CHARACTER] @ from_utf8_lossy (drop n (fst (snd d))))"
  by pat_completeness auto

termination
proof (relation "measure length")
  fix bs d e n
  assume "d = utf8_decode bs" "snd (snd d) = Some e" "e = Some n"
  then have "(fst d, fst (snd d), Some (Some n)) = utf8_decode bs" by (metis prod.collapse)
  from utf8_decode_rest_shorter [OF this] show "(drop n (fst (snd d)), bs) \<in> measure length" by simp
qed simp

declare from_utf8_lossy.simps [simp del]

lemma from_utf8_lossy_bytes: "list_all is_scalar t \<Longrightarrow> from_utf8_lossy (utf8_bytes t) = t"
  using from_utf8_bytes [of t]
  by (subst from_utf8_lossy.simps) (auto simp: from_utf8_def split: prod.splits option.splits)

lemma length_utf8_decode: "utf8_decode bs = (t, r, e) \<Longrightarrow> length t + length r \<le> length bs"
proof (induction bs arbitrary: t rule: utf8_decode.induct)
  case (1 bs)
  show ?case
  proof (cases "bs = []")
    case False
    show ?thesis
    proof (cases "next_char bs")
      case (Decoded c b)
      obtain t' r' e' where d: "utf8_decode b = (t', r', e')" by (cases "utf8_decode b")
      then have "utf8_decode bs = (c # t', r', e')" using False Decoded by (simp add: utf8_decode.simps [of bs])
      with "1.prems" d "1.IH" [OF False Decoded, of t'] next_char_shorter [OF Decoded] show ?thesis by auto
    qed (use False "1.prems" in \<open>auto simp: utf8_decode.simps [of bs]\<close>)
  qed (use "1.prems" in simp)
qed

lemma utf8_decode_error: "utf8_decode bs = (t, r, Some e) \<Longrightarrow> r \<noteq> []"
proof (induction bs arbitrary: t rule: utf8_decode.induct)
  case (1 bs)
  show ?case
  proof (cases "bs = []")
    case False
    show ?thesis
    proof (cases "next_char bs")
      case (Decoded c b)
      obtain t' r' e' where d: "utf8_decode b = (t', r', e')" by (cases "utf8_decode b")
      then have "utf8_decode bs = (c # t', r', e')" using False Decoded by (simp add: utf8_decode.simps [of bs])
      with "1.prems" d "1.IH" [OF False Decoded, of t'] show ?thesis by auto
    qed (use False "1.prems" in \<open>auto simp: utf8_decode.simps [of bs]\<close>)
  qed (use "1.prems" in simp)
qed

lemma length_from_utf8_lossy: "length (from_utf8_lossy bs) \<le> length bs"
proof (induction bs rule: from_utf8_lossy.induct)
  case (1 bs)
  obtain t r e where d: "utf8_decode bs = (t, r, e)" by (cases "utf8_decode bs")
  note len = length_utf8_decode [OF d]
  consider "e = None" | "e = Some None" | n where "e = Some (Some n)" by (metis option.exhaust)
  then show ?case
  proof cases
    case 1
    with d len show ?thesis by (simp add: from_utf8_lossy.simps [of bs])
  next
    case 2
    with d utf8_decode_error [of bs t r None] have "0 < length r" by simp
    then have "Suc (length t) \<le> length bs" using len by linarith
    with 2 d show ?thesis by (simp add: from_utf8_lossy.simps [of bs])
  next
    case (3 n)
    with d utf8_decode_rest [of bs t r n] have "0 < length r" "0 < n" by simp_all
    moreover have "length (from_utf8_lossy (drop n r)) \<le> length r - n" using 1 [OF refl, of "Some n" n] 3 d by simp
    ultimately have "Suc (length t + length (from_utf8_lossy (drop n r))) \<le> length bs" using len by linarith
    with 3 d show ?thesis by (simp add: from_utf8_lossy.simps [of bs])
  qed
qed

end
