(* ===== verification/Utf8_Stream.thy ===== *)
theory Utf8_Stream
  imports Inline_Tags Utf8
begin

text \<open>
  \<^verbatim>\<open>codex-rs/utils/stream-parser/src/utf8_stream.rs\<close>: raw bytes in front of a text parser, with
  code points split between chunks held back.
\<close>

section \<open>The parser\<close>

datatype utf8_stream_parser_error = InvalidUtf8 nat nat | IncompleteUtf8AtEof

fun utf8_error_display :: "utf8_stream_parser_error \<Rightarrow> ustr" where
  "utf8_error_display (InvalidUtf8 up_to len) =
     str ''invalid UTF-8 in streamed bytes at offset '' @ nat_str up_to @ str '' (error length '' @ nat_str len @ str '')''"
| "utf8_error_display IncompleteUtf8AtEof = str ''incomplete UTF-8 code point at end of stream''"

record 's utf8_stream_parser =
  inner_parser :: 's
  pending_utf8 :: "nat list"

definition utf8_new :: "'s \<Rightarrow> 's utf8_stream_parser" where
  "utf8_new s = \<lparr>inner_parser = s, pending_utf8 = []\<rparr>"

definition push_bytes ::
  "('s \<Rightarrow> ustr \<Rightarrow> ('s \<times> 't stream_text_chunk) option) \<Rightarrow> 's utf8_stream_parser \<Rightarrow> nat list \<Rightarrow>
     ('s utf8_stream_parser \<times> (utf8_stream_parser_error + 't stream_text_chunk)) option" where
  "push_bytes push p chunk =
     (let old_len = length (pending_utf8 p);
          bytes = pending_utf8 p @ chunk
      in case from_utf8 bytes of
           Inr t \<Rightarrow>
             map_option (\<lambda>(s, out). (\<lparr>inner_parser = s, pending_utf8 = []\<rparr>, Inr out)) (push (inner_parser p) t)
         | Inl err \<Rightarrow>
             (case error_len err of
                Some n \<Rightarrow>
                  Some (p\<lparr>pending_utf8 := take old_len bytes\<rparr>, Inl (InvalidUtf8 (valid_up_to err) n))
              | None \<Rightarrow>
                  if valid_up_to err = 0 then Some (p\<lparr>pending_utf8 := bytes\<rparr>, Inr chunk_default)
                  else
                    (case from_utf8 (take (valid_up_to err) bytes) of
                       Inl prefix_err \<Rightarrow>
                         Some (p\<lparr>pending_utf8 := take old_len bytes\<rparr>,
                           Inl (InvalidUtf8 (valid_up_to prefix_err)
                             (case error_len prefix_err of Some n \<Rightarrow> n | None \<Rightarrow> 0)))
                     | Inr t \<Rightarrow>
                         map_option (\<lambda>(s, out).
                           (\<lparr>inner_parser = s, pending_utf8 = drop (valid_up_to err) bytes\<rparr>, Inr out))
                           (push (inner_parser p) t))))"

definition pending_error :: "nat list \<Rightarrow> utf8_stream_parser_error option" where
  "pending_error bytes =
     (case from_utf8 bytes of
        Inr t \<Rightarrow> None
      | Inl err \<Rightarrow>
          Some (case error_len err of Some n \<Rightarrow> InvalidUtf8 (valid_up_to err) n | None \<Rightarrow> IncompleteUtf8AtEof))"

text \<open>The second reading of the pending bytes cannot fail where the first one succeeded; its error branch
  is kept.\<close>

definition utf8_finish ::
  "('s \<Rightarrow> ustr \<Rightarrow> ('s \<times> 't stream_text_chunk) option) \<Rightarrow> ('s \<Rightarrow> 's \<times> 't stream_text_chunk) \<Rightarrow>
     's utf8_stream_parser \<Rightarrow>
     ('s utf8_stream_parser \<times> (utf8_stream_parser_error + 't stream_text_chunk)) option" where
  "utf8_finish push finish p =
     (let flush_inner = (\<lambda>s out. case finish s of
            (s', tail) \<Rightarrow> Some (\<lparr>inner_parser = s', pending_utf8 = []\<rparr>, Inr (chunk_append out tail)))
      in if pending_utf8 p = [] then flush_inner (inner_parser p) chunk_default
         else case pending_error (pending_utf8 p) of
           Some e \<Rightarrow> Some (p, Inl e)
         | None \<Rightarrow>
             (case from_utf8 (pending_utf8 p) of
                Inl err \<Rightarrow>
                  Some (p, Inl (InvalidUtf8 (valid_up_to err) (case error_len err of Some n \<Rightarrow> n | None \<Rightarrow> 0)))
              | Inr t \<Rightarrow>
                  (case push (inner_parser p) t of
                     None \<Rightarrow> None
                   | Some (s, out) \<Rightarrow> flush_inner s out)))"

definition into_inner :: "'s utf8_stream_parser \<Rightarrow> utf8_stream_parser_error + 's" where
  "into_inner p =
     (if pending_utf8 p = [] then Inr (inner_parser p)
      else case pending_error (pending_utf8 p) of Some e \<Rightarrow> Inl e | None \<Rightarrow> Inr (inner_parser p))"

definition into_inner_lossy :: "'s utf8_stream_parser \<Rightarrow> 's" where
  "into_inner_lossy p = inner_parser p"

text \<open>What a caller sees of a stream of bytes, until an error.\<close>

fun collect_bytes ::
  "('s \<Rightarrow> ustr \<Rightarrow> ('s \<times> 't stream_text_chunk) option) \<Rightarrow> ('s \<Rightarrow> 's \<times> 't stream_text_chunk) \<Rightarrow>
     's utf8_stream_parser \<Rightarrow> nat list list \<Rightarrow> (utf8_stream_parser_error + 't stream_text_chunk) option" where
  "collect_bytes push finish p [] = map_option snd (utf8_finish push finish p)"
| "collect_bytes push finish p (b # bs) =
     (case push_bytes push p b of
        None \<Rightarrow> None
      | Some (p', Inl e) \<Rightarrow> Some (Inl e)
      | Some (p', Inr out) \<Rightarrow>
          map_option (\<lambda>r. and_then r (\<lambda>rest. Inr (chunk_append out rest))) (collect_bytes push finish p' bs))"

section \<open>Bytes in any chunks\<close>

context stream_text_parser
begin

lemma push_bytes_prefix:
  assumes "inv (inner_parser p)" "list_all is_scalar t" "(pending_utf8 p @ b) @ more_bytes = utf8_bytes t"
  shows "\<exists>u v p' out. t = u @ v \<and> push_bytes push p b = Some (p', Inr out) \<and>
    push (inner_parser p) u = Some (inner_parser p', out) \<and> inv (inner_parser p') \<and>
    pending_utf8 p' @ more_bytes = utf8_bytes v"
proof -
  from utf8_decode_prefix [OF assms(2,3)] obtain u v r where t: "t = u @ v"
    and bytes: "pending_utf8 p @ b = utf8_bytes u @ r"
    and dec: "utf8_decode (pending_utf8 p @ b) = (u, r, if r = [] then None else Some None)" by blast
  from push_returns [OF assms(1), of u] obtain s out where s: "push (inner_parser p) u = Some (s, out)" "inv s" by blast
  have v: "r @ more_bytes = utf8_bytes v" using assms(3) t bytes by simp
  have scalar: "list_all is_scalar u" using assms(2) t by simp
  consider "r = []" | "r \<noteq> []" "utf8_bytes u = []" | "r \<noteq> []" "utf8_bytes u \<noteq> []" by blast
  then show ?thesis
  proof cases
    case 1
    with dec have "from_utf8 (pending_utf8 p @ b) = Inr u" by (simp add: from_utf8_def)
    with 1 s t v show ?thesis
      by (intro exI [of _ u] exI [of _ v] exI [of _ "\<lparr>inner_parser = s, pending_utf8 = r\<rparr>"] exI [of _ out])
        (simp add: push_bytes_def)
  next
    case 2
    then have u: "u = []" by (cases u) simp_all
    from 2 dec bytes have "from_utf8 (pending_utf8 p @ b) = Inl \<lparr>valid_up_to = 0, error_len = None\<rparr>"
      by (simp add: from_utf8_def)
    with u t v bytes show ?thesis
      by (intro exI [of _ u] exI [of _ v] exI [of _ "p\<lparr>pending_utf8 := r\<rparr>"] exI [of _ chunk_default])
        (simp add: push_bytes_def push_nothing assms(1))
  next
    case 3
    with dec bytes have "from_utf8 (pending_utf8 p @ b) = Inl \<lparr>valid_up_to = length (utf8_bytes u), error_len = None\<rparr>"
      by (simp add: from_utf8_def)
    with 3 s t v bytes scalar show ?thesis
      by (intro exI [of _ u] exI [of _ v] exI [of _ "\<lparr>inner_parser = s, pending_utf8 = r\<rparr>"] exI [of _ out])
        (simp add: push_bytes_def)
  qed
qed

lemma utf8_finish_bytes:
  assumes "inv (inner_parser p)" "list_all is_scalar t" "pending_utf8 p = utf8_bytes t"
  shows "map_option snd (utf8_finish push finish p) = map_option Inr (collect_chunks push finish (inner_parser p) [t])"
proof (cases "t = []")
  case True
  with assms show ?thesis by (simp add: utf8_finish_def collect_chunks_def push_nothing split: prod.splits)
next
  case False
  then have "utf8_bytes t \<noteq> []" by (cases t) simp_all
  moreover obtain s out where "push (inner_parser p) t = Some (s, out)" using push_returns [OF assms(1)] by blast
  ultimately show ?thesis using assms
    by (simp add: utf8_finish_def collect_chunks_def pending_error_def split: prod.splits)
qed

lemma collect_bytes_equiv:
  assumes "inv (inner_parser p)" "list_all is_scalar t" "pending_utf8 p @ concat bs = utf8_bytes t"
  shows "\<exists>out whole. collect_bytes push finish p bs = Some (Inr out) \<and>
    collect_chunks push finish (inner_parser p) [t] = Some whole \<and> chunk_equiv norm out whole"
  using assms
proof (induction bs arbitrary: p t)
  case Nil
  obtain whole where "collect_chunks push finish (inner_parser p) [t] = Some whole"
    using push_returns [OF Nil.prems(1), of t] by (auto simp: collect_chunks_def)
  with utf8_finish_bytes [of p t] Nil.prems have "collect_bytes push finish p [] = Some (Inr whole)"
    "collect_chunks push finish (inner_parser p) [t] = Some whole" by simp_all
  then show ?case using chunk_equiv_refl by blast
next
  case (Cons b bs)
  have "(pending_utf8 p @ b) @ concat bs = utf8_bytes t" using Cons.prems(3) by simp
  from push_bytes_prefix [OF Cons.prems(1,2) this] obtain u v p' o1 where step: "t = u @ v"
    "push_bytes push p b = Some (p', Inr o1)" "push (inner_parser p) u = Some (inner_parser p', o1)"
    "inv (inner_parser p')" "pending_utf8 p' @ concat bs = utf8_bytes v" by blast
  have "list_all is_scalar v" using Cons.prems(2) step(1) by simp
  from Cons.IH [OF step(4) this step(5)] obtain out whole where rest:
    "collect_bytes push finish p' bs = Some (Inr out)"
    "collect_chunks push finish (inner_parser p') [v] = Some whole" "chunk_equiv norm out whole" by blast
  from rest(2) obtain s o2 where s: "push (inner_parser p') v = Some (s, o2)"
    "whole = chunk_append o2 (snd (finish s))"
    by (auto simp: collect_chunks_def split: option.splits)
  from push_append [OF Cons.prems(1) step(3) s(1)] obtain o3 where
    o3: "push (inner_parser p) (u @ v) = Some (s, o3)" "chunk_equiv norm o3 (chunk_append o1 o2)" by blast
  have "chunk_equiv norm (chunk_append o1 out) (chunk_append o1 whole)"
    by (rule chunk_append_cong [OF chunk_equiv_refl rest(3)])
  moreover have "chunk_equiv norm (chunk_append o1 whole) (chunk_append o3 (snd (finish s)))"
    unfolding s(2) chunk_append_assoc [symmetric]
    by (rule chunk_append_cong [OF chunk_equiv_sym [OF o3(2)] chunk_equiv_refl])
  ultimately have "chunk_equiv norm (chunk_append o1 out) (chunk_append o3 (snd (finish s)))"
    by (rule chunk_equiv_trans)
  with step(1,2) rest(1) o3(1) show ?case by (simp add: collect_chunks_def)
qed

end

text \<open>An error leaves the parser as it was: the inner parser has seen nothing of the chunk, and the pending
  bytes are those from before.\<close>

lemma push_bytes_rollback: "push_bytes push p b = Some (p', Inl e) \<Longrightarrow> p' = p"
  by (auto simp: push_bytes_def Let_def split: sum.splits option.splits if_splits)

text \<open>The bytes of a text reach the citation parser whole, however they are cut, even inside a code
  point: the stream has no error and shows and extracts what hiding the citation tags of the text
  does.\<close>

theorem utf8_streamed:
  assumes "list_all is_scalar t" "concat bs = utf8_bytes t"
  shows "map_option (map_sum id (\<lambda>c. (visible_text c, extracted c)))
      (collect_bytes citation_push_str citation_finish (utf8_new citation_new) bs) =
    Some (Inr (hide_tags CITATION_OPEN CITATION_CLOSE t))"
proof -
  have "\<exists>out whole. collect_bytes citation_push_str citation_finish (utf8_new citation_new) bs = Some (Inr out) \<and>
      collect_chunks citation_push_str citation_finish citation_new [t] = Some whole \<and> chunk_equiv (\<lambda>xs. xs) out whole"
    using citations.collect_bytes_equiv [of "utf8_new citation_new" t bs] assms citation_new_ok
    by (simp add: utf8_new_def)
  then show ?thesis using citations_collect [of "[t]"] by (auto simp: chunk_equiv_def)
qed

end
