(* ===== verification/Stream_Examples.thy ===== *)
theory Stream_Examples
  imports Assistant_Text Utf8_Stream
begin

text \<open>
  Instances of the stream parser theorems on concrete streams, and what the inline parser does on
  openers that are prefixes of each other.
\<close>

text \<open>A citation around the two bytes of the letter e with an acute accent, cut inside the letter.\<close>

definition accent_chunks :: "nat list list" where
  "accent_chunks =
     [utf8_bytes (str ''a<oai-mem-cit'') , utf8_bytes (str ''ation>'') @ [195], [169] @ utf8_bytes (str ''</oai-mem-citation>b'')]"

theorem utf8_streamed_witness:
  "list_all is_scalar (str ''a<oai-mem-citation>'' @ [233] @ str ''</oai-mem-citation>b'') \<and>
   concat accent_chunks = utf8_bytes (str ''a<oai-mem-citation>'' @ [233] @ str ''</oai-mem-citation>b'') \<and>
   map_option (map_sum id (\<lambda>c. (visible_text c, extracted c)))
     (collect_bytes citation_push_str citation_finish (utf8_new citation_new) accent_chunks) =
   Some (Inr (str ''ab'', [[233]]))"
proof -
  let ?t = "str ''a<oai-mem-citation>'' @ [233] @ str ''</oai-mem-citation>b''"
  have scalar: "list_all is_scalar ?t" by code_simp
  moreover have bytes: "concat accent_chunks = utf8_bytes ?t" by code_simp
  moreover have "hide_tags CITATION_OPEN CITATION_CLOSE ?t = (str ''ab'', [[233]])" by code_simp
  ultimately show ?thesis using utf8_streamed [of ?t accent_chunks] by simp
qed

text \<open>With several tags the longest opener at a position wins only when it arrives whole: cut after the
  shorter opener, the same text opens the other tag.\<close>

definition overlapping_specs :: "nat inline_tag_spec list" where
  "overlapping_specs =
     [\<lparr>spec_tag = 0, spec_open = str ''<a>'', spec_close = str ''</a>''\<rparr>,
      \<lparr>spec_tag = 1, spec_open = str ''<a>b'', spec_close = str ''</b>''\<rparr>]"

declare push_loop.simps [code]

lemma overlapping_openers:
  "map_option (\<lambda>p. map_option (\<lambda>c. (visible_text c, map inline_tag (extracted c)))
     (collect_chunks inline_push_str inline_finish p [str ''<a>bx</b>y''])) (inline_new overlapping_specs) =
     Some (Some (str ''y'', [1]))"
  "map_option (\<lambda>p. map_option (\<lambda>c. (visible_text c, map inline_tag (extracted c)))
     (collect_chunks inline_push_str inline_finish p [str ''<a>'', str ''bx</b>y''])) (inline_new overlapping_specs) =
     Some (Some ([], [0]))"
  by code_simp+

end
