(* ===== verification/Saturating.thy ===== *)
theory Saturating
  imports Text_Search
begin

text \<open>
  Machine sizes: a \<^verbatim>\<open>usize\<close> or \<^verbatim>\<open>u64\<close> is a natural number, and the saturating operations of
  the standard library stop at its largest value on a 64 bit machine. \<^verbatim>\<open>saturating_sub\<close> is the
  subtraction of natural numbers.
\<close>

type_synonym usize = nat

definition usize_max :: usize where
  "usize_max = 18446744073709551615"

definition saturating_add :: "usize \<Rightarrow> usize \<Rightarrow> usize" where
  "saturating_add a b = min usize_max (a + b)"

definition saturating_mul :: "usize \<Rightarrow> usize \<Rightarrow> usize" where
  "saturating_mul a b = min usize_max (a * b)"

lemma saturating_add_twice: "saturating_add (saturating_add a b) c = saturating_add a (b + c)"
  by (auto simp: saturating_add_def min_def)

lemma saturating_add_le: "saturating_add a b \<le> usize_max"
  by (simp add: saturating_add_def)

lemma saturating_add_exact: "a + b \<le> usize_max \<Longrightarrow> saturating_add a b = a + b"
  by (simp add: saturating_add_def)

lemma saturating_add_min: "saturating_add (min usize_max a) b = min usize_max (a + b)"
  by (auto simp: saturating_add_def min_def)

lemma min_saturating_add: "min usize_max (saturating_add a b + c) = min usize_max (a + b + c)"
  by (auto simp: saturating_add_def min_def)

lemma saturating_add_sum:
  "saturating_add (saturating_add (saturating_add (min usize_max a) (min usize_max b)) c) d =
   min usize_max (a + b + c + d)"
  by (auto simp: saturating_add_def min_def)

lemma saturating_mul_exact: "a * b \<le> usize_max \<Longrightarrow> saturating_mul a b = a * b"
  by (simp add: saturating_mul_def)

end
