(* ===== verification/Head_Tail_Buffer.thy ===== *)
theory Head_Tail_Buffer
  imports Saturating
begin

text \<open>
  The output buffer of a running process: \<^verbatim>\<open>codex-rs/core/src/unified_exec/head_tail_buffer.rs\<close>.
  The capacity \<^verbatim>\<open>MAX_BYTES\<close> is the argument \<open>cap\<close>. The reference is \<open>buffer_of\<close>: the summary of a whole
  output. The locale \<open>summarised_output\<close> is the contract of a buffer whose pushes keep it the summary
  of everything pushed.
\<close>

record head_tail_buffer =
  head_bytes :: "nat list"
  tail_bytes :: "nat list"
  omitted_bytes :: usize

definition buffer_default :: head_tail_buffer where
  "buffer_default = \<lparr>head_bytes = [], tail_bytes = [], omitted_bytes = 0\<rparr>"

definition HEAD_BUDGET :: "usize \<Rightarrow> usize" where
  "HEAD_BUDGET cap = cap div 2"

definition TAIL_BUDGET :: "usize \<Rightarrow> usize" where
  "TAIL_BUDGET cap = cap - HEAD_BUDGET cap"

definition retained_bytes :: "head_tail_buffer \<Rightarrow> usize" where
  "retained_bytes b = saturating_add (length (head_bytes b)) (length (tail_bytes b))"

definition total_bytes :: "head_tail_buffer \<Rightarrow> usize" where
  "total_bytes b = saturating_add (retained_bytes b) (omitted_bytes b)"

text \<open>\<^verbatim>\<open>split_at_checked\<close> is \<open>None\<close> beyond the end of the chunk.\<close>

definition fill_head :: "usize \<Rightarrow> head_tail_buffer \<Rightarrow> nat list \<Rightarrow> head_tail_buffer \<times> nat list" where
  "fill_head cap b chunk =
     (let remaining_head = HEAD_BUDGET cap - length (head_bytes b);
          (chunk_head, chunk_tail) =
            (if remaining_head \<le> length chunk then (take remaining_head chunk, drop remaining_head chunk)
             else (chunk, []))
      in (b\<lparr>head_bytes := head_bytes b @ chunk_head\<rparr>, chunk_tail))"

definition push_tail :: "usize \<Rightarrow> head_tail_buffer \<Rightarrow> nat list \<Rightarrow> head_tail_buffer" where
  "push_tail cap b chunk =
     (let remaining_tail = TAIL_BUDGET cap - length (tail_bytes b);
          excess_tail = length chunk - remaining_tail;
          omitted = saturating_add (omitted_bytes b) excess_tail;
          kept = (if excess_tail < length (tail_bytes b) then drop excess_tail (tail_bytes b) @ chunk
                  else drop (excess_tail - length (tail_bytes b)) chunk)
      in b\<lparr>tail_bytes := kept, omitted_bytes := omitted\<rparr>)"

definition push_chunk :: "usize \<Rightarrow> head_tail_buffer \<Rightarrow> nat list \<Rightarrow> head_tail_buffer" where
  "push_chunk cap b chunk = (case fill_head cap b chunk of (b', over) \<Rightarrow> push_tail cap b' over)"

definition to_bytes :: "head_tail_buffer \<Rightarrow> nat list" where
  "to_bytes b = head_bytes b @ tail_bytes b"

definition format_output_omission_marker :: "usize \<Rightarrow> ustr" where
  "format_output_omission_marker n = str ''... '' @ nat_str n @ str '' bytes omitted ...''"

text \<open>The marker is ASCII: its bytes are its characters.\<close>

definition to_bytes_with_omission_marker :: "head_tail_buffer \<Rightarrow> nat list" where
  "to_bytes_with_omission_marker b =
     (if omitted_bytes b = 0 then to_bytes b
      else head_bytes b @ [LF] @ format_output_omission_marker (omitted_bytes b) @ [LF] @ tail_bytes b)"

text \<open>\<open>slice\<close> is the position at which \<^verbatim>\<open>VecDeque::as_slices\<close> splits the source tail, which depends on the
  layout of the ring buffer.\<close>

definition push_buffer :: "usize \<Rightarrow> nat \<Rightarrow> head_tail_buffer \<Rightarrow> head_tail_buffer \<Rightarrow> head_tail_buffer" where
  "push_buffer cap slice b source =
     (let b = b\<lparr>omitted_bytes := saturating_add (omitted_bytes b) (omitted_bytes source)\<rparr>;
          (b, over) = (if head_bytes b = [] then (b\<lparr>head_bytes := head_bytes source\<rparr>, [])
                       else fill_head cap b (head_bytes source))
      in if length (tail_bytes source) = TAIL_BUDGET cap
         then b\<lparr>omitted_bytes :=
                  saturating_add (saturating_add (omitted_bytes b) (length (tail_bytes b))) (length over),
                tail_bytes := tail_bytes source\<rparr>
         else (let b = push_tail cap b over in
               if tail_bytes b = [] then b\<lparr>tail_bytes := tail_bytes source\<rparr>
               else push_tail cap (push_tail cap b (take slice (tail_bytes source))) (drop slice (tail_bytes source))))"

section \<open>The summary of an output\<close>

definition last_bytes :: "nat \<Rightarrow> nat list \<Rightarrow> nat list" where
  "last_bytes n s = drop (length s - n) s"

definition buffer_of :: "usize \<Rightarrow> nat list \<Rightarrow> head_tail_buffer" where
  "buffer_of cap s =
     \<lparr>head_bytes = take (HEAD_BUDGET cap) s,
      tail_bytes = last_bytes (TAIL_BUDGET cap) (drop (HEAD_BUDGET cap) s),
      omitted_bytes = min usize_max (length s - cap)\<rparr>"

locale summarised_output =
  fixes start :: 'b
    and push :: "'b \<Rightarrow> 'c list \<Rightarrow> 'b"
    and summary :: "'c list \<Rightarrow> 'b"
  assumes summary_start: "start = summary []"
    and summary_push: "push (summary s) c = summary (s @ c)"
begin

lemma summary_pushes: "foldl push (summary s) cs = summary (s @ concat cs)"
  by (induction cs arbitrary: s) (simp_all add: summary_push)

lemma summary_run: "foldl push start cs = summary (concat cs)"
  using summary_pushes [of "[]"] by (simp add: summary_start)

end

lemma budgets: "HEAD_BUDGET cap + TAIL_BUDGET cap = cap"
  by (simp add: TAIL_BUDGET_def HEAD_BUDGET_def)

lemma last_bytes_append: "last_bytes n (s @ t) = last_bytes (n - length t) s @ last_bytes n t"
  by (cases "length t \<le> n") (simp_all add: last_bytes_def)

lemma length_last_bytes [simp]: "length (last_bytes n s) = min n (length s)"
  by (auto simp: last_bytes_def)

lemma last_bytes_all: "length s \<le> n \<Longrightarrow> last_bytes n s = s"
  by (simp add: last_bytes_def)

lemma last_bytes_0 [simp]: "last_bytes 0 s = []"
  by (simp add: last_bytes_def)

lemma last_bytes_drop: "n \<le> length s - k \<Longrightarrow> last_bytes n (drop k s) = last_bytes n s"
  by (cases "k \<le> length s") (simp_all add: last_bytes_def)

lemma drop_last_bytes: "drop k (last_bytes n s) = last_bytes (min n (length s) - k) s"
proof (cases "k \<le> min n (length s)")
  case True
  then have "length s - n + k = length s - (min n (length s) - k)" by linarith
  then show ?thesis by (simp add: last_bytes_def add.commute)
next
  case False
  then have "length s \<le> length s - n + k" "min n (length s) - k = 0" by linarith+
  then show ?thesis by (simp add: last_bytes_def add.commute)
qed

lemma last_bytes_min [simp]: "last_bytes (min n (length s)) s = last_bytes n s"
  by (simp add: last_bytes_def min_def)

lemma push_tail_last:
  assumes "tail_bytes b = last_bytes (TAIL_BUDGET cap) s"
  shows "push_tail cap b c =
    b\<lparr>tail_bytes := last_bytes (TAIL_BUDGET cap) (s @ c),
      omitted_bytes := saturating_add (omitted_bytes b) (length c - (TAIL_BUDGET cap - length s))\<rparr>"
proof -
  let ?T = "TAIL_BUDGET cap"
  have excess: "length c - (?T - min ?T (length s)) = length c - (?T - length s)" by simp
  show ?thesis
  proof (cases "length c - (?T - length s) < min ?T (length s)")
    case True
    then have "min ?T (length s) - (length c - (?T - length s)) = min (?T - length c) (length s)"
      "length c \<le> ?T" by linarith+
    with True show ?thesis using assms
      by (simp add: push_tail_def Let_def drop_last_bytes last_bytes_append last_bytes_all excess)
  next
    case False
    then have "min ?T (length s) - (length c - (?T - length s)) = 0" by linarith
    with False show ?thesis using assms
      by (simp add: push_tail_def Let_def last_bytes_append excess) (auto simp: last_bytes_def min_def)
  qed
qed

lemma fill_head_take:
  assumes "head_bytes b = take (HEAD_BUDGET cap) s"
  shows "fill_head cap b c =
    (b\<lparr>head_bytes := take (HEAD_BUDGET cap) (s @ c)\<rparr>, drop (HEAD_BUDGET cap - length s) c)"
proof -
  have "HEAD_BUDGET cap - length (head_bytes b) = HEAD_BUDGET cap - length s" using assms by (simp add: min_def)
  then show ?thesis using assms by (simp add: fill_head_def Let_def)
qed

lemma chunk_excess:
  "m - cap + (n - (HEAD_BUDGET cap - m) - (TAIL_BUDGET cap - (m - HEAD_BUDGET cap))) = m + n - cap"
  using budgets [of cap] by linarith

lemma push_chunk_buffer_of: "push_chunk cap (buffer_of cap s) c = buffer_of cap (s @ c)"
  using chunk_excess [of "length s" cap "length c"]
  by (simp add: push_chunk_def fill_head_take [where s = s] push_tail_last [where s = "drop (HEAD_BUDGET cap) s"]
      buffer_of_def saturating_add_min)

lemma buffer_default_of: "buffer_default = buffer_of cap []"
  by (simp add: buffer_default_def buffer_of_def last_bytes_def)

interpretation output_buffer: summarised_output buffer_default "push_chunk cap" "buffer_of cap"
  by unfold_locales (rule buffer_default_of, rule push_chunk_buffer_of)

section \<open>Appending a later buffer\<close>

lemma drop_take_drop: "k \<le> n \<Longrightarrow> drop k (take n t) @ drop n t = drop k t"
  using append_take_drop_id [of "n - k" "drop k t"] by (simp add: drop_take)

lemma budget_order: "HEAD_BUDGET cap \<le> TAIL_BUDGET cap"
  by (simp add: TAIL_BUDGET_def HEAD_BUDGET_def)

lemma full_excess:
  assumes "h + t = cap" "h \<le> t" "t \<le> n - (h :: nat)"
  shows "m - cap + (n - cap) + min t (m - h) + (min n h - (h - m)) = m + n - cap"
proof (cases "t = 0")
  case True
  with assms show ?thesis by simp
next
  case False
  with assms obtain k where n: "n = cap + k" "min n h = h" by (metis add.commute le_add_diff_inverse le_add1
      le_diff_conv le_trans min.absorb2 nat_le_linear diff_is_0_eq le_zero_eq)
  have "m - cap + min t (m - h) + (h - (h - m)) = m"
  proof (cases "m \<le> h")
    case True
    with assms(1) show ?thesis by simp
  next
    case False
    then have "h - (h - m) = h" by simp
    then show ?thesis using assms(1) False by (auto simp: min_def)
  qed
  moreover have "n - cap = k" "m + n - cap = m + k" by (simp_all add: n(1))
  ultimately show ?thesis unfolding n(2) by linarith
qed

text \<open>The head of both outputs, and what of the source head is left over.\<close>

lemma push_buffer_head:
  assumes "b = (buffer_of cap s)\<lparr>omitted_bytes := n\<rparr>"
  shows "(if head_bytes b = [] then (b\<lparr>head_bytes := head_bytes (buffer_of cap t)\<rparr>, [])
          else fill_head cap b (head_bytes (buffer_of cap t))) =
    (b\<lparr>head_bytes := take (HEAD_BUDGET cap) (s @ t)\<rparr>,
     drop (HEAD_BUDGET cap - length s) (take (HEAD_BUDGET cap) t))"
  using assms by (auto simp: buffer_of_def fill_head_take [where s = s])

lemma push_tail_twice:
  assumes "tail_bytes b = last_bytes (TAIL_BUDGET cap) s"
  shows "push_tail cap (push_tail cap b c) d = push_tail cap b (c @ d)"
proof -
  have "length c - (TAIL_BUDGET cap - length s) + (length d - (TAIL_BUDGET cap - (length s + length c))) =
      length c + length d - (TAIL_BUDGET cap - length s)" by linarith
  then show ?thesis
    by (simp add: push_tail_last [OF assms] push_tail_last [where s = "s @ c"] saturating_add_twice)
qed

lemma push_tail_empty:
  assumes "tail_bytes b = last_bytes (TAIL_BUDGET cap) s" "tail_bytes (push_tail cap b c) = []"
    "length d < TAIL_BUDGET cap" "omitted_bytes b \<le> usize_max"
  shows "(push_tail cap b c)\<lparr>tail_bytes := d\<rparr> = push_tail cap b (c @ d)"
proof -
  from assms(2) have "length (last_bytes (TAIL_BUDGET cap) (s @ c)) = 0" by (simp add: push_tail_last [OF assms(1)])
  then have "length s + length c = 0" using assms(3) by (simp add: min_def split: if_splits)
  then have "s = []" "c = []" by simp_all
  with assms(3,4) show ?thesis
    by (simp add: push_tail_last [OF assms(1)] last_bytes_all saturating_add_def)
qed

lemma push_buffer_of: "push_buffer cap slice (buffer_of cap s) (buffer_of cap t) = buffer_of cap (s @ t)"
proof -
  let ?H = "HEAD_BUDGET cap" and ?T = "TAIL_BUDGET cap"
  let ?over = "drop (?H - length s) (take ?H t)"
  define n where "n = saturating_add (min usize_max (length s - cap)) (min usize_max (length t - cap))"
  define b where "b = (buffer_of cap s)\<lparr>omitted_bytes := n, head_bytes := take ?H (s @ t)\<rparr>"
  have tail_b: "tail_bytes b = last_bytes ?T (drop ?H s)" by (simp add: b_def buffer_of_def)
  have push: "push_buffer cap slice (buffer_of cap s) (buffer_of cap t) =
    (if length (tail_bytes (buffer_of cap t)) = ?T
     then b\<lparr>omitted_bytes := saturating_add (saturating_add n (length (tail_bytes b))) (length ?over),
            tail_bytes := tail_bytes (buffer_of cap t)\<rparr>
     else let b = push_tail cap b ?over in
          if tail_bytes b = [] then b\<lparr>tail_bytes := tail_bytes (buffer_of cap t)\<rparr>
          else push_tail cap (push_tail cap b (take slice (tail_bytes (buffer_of cap t))))
            (drop slice (tail_bytes (buffer_of cap t))))"
  proof -
    have "(buffer_of cap s)\<lparr>omitted_bytes :=
        saturating_add (omitted_bytes (buffer_of cap s)) (omitted_bytes (buffer_of cap t))\<rparr> =
      (buffer_of cap s)\<lparr>omitted_bytes := n\<rparr>" by (simp add: n_def buffer_of_def)
    moreover have "omitted_bytes b = n" by (simp add: b_def)
    ultimately show ?thesis
      by (simp only: push_buffer_def Let_def push_buffer_head [OF refl] prod.case flip: b_def)
  qed
  show ?thesis
  proof (cases "length (tail_bytes (buffer_of cap t)) = ?T")
    case True
    then have large: "?T \<le> length t - ?H" by (simp add: buffer_of_def)
    have "last_bytes ?T (drop ?H (s @ t)) = last_bytes ?T (drop ?H t)"
      using large by (simp add: last_bytes_append last_bytes_drop)
    moreover have "saturating_add (saturating_add n (length (tail_bytes b))) (length ?over) =
        min usize_max (length s + length t - cap)"
      unfolding n_def saturating_add_sum
      using full_excess [OF budgets budget_order large, of "length s"] by (simp add: tail_b)
    ultimately show ?thesis
      unfolding push if_P [OF True] by (simp add: b_def buffer_of_def)
  next
    case False
    then have small: "length t - ?H < ?T" by (simp add: buffer_of_def min_def split: if_splits)
    then have tail_t: "tail_bytes (buffer_of cap t) = drop ?H t" by (simp add: buffer_of_def last_bytes_all)
    have n: "n = min usize_max (length s - cap)" using small budgets [of cap] by (simp add: n_def saturating_add_def)
    have omitted_b: "omitted_bytes b \<le> usize_max" by (simp add: b_def n)
    have "push_buffer cap slice (buffer_of cap s) (buffer_of cap t) = push_tail cap b (?over @ drop ?H t)"
      using push_tail_twice [OF tail_b] push_tail_empty [OF tail_b]
      unfolding push if_not_P [OF False] Let_def tail_t
      by (simp add: small small [THEN less_imp_neq] omitted_b del: drop_drop)
    also have "\<dots> = push_tail cap b (drop (?H - length s) t)" by (simp add: drop_take_drop)
    also have "\<dots> = buffer_of cap (s @ t)"
      unfolding push_tail_last [OF tail_b] using chunk_excess [of "length s" cap "length t"]
      by (simp add: n b_def buffer_of_def saturating_add_min)
    finally show ?thesis .
  qed
qed

section \<open>What a reader of the buffer gets\<close>

lemma to_bytes_fits: "length s \<le> cap \<Longrightarrow> to_bytes (buffer_of cap s) = s"
  using budgets [of cap] by (simp add: to_bytes_def buffer_of_def last_bytes_all)

lemma to_bytes_bounded: "length (to_bytes (buffer_of cap s)) \<le> cap"
proof -
  have "min (length s) (HEAD_BUDGET cap) + min (TAIL_BUDGET cap) (length s - HEAD_BUDGET cap) \<le> cap"
    using budgets [of cap] by linarith
  then show ?thesis by (simp add: to_bytes_def buffer_of_def)
qed

lemma total_bytes_of: "total_bytes (buffer_of cap s) = min usize_max (length s)"
proof -
  have "min (length s) (HEAD_BUDGET cap) + min (TAIL_BUDGET cap) (length s - HEAD_BUDGET cap) + (length s - cap) =
      length s"
    using budgets [of cap] by linarith
  then show ?thesis
    by (simp add: total_bytes_def retained_bytes_def buffer_of_def saturating_add_def min_def split: if_splits)
qed

lemma nothing_omitted: "omitted_bytes (buffer_of cap s) = 0 \<longleftrightarrow> length s \<le> cap"
proof -
  have "min usize_max n = 0 \<longleftrightarrow> n = 0" for n by (auto simp: usize_max_def min_def)
  then show ?thesis by (simp add: buffer_of_def)
qed

lemma marked_output:
  "to_bytes_with_omission_marker (buffer_of cap s) =
     (if length s \<le> cap then s
      else take (cap div 2) s @ [LF] @ format_output_omission_marker (min usize_max (length s - cap)) @ [LF] @
        drop (length s - (cap - cap div 2)) s)"
proof (cases "length s \<le> cap")
  case True
  then show ?thesis by (simp add: to_bytes_with_omission_marker_def nothing_omitted to_bytes_fits)
next
  case False
  then have "TAIL_BUDGET cap \<le> length s - HEAD_BUDGET cap" using budgets [of cap] by linarith
  then have "last_bytes (TAIL_BUDGET cap) (drop (HEAD_BUDGET cap) s) = drop (length s - (cap - cap div 2)) s"
    by (simp add: last_bytes_drop) (simp add: last_bytes_def TAIL_BUDGET_def HEAD_BUDGET_def)
  with False show ?thesis
    unfolding to_bytes_with_omission_marker_def nothing_omitted by (simp add: buffer_of_def HEAD_BUDGET_def)
qed

text \<open>C28. A buffer that was given the chunks of an output one by one, and one that was given the buffer of a
  later output, hold the first half of the capacity in bytes and the last half of the output as a
  whole, with the number of bytes left out.\<close>

theorem output_buffer_summary:
  "foldl (push_chunk cap) buffer_default cs = buffer_of cap (concat cs) \<and>
   push_buffer cap slice (foldl (push_chunk cap) buffer_default cs) (foldl (push_chunk cap) buffer_default ds) =
     buffer_of cap (concat cs @ concat ds)"
  by (simp add: output_buffer.summary_run push_buffer_of)

text \<open>However much is pushed, the buffer retains at most its capacity and counts every byte; an output that
  fits is returned unchanged, and a longer one as its first and last bytes around a marker with the
  number of bytes between them.\<close>

theorem output_buffer_bounds:
  "length (to_bytes (foldl (push_chunk cap) buffer_default cs)) \<le> cap \<and>
   total_bytes (foldl (push_chunk cap) buffer_default cs) = min usize_max (length (concat cs)) \<and>
   to_bytes_with_omission_marker (foldl (push_chunk cap) buffer_default cs) =
     (if length (concat cs) \<le> cap then concat cs
      else take (cap div 2) (concat cs) @ [LF] @
        format_output_omission_marker (min usize_max (length (concat cs) - cap)) @ [LF] @
        drop (length (concat cs) - (cap - cap div 2)) (concat cs))"
  by (simp add: output_buffer.summary_run to_bytes_bounded total_bytes_of marked_output)

end
