(* ===== verification/Truncate.thy ===== *)
theory Truncate
  imports Saturating Utf8
begin

text \<open>
  Truncation of text to a byte budget: \<^verbatim>\<open>codex-rs/utils/string/src/truncate.rs\<close> and
  \<^verbatim>\<open>take_bytes_at_char_boundary\<close> of \<^verbatim>\<open>lib.rs\<close>. Lengths and positions are in bytes, as in the
  code; slicing a string inside a code point panics, which is \<open>None\<close> here and shown not to happen.
\<close>

definition len_utf8 :: "uchar \<Rightarrow> usize" where
  "len_utf8 c = length (utf8_encode c)"

definition byte_len :: "ustr \<Rightarrow> usize" where
  "byte_len s = length (utf8_bytes s)"

lemma byte_len_simps [simp]:
  "byte_len [] = 0" "byte_len (c # s) = len_utf8 c + byte_len s" "byte_len (s @ t) = byte_len s + byte_len t"
  by (simp_all add: byte_len_def len_utf8_def)

lemma len_utf8_pos [simp]: "0 < len_utf8 c" "len_utf8 c \<noteq> 0" "Suc 0 \<le> len_utf8 c"
  using utf8_encode_nonempty [of c] by (simp_all add: len_utf8_def Suc_le_eq)

lemma byte_len_0 [simp]: "byte_len s = 0 \<longleftrightarrow> s = []" "0 < byte_len s \<longleftrightarrow> s \<noteq> []"
  by (cases s; simp)+

text \<open>\<open>split_at_byte n s\<close> is \<open>(&s[..n], &s[n..])\<close>.\<close>

fun split_at_byte :: "usize \<Rightarrow> ustr \<Rightarrow> (ustr \<times> ustr) option" where
  "split_at_byte n s =
     (if n = 0 then Some ([], s)
      else case s of
             [] \<Rightarrow> None
           | c # s' \<Rightarrow>
               if len_utf8 c \<le> n
               then map_option (\<lambda>(a, b). (c # a, b)) (split_at_byte (n - len_utf8 c) s')
               else None)"

declare split_at_byte.simps [simp del]

lemma split_at_byte_len: "split_at_byte (byte_len a) (a @ b) = Some (a, b)"
  by (induction a) (subst split_at_byte.simps, simp)+

section \<open>The operations\<close>

definition APPROX_BYTES_PER_TOKEN :: usize where
  "APPROX_BYTES_PER_TOKEN = 4"

definition approx_tokens_from_byte_count :: "usize \<Rightarrow> usize" where
  "approx_tokens_from_byte_count bytes =
     saturating_add bytes (APPROX_BYTES_PER_TOKEN - 1) div APPROX_BYTES_PER_TOKEN"

definition approx_token_count :: "ustr \<Rightarrow> usize" where
  "approx_token_count s = saturating_add (byte_len s) (APPROX_BYTES_PER_TOKEN - 1) div APPROX_BYTES_PER_TOKEN"

definition approx_bytes_for_tokens :: "usize \<Rightarrow> usize" where
  "approx_bytes_for_tokens tokens = saturating_mul tokens APPROX_BYTES_PER_TOKEN"

text \<open>The loop of \<^verbatim>\<open>split_string\<close>, from position \<open>idx\<close> on, over its four variables.\<close>

record split_state =
  prefix_end :: usize
  suffix_start :: usize
  removed_chars :: usize
  suffix_started :: bool

fun split_scan :: "usize \<Rightarrow> usize \<Rightarrow> usize \<Rightarrow> ustr \<Rightarrow> split_state \<Rightarrow> split_state" where
  "split_scan beginning_bytes tail_start_target idx [] st = st"
| "split_scan beginning_bytes tail_start_target idx (ch # s) st =
     (let char_end = idx + len_utf8 ch in
      split_scan beginning_bytes tail_start_target char_end s
        (if char_end \<le> beginning_bytes then st\<lparr>prefix_end := char_end\<rparr>
         else if tail_start_target \<le> idx
           then (if suffix_started st then st else st\<lparr>suffix_start := idx, suffix_started := True\<rparr>)
         else st\<lparr>removed_chars := saturating_add (removed_chars st) 1\<rparr>))"

definition split_string :: "ustr \<Rightarrow> usize \<Rightarrow> usize \<Rightarrow> (usize \<times> ustr \<times> ustr) option" where
  "split_string s beginning_bytes end_bytes =
     (if s = [] then Some (0, [], [])
      else
        (let len = byte_len s;
             st = split_scan beginning_bytes (len - end_bytes) 0 s
                    \<lparr>prefix_end = 0, suffix_start = len, removed_chars = 0, suffix_started = False\<rparr>;
             start = (if suffix_start st < prefix_end st then prefix_end st else suffix_start st)
         in case (split_at_byte (prefix_end st) s, split_at_byte start s) of
              (Some (before, _), Some (_, after)) \<Rightarrow> Some (removed_chars st, before, after)
            | _ \<Rightarrow> None))"

definition split_budget :: "usize \<Rightarrow> usize \<times> usize" where
  "split_budget budget = (budget div 2, budget - budget div 2)"

abbreviation ELLIPSIS :: uchar where
  "ELLIPSIS \<equiv> 8230"

definition format_truncation_marker :: "bool \<Rightarrow> usize \<Rightarrow> ustr" where
  "format_truncation_marker use_tokens removed_count =
     [ELLIPSIS] @ nat_str removed_count @
       (if use_tokens then str '' tokens truncated'' else str '' chars truncated'') @ [ELLIPSIS]"

definition removed_units :: "bool \<Rightarrow> usize \<Rightarrow> usize \<Rightarrow> usize" where
  "removed_units use_tokens removed_bytes removed =
     (if use_tokens then approx_tokens_from_byte_count removed_bytes else min usize_max removed)"

definition assemble_truncated_output :: "ustr \<Rightarrow> ustr \<Rightarrow> ustr \<Rightarrow> ustr" where
  "assemble_truncated_output before after marker = before @ marker @ after"

definition truncate_with_byte_estimate :: "ustr \<Rightarrow> usize \<Rightarrow> bool \<Rightarrow> ustr option" where
  "truncate_with_byte_estimate s max_bytes use_tokens =
     (if s = [] then Some []
      else if max_bytes = 0
        then Some (format_truncation_marker use_tokens (removed_units use_tokens (byte_len s) (length s)))
      else if byte_len s \<le> max_bytes then Some s
      else
        (case split_budget max_bytes of (left_budget, right_budget) \<Rightarrow>
         case split_string s left_budget right_budget of
           None \<Rightarrow> None
         | Some (removed, left, right) \<Rightarrow>
             Some (assemble_truncated_output left right
               (format_truncation_marker use_tokens
                 (removed_units use_tokens (byte_len s - max_bytes) removed)))))"

definition truncate_middle_chars :: "ustr \<Rightarrow> usize \<Rightarrow> ustr option" where
  "truncate_middle_chars s max_bytes = truncate_with_byte_estimate s max_bytes False"

definition truncate_middle_with_token_budget :: "ustr \<Rightarrow> usize \<Rightarrow> (ustr \<times> usize option) option" where
  "truncate_middle_with_token_budget s max_tokens =
     (if s = [] then Some ([], None)
      else if 0 < max_tokens \<and> byte_len s \<le> approx_bytes_for_tokens max_tokens then Some (s, None)
      else map_option (\<lambda>t. (t, if t = s then None else Some (approx_token_count s)))
        (truncate_with_byte_estimate s (approx_bytes_for_tokens max_tokens) True))"

text \<open>\<^verbatim>\<open>take_bytes_at_char_boundary\<close>: its loop stops at the first character beyond the budget.\<close>

fun last_boundary :: "usize \<Rightarrow> usize \<Rightarrow> usize \<Rightarrow> ustr \<Rightarrow> usize" where
  "last_boundary maxb last_ok i [] = last_ok"
| "last_boundary maxb last_ok i (ch # s) =
     (let nb = i + len_utf8 ch in if maxb < nb then last_ok else last_boundary maxb nb nb s)"

definition take_bytes_at_char_boundary :: "ustr \<Rightarrow> usize \<Rightarrow> ustr option" where
  "take_bytes_at_char_boundary s maxb =
     (if byte_len s \<le> maxb then Some s
      else map_option fst (split_at_byte (last_boundary maxb 0 0 s) s))"

section \<open>The longest prefix and the longest suffix within a budget\<close>

fun fit_prefix :: "usize \<Rightarrow> ustr \<Rightarrow> ustr" where
  "fit_prefix n [] = []"
| "fit_prefix n (c # s) = (if len_utf8 c \<le> n then c # fit_prefix (n - len_utf8 c) s else [])"

fun fit_suffix :: "usize \<Rightarrow> ustr \<Rightarrow> ustr" where
  "fit_suffix n [] = []"
| "fit_suffix n (c # s) = (if byte_len (c # s) \<le> n then c # s else fit_suffix n s)"

lemma fit_prefix_len: "byte_len (fit_prefix n s) \<le> n"
proof (induction n s rule: fit_prefix.induct)
  case (2 n c s)
  then show ?case by (simp add: le_diff_conv2 add.commute)
qed simp

lemma fit_prefix_append: "\<exists>r. s = fit_prefix n s @ r \<and> (r = [] \<or> n < byte_len (fit_prefix n s) + len_utf8 (hd r))"
proof (induction n s rule: fit_prefix.induct)
  case (2 n c s)
  then show ?case
    by (cases "len_utf8 c \<le> n") (fastforce simp: less_diff_conv)+
qed simp

lemma fit_suffix_len: "byte_len (fit_suffix n s) \<le> n"
  by (induction n s rule: fit_suffix.induct) simp_all

lemma fit_suffix_append:
  "\<exists>m. s = m @ fit_suffix n s \<and> (m = [] \<or> n < len_utf8 (last m) + byte_len (fit_suffix n s))"
proof (induction n s rule: fit_suffix.induct)
  case (2 n c s)
  show ?case
  proof (cases "byte_len (c # s) \<le> n")
    case False
    with 2 obtain m where "s = m @ fit_suffix n s" "m = [] \<or> n < len_utf8 (last m) + byte_len (fit_suffix n s)" by auto
    with False show ?thesis by (intro exI [of _ "c # m"]) auto
  qed auto
qed simp

section \<open>The scan\<close>

lemma scan_done:
  "b \<le> idx \<Longrightarrow> target \<le> idx \<Longrightarrow> suffix_started st \<Longrightarrow> split_scan b target idx s st = st"
proof (induction s arbitrary: idx)
  case (Cons c s)
  then have "\<not> idx + len_utf8 c \<le> b" using len_utf8_pos(1) [of c] by linarith
  with Cons show ?case by (simp add: Let_def)
qed simp

lemma scan_middle:
  assumes "s = [] \<or> b < idx + len_utf8 (hd s)" "\<not> suffix_started st" "removed_chars st \<le> usize_max"
    "suffix_start st = idx + byte_len s"
  shows "prefix_end (split_scan b (idx + byte_len s - e) idx s st) = prefix_end st \<and>
    suffix_start (split_scan b (idx + byte_len s - e) idx s st) = idx + byte_len s - byte_len (fit_suffix e s) \<and>
    removed_chars (split_scan b (idx + byte_len s - e) idx s st) =
      min usize_max (removed_chars st + (length s - length (fit_suffix e s)))"
  using assms
proof (induction s arbitrary: idx st)
  case Nil
  then show ?case by simp
next
  case (Cons c s)
  let ?idx = "idx + len_utf8 c" and ?target = "idx + byte_len (c # s) - e"
  show ?case
  proof (cases "byte_len (c # s) \<le> e")
    case True
    then have target: "?target \<le> idx" by simp
    with Cons.prems True show ?thesis by (simp add: Let_def scan_done)
  next
    case False
    then have target: "\<not> ?target \<le> idx" by simp
    define st' where "st' = st\<lparr>removed_chars := saturating_add (removed_chars st) 1\<rparr>"
    have step: "split_scan b ?target idx (c # s) st = split_scan b (?idx + byte_len s - e) ?idx s st'"
      using Cons.prems(1) target by (simp add: Let_def st'_def add.assoc)
    have "s = [] \<or> b < ?idx + len_utf8 (hd s)"
      using Cons.prems(1) len_utf8_pos(1) [of "hd s"] by (auto intro: less_trans)
    from Cons.IH [OF this, of st'] Cons.prems(2-4)
    have rest: "prefix_end (split_scan b ?target idx (c # s) st) = prefix_end st"
      "suffix_start (split_scan b ?target idx (c # s) st) = ?idx + byte_len s - byte_len (fit_suffix e s)"
      "removed_chars (split_scan b ?target idx (c # s) st) =
        min usize_max (saturating_add (removed_chars st) 1 + (length s - length (fit_suffix e s)))"
      unfolding step by (simp_all add: st'_def saturating_add_le add.assoc)
    obtain m where "s = m @ fit_suffix e s" using fit_suffix_append by blast
    then have "length (fit_suffix e s) \<le> length s" by (metis length_append le_add2)
    then have "min usize_max (saturating_add (removed_chars st) 1 + (length s - length (fit_suffix e s))) =
        min usize_max (removed_chars st + (Suc (length s) - length (fit_suffix e s)))"
      unfolding min_saturating_add by (simp add: Suc_diff_le)
    with False rest show ?thesis by (simp add: add.assoc del: split_scan.simps)
  qed
qed

lemma scan_prefix:
  assumes "idx \<le> b" "\<not> suffix_started st"
  shows "split_scan b target idx s st =
    split_scan b target (idx + byte_len (fit_prefix (b - idx) s)) (drop (length (fit_prefix (b - idx) s)) s)
      (st\<lparr>prefix_end := if fit_prefix (b - idx) s = [] then prefix_end st
                        else idx + byte_len (fit_prefix (b - idx) s)\<rparr>)"
  using assms
proof (induction s arbitrary: idx st)
  case (Cons c s)
  show ?case
  proof (cases "idx + len_utf8 c \<le> b")
    case True
    define p where "p = fit_prefix (b - (idx + len_utf8 c)) s"
    have p: "fit_prefix (b - idx) (c # s) = c # p" using True by (simp add: p_def)
    have "split_scan b target idx (c # s) st =
        split_scan b target (idx + len_utf8 c) s (st\<lparr>prefix_end := idx + len_utf8 c\<rparr>)"
      using True by (simp add: Let_def)
    also have "\<dots> = split_scan b target (idx + len_utf8 c + byte_len p) (drop (length p) s)
        (st\<lparr>prefix_end := if p = [] then idx + len_utf8 c else idx + len_utf8 c + byte_len p\<rparr>)"
      by (subst Cons.IH [OF True]) (simp_all add: Cons.prems(2) p_def)
    finally show ?thesis unfolding p by (cases "p = []") (simp_all add: add.assoc)
  next
    case False
    then have "\<not> len_utf8 c \<le> b - idx" using Cons.prems(1) by linarith
    then have "fit_prefix (b - idx) (c # s) = []" by simp
    then show ?thesis by (simp del: fit_prefix.simps split_scan.simps)
  qed
qed simp

lemma split_string_spec:
  "\<exists>before mid after. s = before @ mid @ after \<and>
     split_string s b e = Some (min usize_max (length mid), before, after) \<and>
     before = fit_prefix b s \<and> after = fit_suffix e (mid @ after)"
proof (cases "s = []")
  case True
  then show ?thesis by (simp add: split_string_def)
next
  case False
  define before where "before = fit_prefix b s"
  obtain r where r: "s = before @ r" "r = [] \<or> b < byte_len before + len_utf8 (hd r)"
    unfolding before_def using fit_prefix_append by blast
  define after where "after = fit_suffix e r"
  obtain mid where mid: "r = mid @ after" unfolding after_def using fit_suffix_append by blast
  define st where "st = \<lparr>prefix_end = byte_len before, suffix_start = byte_len s, removed_chars = 0, suffix_started = False\<rparr>"
  have parts: "s = before @ r" "s = (before @ mid) @ after" using r(1) mid by simp_all
  have rest: "drop (length before) s = r" "byte_len s = byte_len before + byte_len r"
    "byte_len r = byte_len mid + byte_len after" "length r = length mid + length after"
    by (simp add: parts(1), simp add: parts(1), simp_all add: mid)
  have "split_scan b (byte_len s - e) 0 s
      \<lparr>prefix_end = 0, suffix_start = byte_len s, removed_chars = 0, suffix_started = False\<rparr> =
    split_scan b (byte_len before + byte_len r - e) (byte_len before) r st"
    by (subst scan_prefix) (simp_all add: rest(1,2) st_def flip: before_def)
  moreover have "prefix_end (split_scan b (byte_len before + byte_len r - e) (byte_len before) r st) = byte_len before"
    "suffix_start (split_scan b (byte_len before + byte_len r - e) (byte_len before) r st) = byte_len (before @ mid)"
    "removed_chars (split_scan b (byte_len before + byte_len r - e) (byte_len before) r st) = min usize_max (length mid)"
    using scan_middle [OF r(2), of st e] by (simp_all add: st_def rest(2-4) flip: after_def)
  moreover have "split_at_byte (byte_len before) s = Some (before, r)"
    "split_at_byte (byte_len (before @ mid)) s = Some (before @ mid, after)"
    using split_at_byte_len [of before r] split_at_byte_len [of "before @ mid" after]
    unfolding parts(1)[symmetric] parts(2)[symmetric] by simp_all
  ultimately have "split_string s b e = Some (min usize_max (length mid), before, after)"
    using False by (simp add: split_string_def Let_def)
  moreover have "after = fit_suffix e (mid @ after)" "s = before @ mid @ after" using mid after_def parts(2) by simp_all
  ultimately show ?thesis using before_def by blast
qed

section \<open>What truncation keeps\<close>

lemma truncate_over_budget:
  assumes "0 < max_bytes" "max_bytes < byte_len s"
  shows "\<exists>before mid after. s = before @ mid @ after \<and> mid \<noteq> [] \<and>
    byte_len before \<le> max_bytes div 2 \<and> max_bytes div 2 < byte_len before + len_utf8 (hd mid) \<and>
    byte_len after \<le> max_bytes - max_bytes div 2 \<and>
    max_bytes - max_bytes div 2 < len_utf8 (last mid) + byte_len after \<and>
    truncate_with_byte_estimate s max_bytes use_tokens =
      Some (before @ format_truncation_marker use_tokens
        (removed_units use_tokens (byte_len s - max_bytes) (length mid)) @ after)"
proof -
  obtain before mid after where parts: "s = before @ mid @ after" "before = fit_prefix (max_bytes div 2) s"
    "after = fit_suffix (max_bytes - max_bytes div 2) (mid @ after)"
    "split_string s (max_bytes div 2) (max_bytes - max_bytes div 2) = Some (min usize_max (length mid), before, after)"
    using split_string_spec by blast
  have fits: "byte_len before \<le> max_bytes div 2" "byte_len after \<le> max_bytes - max_bytes div 2"
    using parts(2,3) fit_prefix_len fit_suffix_len by metis+
  have "mid \<noteq> []" using assms(2) fits unfolding parts(1) by auto
  moreover have "max_bytes div 2 < byte_len before + len_utf8 (hd mid)"
    using fit_prefix_append [of s "max_bytes div 2"] parts(1) \<open>mid \<noteq> []\<close> unfolding parts(2) [symmetric] by auto
  moreover have "max_bytes - max_bytes div 2 < len_utf8 (last mid) + byte_len after"
    using fit_suffix_append [of "mid @ after" "max_bytes - max_bytes div 2"] \<open>mid \<noteq> []\<close>
    unfolding parts(3) [symmetric] by auto
  moreover have "truncate_with_byte_estimate s max_bytes use_tokens =
      Some (before @ format_truncation_marker use_tokens
        (removed_units use_tokens (byte_len s - max_bytes) (length mid)) @ after)"
    using assms parts(4)
    by (auto simp: truncate_with_byte_estimate_def split_budget_def assemble_truncated_output_def removed_units_def)
  ultimately show ?thesis using parts(1) fits by blast
qed

lemma truncate_fits:
  "s = [] \<or> 0 < max_bytes \<and> byte_len s \<le> max_bytes \<Longrightarrow> truncate_with_byte_estimate s max_bytes use_tokens = Some s"
  by (auto simp: truncate_with_byte_estimate_def)

lemma truncate_zero:
  "s \<noteq> [] \<Longrightarrow> truncate_with_byte_estimate s 0 use_tokens =
     Some (format_truncation_marker use_tokens (removed_units use_tokens (byte_len s) (length s)))"
  by (simp add: truncate_with_byte_estimate_def)

text \<open>C29. Truncation never slices inside a character. A text within the budget is unchanged; of a longer one the
  longest prefix within half of the budget and the longest suffix within the other half stay, around
  a marker that counts what is between them: characters, or tokens of four bytes over the budget.
  With no budget only the marker is left.\<close>

theorem truncate_with_byte_estimate_spec:
  "\<exists>t. truncate_with_byte_estimate s max_bytes use_tokens = Some t \<and>
    (if s = [] \<or> 0 < max_bytes \<and> byte_len s \<le> max_bytes then t = s
     else if max_bytes = 0
       then t = format_truncation_marker use_tokens (removed_units use_tokens (byte_len s) (length s))
     else \<exists>before mid after. s = before @ mid @ after \<and> mid \<noteq> [] \<and>
       byte_len before \<le> max_bytes div 2 \<and> max_bytes div 2 < byte_len before + len_utf8 (hd mid) \<and>
       byte_len after \<le> max_bytes - max_bytes div 2 \<and>
       max_bytes - max_bytes div 2 < len_utf8 (last mid) + byte_len after \<and>
       t = before @ format_truncation_marker use_tokens
         (removed_units use_tokens (byte_len s - max_bytes) (length mid)) @ after)"
proof -
  consider "s = [] \<or> 0 < max_bytes \<and> byte_len s \<le> max_bytes" | "s \<noteq> []" "max_bytes = 0"
    | "0 < max_bytes" "max_bytes < byte_len s" by fastforce
  then show ?thesis
  proof cases
    case 3
    then have "\<not> (s = [] \<or> 0 < max_bytes \<and> byte_len s \<le> max_bytes)" "max_bytes \<noteq> 0" by auto
    then show ?thesis using truncate_over_budget [OF 3, of use_tokens] by auto
  qed (simp_all add: truncate_fits truncate_zero)
qed

section \<open>How long a truncated text is\<close>

lemma length_nat_str: "0 < k \<Longrightarrow> n < 10 ^ k \<Longrightarrow> length (nat_str n) \<le> k"
proof (induction k arbitrary: n)
  case (Suc k)
  show ?case
  proof (cases "n < 10")
    case True
    then show ?thesis by (simp add: nat_str.simps)
  next
    case False
    then have "0 < k" using Suc.prems(2) by (cases k) simp_all
    moreover have "n div 10 < 10 ^ k" using Suc.prems(2) by (simp add: less_mult_imp_div_less mult.commute)
    ultimately show ?thesis using Suc.IH [of "n div 10"] False by (subst nat_str.simps) simp
  qed
qed simp

lemma nat_str_ascii: "c \<in> set (nat_str n) \<Longrightarrow> c < 128"
proof (induction n rule: nat_str.induct)
  case (1 n)
  show ?case
  proof (cases "n < 10")
    case True
    with 1(2) show ?thesis by (simp add: nat_str.simps)
  next
    case False
    with 1(2) have "c \<in> set (nat_str (n div 10)) \<or> c = 48 + n mod 10" by (subst (asm) nat_str.simps) auto
    moreover have "n mod 10 < 10" by simp
    ultimately show ?thesis using 1(1) [OF False] by linarith
  qed
qed

lemma byte_len_ascii: "list_all (\<lambda>c. c < 128) s \<Longrightarrow> byte_len s = length s"
  by (induction s) (simp_all add: len_utf8_def utf8_encode_def)

lemma marker_bound: "n \<le> usize_max \<Longrightarrow> byte_len (format_truncation_marker use_tokens n) \<le> 43"
proof -
  assume "n \<le> usize_max"
  then have "length (nat_str n) \<le> 20" by (intro length_nat_str) (simp_all add: usize_max_def)
  moreover have "byte_len (nat_str n) = length (nat_str n)"
    by (rule byte_len_ascii) (simp add: list_all_iff nat_str_ascii)
  moreover have "byte_len (str '' tokens truncated'') = 17" "byte_len (str '' chars truncated'') = 16"
    "len_utf8 ELLIPSIS = 3" by code_simp+
  ultimately show ?thesis by (simp add: format_truncation_marker_def)
qed

lemma removed_units_bound: "removed_units use_tokens b n \<le> usize_max"
proof -
  have "saturating_add b 3 div 4 \<le> usize_max" using saturating_add_le [of b 3] by (meson div_le_dividend le_trans)
  then show ?thesis
    by (simp add: removed_units_def approx_tokens_from_byte_count_def APPROX_BYTES_PER_TOKEN_def)
qed

lemma truncate_bound:
  "truncate_with_byte_estimate s max_bytes use_tokens = Some t \<Longrightarrow> byte_len t \<le> max_bytes + 43"
proof -
  assume t: "truncate_with_byte_estimate s max_bytes use_tokens = Some t"
  consider "s = [] \<or> 0 < max_bytes \<and> byte_len s \<le> max_bytes" | "s \<noteq> []" "max_bytes = 0"
    | "0 < max_bytes" "max_bytes < byte_len s" by fastforce
  then show "byte_len t \<le> max_bytes + 43"
  proof cases
    case 1
    then have "t = s" using t truncate_fits [of s max_bytes use_tokens] by simp
    with 1 show ?thesis by auto
  next
    case 2
    with t show ?thesis by (auto simp: truncate_zero marker_bound removed_units_bound)
  next
    case 3
    from truncate_over_budget [OF this, of use_tokens] t obtain before n after where
      "t = before @ format_truncation_marker use_tokens n @ after" "byte_len before \<le> max_bytes div 2"
      "byte_len after \<le> max_bytes - max_bytes div 2" "n \<le> usize_max"
      by (auto simp: removed_units_bound)
    with marker_bound [of n use_tokens] show ?thesis by simp
  qed
qed

lemma truncate_total: "\<exists>t. truncate_with_byte_estimate s max_bytes use_tokens = Some t"
  using truncate_fits [of s max_bytes use_tokens] truncate_zero [of s use_tokens]
    truncate_over_budget [of max_bytes s use_tokens]
  by (cases "s = []"; cases "max_bytes = 0"; cases "byte_len s \<le> max_bytes") auto

text \<open>With a token budget: a count is reported exactly when the text was changed, and a text of the budget's
  bytes or fewer never is.\<close>

lemma truncate_tokens_total: "\<exists>t n. truncate_middle_with_token_budget s max_tokens = Some (t, n)"
  using truncate_total [of s "approx_bytes_for_tokens max_tokens" True]
  by (auto simp: truncate_middle_with_token_budget_def)

lemma truncate_tokens_reported:
  "truncate_middle_with_token_budget s max_tokens = Some (t, n) \<Longrightarrow>
     n = (if t = s then None else Some (approx_token_count s))"
  by (auto simp: truncate_middle_with_token_budget_def split: if_splits)

lemma truncate_tokens_bound:
  "truncate_middle_with_token_budget s max_tokens = Some (t, n) \<Longrightarrow> byte_len t \<le> 4 * max_tokens + 43"
proof -
  assume t: "truncate_middle_with_token_budget s max_tokens = Some (t, n)"
  have "approx_bytes_for_tokens max_tokens \<le> 4 * max_tokens"
    by (simp add: approx_bytes_for_tokens_def saturating_mul_def APPROX_BYTES_PER_TOKEN_def)
  with t truncate_bound [of s "approx_bytes_for_tokens max_tokens" True t] show ?thesis
    by (auto simp: truncate_middle_with_token_budget_def split: if_splits)
qed

lemma last_boundary_fit:
  "i \<le> maxb \<Longrightarrow> last_boundary maxb last_ok i s =
     (if fit_prefix (maxb - i) s = [] then last_ok else i + byte_len (fit_prefix (maxb - i) s))"
proof (induction s arbitrary: last_ok i)
  case (Cons c s)
  show ?case
  proof (cases "i + len_utf8 c \<le> maxb")
    case True
    then have "len_utf8 c \<le> maxb - i" by linarith
    with True Cons.IH [of "i + len_utf8 c" "i + len_utf8 c"] show ?thesis by (simp add: Let_def)
  next
    case False
    then have "\<not> len_utf8 c \<le> maxb - i" using Cons.prems by linarith
    with False show ?thesis by (simp add: Let_def)
  qed
qed simp

lemma fit_prefix_all: "byte_len s \<le> n \<Longrightarrow> fit_prefix n s = s"
  by (induction n s rule: fit_prefix.induct) auto

lemma take_bytes_fit: "take_bytes_at_char_boundary s maxb = Some (fit_prefix maxb s)"
proof -
  obtain r where "s = fit_prefix maxb s @ r" using fit_prefix_append by blast
  then have "split_at_byte (byte_len (fit_prefix maxb s)) s = Some (fit_prefix maxb s, r)"
    by (metis split_at_byte_len)
  moreover have "last_boundary maxb 0 0 s = byte_len (fit_prefix maxb s)" by (simp add: last_boundary_fit)
  ultimately show ?thesis by (simp add: take_bytes_at_char_boundary_def fit_prefix_all)
qed

end
