(* ===== verification/Output_Truncation.thy ===== *)
theory Output_Truncation
  imports Truncate
begin

text \<open>
  Truncation of tool output: \<^verbatim>\<open>codex-rs/utils/output-truncation/src/lib.rs\<close>, with the content items
  and payload of \<^verbatim>\<open>codex-rs/protocol/src/models.rs\<close> and \<^verbatim>\<open>TruncationPolicy\<close> of
  \<^verbatim>\<open>protocol.rs\<close>. The token estimate of an audio item is the caller's function \<open>est\<close>.
\<close>

datatype image_detail = Auto | Low | High | Original

datatype content_item =
    InputText ustr
  | InputImage ustr "image_detail option"
  | InputAudio ustr
  | EncryptedContent ustr

datatype output_body = BodyText ustr | ContentItems "content_item list"

record output_payload =
  payload_body :: output_body
  payload_success :: "bool option"

definition payload_from_text :: "ustr \<Rightarrow> output_payload" where
  "payload_from_text t = \<lparr>payload_body = BodyText t, payload_success = None\<rparr>"

datatype truncation_policy = Bytes usize | Tokens usize

fun token_budget :: "truncation_policy \<Rightarrow> usize" where
  "token_budget (Bytes bytes) = approx_tokens_from_byte_count bytes"
| "token_budget (Tokens tokens) = tokens"

fun byte_budget :: "truncation_policy \<Rightarrow> usize" where
  "byte_budget (Bytes bytes) = bytes"
| "byte_budget (Tokens tokens) = approx_bytes_for_tokens tokens"

fun truncate_text :: "ustr \<Rightarrow> truncation_policy \<Rightarrow> ustr option" where
  "truncate_text content (Bytes bytes) = truncate_middle_chars content bytes"
| "truncate_text content (Tokens tokens) = map_option fst (truncate_middle_with_token_budget content tokens)"

definition formatted_truncate_text :: "ustr \<Rightarrow> truncation_policy \<Rightarrow> ustr option" where
  "formatted_truncate_text content policy =
     (if byte_len content \<le> byte_budget policy then Some content
      else map_option (\<lambda>result.
        str ''Warning: truncated output (original token count: '' @ nat_str (approx_token_count content) @ str '')'' @
        [LF] @ str ''Total output lines: '' @ nat_str (length (lines content)) @ [LF, LF] @ result)
        (truncate_text content policy))"

fun text_of_item :: "content_item \<Rightarrow> ustr option" where
  "text_of_item (InputText t) = Some t"
| "text_of_item _ = None"

fun push_segment_line :: "ustr \<Rightarrow> ustr \<Rightarrow> ustr" where
  "push_segment_line combined t = (if combined = [] then t else combined @ [LF] @ t)"

definition formatted_truncate_text_content_items_with_policy ::
  "content_item list \<Rightarrow> truncation_policy \<Rightarrow> (content_item list \<times> usize option) option" where
  "formatted_truncate_text_content_items_with_policy items policy =
     (let text_segments = List.map_filter text_of_item items in
      if text_segments = [] then Some (items, None)
      else
        (let combined = foldl push_segment_line [] text_segments in
         if byte_len combined \<le> byte_budget policy then Some (items, None)
         else map_option (\<lambda>t.
           (InputText t # filter (\<lambda>item. text_of_item item = None) items, Some (approx_token_count combined)))
           (formatted_truncate_text combined policy)))"

section \<open>Scaling a policy\<close>

text \<open>\<^verbatim>\<open>impl Mul<f64> for TruncationPolicy\<close>: \<open>(n as f64 * m).ceil() as usize\<close>. A positive double is a
  numerator of at most 53 bits over a power of two; the conversion and the product round to the
  nearest such number, ties to even, and the last conversion saturates.\<close>

fun excess_bits :: "nat \<Rightarrow> nat" where
  "excess_bits n = (if n < 9007199254740992 then 0 else Suc (excess_bits (n div 2)))"

declare excess_bits.simps [simp del]

definition round_to_53_bits :: "nat \<Rightarrow> nat" where
  "round_to_53_bits n =
     (let e = excess_bits n; q = n div 2 ^ e; r = n mod 2 ^ e in
      if e = 0 then n
      else if 2 * r < 2 ^ e \<or> 2 * r = 2 ^ e \<and> even q then q * 2 ^ e
      else (q + 1) * 2 ^ e)"

text \<open>A number with a numerator of 53 bits is a double already.\<close>

lemma excess_bits_le: "n div 2 ^ k < 9007199254740992 \<Longrightarrow> excess_bits n \<le> k"
proof (induction k arbitrary: n)
  case 0
  then show ?case by (simp add: excess_bits.simps)
next
  case (Suc k)
  from Suc.prems have "n div 2 div 2 ^ k < 9007199254740992" by (simp add: div_mult2_eq)
  with Suc.IH [of "n div 2"] show ?case by (simp add: excess_bits.simps [of n])
qed

lemma round_exact: "m < 9007199254740992 \<Longrightarrow> round_to_53_bits (m * 2 ^ k) = m * 2 ^ k"
proof -
  assume "m < 9007199254740992"
  then have "excess_bits (m * 2 ^ k) \<le> k" by (intro excess_bits_le) simp
  then have "2 ^ excess_bits (m * 2 ^ k) dvd m * 2 ^ k" by (simp add: le_imp_power_dvd)
  then show ?thesis by (simp add: round_to_53_bits_def Let_def)
qed

definition scale_ceil :: "nat \<times> nat \<Rightarrow> usize \<Rightarrow> usize" where
  "scale_ceil multiplier n =
     (case multiplier of (m, k) \<Rightarrow>
        min usize_max ((round_to_53_bits (round_to_53_bits n * m) + (2 ^ k - 1)) div 2 ^ k))"

fun scale_policy :: "nat \<times> nat \<Rightarrow> truncation_policy \<Rightarrow> truncation_policy" where
  "scale_policy multiplier (Bytes bytes) = Bytes (scale_ceil multiplier bytes)"
| "scale_policy multiplier (Tokens tokens) = Tokens (scale_ceil multiplier tokens)"

text \<open>The double nearest to 1.2, the serialization allowance of tool output.\<close>

definition SERIALIZATION_ALLOWANCE :: "nat \<times> nat" where
  "SERIALIZATION_ALLOWANCE = (5404319552844595, 52)"

section \<open>The budget of a list of items\<close>

record item_scan =
  items_out :: "content_item list"
  remaining_budget :: usize
  omitted_text_items :: usize
  omitted_audio_items :: usize

definition text_cost :: "truncation_policy \<Rightarrow> ustr \<Rightarrow> usize" where
  "text_cost policy t = (case policy of Bytes _ \<Rightarrow> byte_len t | Tokens _ \<Rightarrow> approx_token_count t)"

definition audio_cost :: "truncation_policy \<Rightarrow> (ustr \<Rightarrow> usize) \<Rightarrow> ustr \<Rightarrow> usize" where
  "audio_cost policy est url =
     (let token_cost = est url in
      case policy of Bytes _ \<Rightarrow> approx_bytes_for_tokens token_cost | Tokens _ \<Rightarrow> token_cost)"

definition snippet_policy :: "truncation_policy \<Rightarrow> usize \<Rightarrow> truncation_policy" where
  "snippet_policy policy remaining = (case policy of Bytes _ \<Rightarrow> Bytes remaining | Tokens _ \<Rightarrow> Tokens remaining)"

text \<open>One round of the loop.\<close>

fun scan_item :: "truncation_policy \<Rightarrow> (ustr \<Rightarrow> usize) \<Rightarrow> item_scan \<Rightarrow> content_item \<Rightarrow> item_scan option" where
  "scan_item policy est st (InputText t) =
     (if t = [] then Some st
      else if remaining_budget st = 0 then Some (st\<lparr>omitted_text_items := omitted_text_items st + 1\<rparr>)
      else
        (let cost = text_cost policy t in
         if cost \<le> remaining_budget st
         then Some (st\<lparr>items_out := items_out st @ [InputText t], remaining_budget := remaining_budget st - cost\<rparr>)
         else map_option (\<lambda>snippet.
           if snippet = []
           then st\<lparr>omitted_text_items := omitted_text_items st + 1, remaining_budget := 0\<rparr>
           else st\<lparr>items_out := items_out st @ [InputText snippet], remaining_budget := 0\<rparr>)
           (truncate_text t (snippet_policy policy (remaining_budget st)))))"
| "scan_item policy est st (InputImage url detail) = Some (st\<lparr>items_out := items_out st @ [InputImage url detail]\<rparr>)"
| "scan_item policy est st (InputAudio url) =
     (let cost = audio_cost policy est url in
      if cost \<le> remaining_budget st
      then Some (st\<lparr>items_out := items_out st @ [InputAudio url], remaining_budget := remaining_budget st - cost\<rparr>)
      else Some (st\<lparr>omitted_audio_items := omitted_audio_items st + 1\<rparr>))"
| "scan_item policy est st (EncryptedContent c) = Some (st\<lparr>items_out := items_out st @ [EncryptedContent c]\<rparr>)"

fun scan_items ::
  "truncation_policy \<Rightarrow> (ustr \<Rightarrow> usize) \<Rightarrow> item_scan \<Rightarrow> content_item list \<Rightarrow> item_scan option" where
  "scan_items policy est st [] = Some st"
| "scan_items policy est st (item # items) =
     (case scan_item policy est st item of None \<Rightarrow> None | Some st' \<Rightarrow> scan_items policy est st' items)"

definition policy_budget :: "truncation_policy \<Rightarrow> usize" where
  "policy_budget policy = (case policy of Bytes _ \<Rightarrow> byte_budget policy | Tokens _ \<Rightarrow> token_budget policy)"

definition omission_notes :: "usize \<Rightarrow> usize \<Rightarrow> content_item list" where
  "omission_notes texts audios =
     (if 0 < texts then [InputText (str ''[omitted '' @ nat_str texts @ str '' text items ...]'')] else []) @
     (if 0 < audios then [InputText (str ''[omitted '' @ nat_str audios @ str '' audio items ...]'')] else [])"

definition truncate_function_output_items_with_policy ::
  "content_item list \<Rightarrow> truncation_policy \<Rightarrow> (ustr \<Rightarrow> usize) \<Rightarrow> content_item list option" where
  "truncate_function_output_items_with_policy items policy est =
     map_option (\<lambda>st. items_out st @ omission_notes (omitted_text_items st) (omitted_audio_items st))
       (scan_items policy est
         \<lparr>items_out = [], remaining_budget = policy_budget policy, omitted_text_items = 0, omitted_audio_items = 0\<rparr>
         items)"

definition truncate_function_output_payload ::
  "output_payload \<Rightarrow> truncation_policy \<Rightarrow> (ustr \<Rightarrow> usize) \<Rightarrow> output_payload option" where
  "truncate_function_output_payload output policy est =
     (case payload_body output of
        BodyText t \<Rightarrow> map_option (\<lambda>t. output\<lparr>payload_body := BodyText t\<rparr>) (truncate_text t policy)
      | ContentItems items \<Rightarrow>
          map_option (\<lambda>items. output\<lparr>payload_body := ContentItems items\<rparr>)
            (truncate_function_output_items_with_policy items policy est))"

text \<open>\<^verbatim>\<open>approx_tokens_from_byte_count_i64\<close>: the result of the division is below the largest
  \<^verbatim>\<open>i64\<close>, so the second conversion cannot fail.\<close>

definition i64_max :: int where
  "i64_max = 9223372036854775807"

definition approx_tokens_from_byte_count_i64 :: "int \<Rightarrow> int" where
  "approx_tokens_from_byte_count_i64 bytes =
     (if bytes \<le> 0 then 0
      else (let tokens = int (approx_tokens_from_byte_count (min usize_max (nat bytes))) in
            if tokens \<le> i64_max then tokens else i64_max))"

section \<open>What is kept, and how much\<close>

lemma truncate_text_total: "\<exists>t. truncate_text s policy = Some t"
  using truncate_total [of s _ False] truncate_tokens_total [of s]
  by (cases policy) (fastforce simp: truncate_middle_chars_def)+

lemma truncate_text_bytes: "truncate_text s (Bytes n) = Some t \<Longrightarrow> byte_len t \<le> n + 43"
  using truncate_bound [of s n False t] by (simp add: truncate_middle_chars_def)

lemma truncate_text_tokens: "truncate_text s (Tokens n) = Some t \<Longrightarrow> byte_len t \<le> 4 * n + 43"
  by (auto dest: truncate_tokens_bound)

lemma approx_token_count_le: "byte_len t \<le> 4 * n + 43 \<Longrightarrow> approx_token_count t \<le> n + 11"
  by (simp add: approx_token_count_def APPROX_BYTES_PER_TOKEN_def saturating_add_def)

text \<open>A truncated text exceeds the budget it was given by no more than the marker.\<close>

lemma snippet_cost:
  "truncate_text t (snippet_policy policy n) = Some u \<Longrightarrow> text_cost policy u \<le> n + 43"
  by (cases policy)
    (auto simp: snippet_policy_def text_cost_def
      dest: truncate_text_bytes truncate_text_tokens [THEN approx_token_count_le] simp del: truncate_text.simps)

definition item_cost :: "truncation_policy \<Rightarrow> (ustr \<Rightarrow> usize) \<Rightarrow> content_item \<Rightarrow> usize" where
  "item_cost policy est item =
     (case item of InputText t \<Rightarrow> text_cost policy t | InputAudio url \<Rightarrow> audio_cost policy est url | _ \<Rightarrow> 0)"

definition items_cost :: "truncation_policy \<Rightarrow> (ustr \<Rightarrow> usize) \<Rightarrow> content_item list \<Rightarrow> nat" where
  "items_cost policy est items = sum_list (map (item_cost policy est) items)"

lemma items_cost_simps [simp]:
  "items_cost policy est [] = 0" "items_cost policy est (i # is) = item_cost policy est i + items_cost policy est is"
  "items_cost policy est (is @ js) = items_cost policy est is + items_cost policy est js"
  by (simp_all add: items_cost_def)

definition is_media :: "content_item \<Rightarrow> bool" where
  "is_media item = (case item of InputImage _ _ \<Rightarrow> True | EncryptedContent _ \<Rightarrow> True | _ \<Rightarrow> False)"

definition scan_within :: "truncation_policy \<Rightarrow> (ustr \<Rightarrow> usize) \<Rightarrow> item_scan \<Rightarrow> bool" where
  "scan_within policy est st \<longleftrightarrow>
     items_cost policy est (items_out st) + remaining_budget st \<le>
       policy_budget policy + (if remaining_budget st = 0 then 43 else 0)"

lemma scan_item_within:
  assumes "scan_within policy est st"
  shows "\<exists>st'. scan_item policy est st item = Some st' \<and> scan_within policy est st' \<and>
    filter is_media (items_out st') = filter is_media (items_out st @ [item])"
proof (cases item)
  case (InputText t)
  obtain u where u: "truncate_text t (snippet_policy policy (remaining_budget st)) = Some u"
    using truncate_text_total by blast
  with assms snippet_cost [OF u] show ?thesis
    unfolding InputText by (auto simp: scan_within_def is_media_def item_cost_def Let_def split: if_splits)
next
  case (InputAudio url)
  with assms show ?thesis by (auto simp: scan_within_def is_media_def item_cost_def Let_def split: if_splits)
qed (use assms in \<open>simp_all add: scan_within_def is_media_def item_cost_def\<close>)

lemma scan_items_within:
  assumes "scan_within policy est st"
  shows "\<exists>st'. scan_items policy est st items = Some st' \<and> scan_within policy est st' \<and>
    filter is_media (items_out st') = filter is_media (items_out st @ items)"
  using assms
proof (induction items arbitrary: st)
  case (Cons item items)
  from scan_item_within [OF Cons.prems, of item] obtain st1 where
    st1: "scan_item policy est st item = Some st1" "scan_within policy est st1"
    "filter is_media (items_out st1) = filter is_media (items_out st @ [item])" by blast
  from Cons.IH [OF st1(2)] st1 show ?case by auto
qed simp

lemma text_cost_pos: "t \<noteq> [] \<Longrightarrow> 0 < text_cost policy t"
proof -
  assume "t \<noteq> []"
  then have "1 \<le> byte_len t" by (simp add: Suc_le_eq)
  then have "4 \<le> saturating_add (byte_len t) 3" by (simp add: saturating_add_def usize_max_def)
  with \<open>t \<noteq> []\<close> show ?thesis
    by (simp add: text_cost_def approx_token_count_def APPROX_BYTES_PER_TOKEN_def div_greater_zero_iff
        split: truncation_policy.split)
qed

text \<open>Items that fit are all kept, save empty texts.\<close>

lemma scan_items_fit:
  assumes "items_cost policy est items \<le> remaining_budget st"
  shows "scan_items policy est st items =
    Some (st\<lparr>items_out := items_out st @ filter (\<lambda>item. item \<noteq> InputText []) items,
             remaining_budget := remaining_budget st - items_cost policy est items\<rparr>)"
  using assms
proof (induction items arbitrary: st)
  case (Cons item items)
  show ?case
  proof (cases item)
    case (InputText t)
    have "t = [] \<Longrightarrow> text_cost policy t = 0"
      by (simp add: text_cost_def approx_token_count_def APPROX_BYTES_PER_TOKEN_def saturating_add_def usize_max_def
          split: truncation_policy.split)
    with InputText Cons text_cost_pos [of t policy] show ?thesis by (auto simp: item_cost_def Let_def)
  qed (use Cons in \<open>simp_all add: item_cost_def Let_def\<close>)
qed simp

text \<open>Truncating the items of a tool output never panics. Images and encrypted items all stay, in order; the
  texts and audio kept cost at most the budget and one truncation marker; and items within the
  budget stay as they are, but for empty texts.\<close>

theorem truncate_items_budget:
  "\<exists>kept texts audios.
     truncate_function_output_items_with_policy items policy est = Some (kept @ omission_notes texts audios) \<and>
     filter is_media kept = filter is_media items \<and>
     items_cost policy est kept \<le> policy_budget policy + 43 \<and>
     (items_cost policy est items > policy_budget policy \<or>
      truncate_function_output_items_with_policy items policy est =
        Some (filter (\<lambda>item. item \<noteq> InputText []) items))"
proof -
  let ?start = "\<lparr>items_out = [], remaining_budget = policy_budget policy, omitted_text_items = 0, omitted_audio_items = 0\<rparr>"
  have "scan_within policy est ?start" by (simp add: scan_within_def)
  from scan_items_within [OF this, of items] obtain st where st: "scan_items policy est ?start items = Some st"
    "scan_within policy est st" "filter is_media (items_out st) = filter is_media items" by auto
  moreover have "items_cost policy est (items_out st) \<le> policy_budget policy + 43"
    using st(2) by (auto simp: scan_within_def split: if_splits)
  moreover have "items_cost policy est items \<le> policy_budget policy \<Longrightarrow>
      truncate_function_output_items_with_policy items policy est =
        Some (filter (\<lambda>item. item \<noteq> InputText []) items)"
    by (simp add: truncate_function_output_items_with_policy_def scan_items_fit omission_notes_def)
  moreover have "truncate_function_output_items_with_policy items policy est =
      Some (items_out st @ omission_notes (omitted_text_items st) (omitted_audio_items st))"
    using st(1) by (simp add: truncate_function_output_items_with_policy_def)
  ultimately show ?thesis by (meson not_less)
qed

end
