(* ===== verification/Response_Item.thy ===== *)
theory Response_Item
  imports Output_Truncation
begin

text \<open>
  The items of a conversation: \<^verbatim>\<open>ResponseItem\<close> and its parts from
  \<^verbatim>\<open>codex-rs/protocol/src/models.rs\<close>, the envelope with history metadata of
  \<^verbatim>\<open>codex-rs/history/src/lib.rs\<close>, and the positional classification of message content of
  \<^verbatim>\<open>codex-rs/context-fragments/src/annotated_content.rs\<close>. The type variable \<open>'j\<close> is data that this
  code carries along and never looks into: JSON values, shell and search actions, summaries, times.
\<close>

datatype message_content =
    MessageInputText ustr
  | MessageInputImage ustr "image_detail option"
  | MessageInputAudio ustr
  | OutputText ustr

datatype agent_content = AgentInputText ustr | AgentEncryptedContent ustr

datatype message_phase = Commentary | FinalAnswer

record 'j passthrough =
  pt_turn_id :: "ustr option"
  pt_create_time :: "'j option"
  content_item_kinds :: "ustr list option"
  pt_cell_id :: "ustr option"
  executed_tool_calls :: "'j list option"
  tool_calls_complete :: "bool option"

definition passthrough_default :: "'j passthrough" where
  "passthrough_default =
     \<lparr>pt_turn_id = None, pt_create_time = None, content_item_kinds = None, pt_cell_id = None,
      executed_tool_calls = None, tool_calls_complete = None\<rparr>"

datatype 'j response_item =
    AdditionalTools "ustr option" ustr "'j list"
  | Message "ustr option" ustr "message_content list" "message_phase option" "'j passthrough option"
  | AgentMessage "ustr option" ustr ustr "agent_content list" "'j passthrough option"
  | Reasoning "ustr option" "'j list" "'j list option" "ustr option" "'j passthrough option"
  | LocalShellCall "ustr option" "ustr option" 'j 'j "'j passthrough option"
  | FunctionCall "ustr option" ustr "ustr option" ustr "ustr list option" ustr "'j passthrough option"
  | ToolSearchCall "ustr option" "ustr option" "ustr option" ustr 'j "'j passthrough option"
  | FunctionCallOutput "ustr option" "ustr option" "ustr option" "ustr option" output_payload "'j passthrough option"
  | CustomToolCall "ustr option" "ustr option" ustr ustr "ustr option" ustr "'j passthrough option"
  | CustomToolCallOutput "ustr option" ustr "ustr option" output_payload "'j passthrough option"
  | ToolSearchOutput "ustr option" "ustr option" ustr ustr "'j list" "'j passthrough option"
  | WebSearchCall "ustr option" "ustr option" "'j option" "'j passthrough option"
  | ImageGenerationCall "ustr option" ustr "ustr option" ustr "'j passthrough option"
  | Compaction "ustr option" ustr "'j passthrough option"
  | CompactionTrigger
  | ContextCompaction "ustr option" "ustr option" "'j passthrough option"
  | OtherItem

fun item_passthrough :: "'j response_item \<Rightarrow> 'j passthrough option" where
  "item_passthrough (Message _ _ _ _ p) = p"
| "item_passthrough (AgentMessage _ _ _ _ p) = p"
| "item_passthrough (Reasoning _ _ _ _ p) = p"
| "item_passthrough (LocalShellCall _ _ _ _ p) = p"
| "item_passthrough (FunctionCall _ _ _ _ _ _ p) = p"
| "item_passthrough (ToolSearchCall _ _ _ _ _ p) = p"
| "item_passthrough (FunctionCallOutput _ _ _ _ _ p) = p"
| "item_passthrough (CustomToolCall _ _ _ _ _ _ p) = p"
| "item_passthrough (CustomToolCallOutput _ _ _ _ p) = p"
| "item_passthrough (ToolSearchOutput _ _ _ _ _ p) = p"
| "item_passthrough (WebSearchCall _ _ _ p) = p"
| "item_passthrough (ImageGenerationCall _ _ _ _ p) = p"
| "item_passthrough (Compaction _ _ p) = p"
| "item_passthrough (ContextCompaction _ _ p) = p"
| "item_passthrough (AdditionalTools _ _ _) = None"
| "item_passthrough CompactionTrigger = None"
| "item_passthrough OtherItem = None"

text \<open>An update through \<^verbatim>\<open>internal_chat_message_metadata_passthrough_mut\<close>.\<close>

fun map_passthrough :: "('j passthrough option \<Rightarrow> 'j passthrough option) \<Rightarrow> 'j response_item \<Rightarrow> 'j response_item" where
  "map_passthrough f (Message a b c d p) = Message a b c d (f p)"
| "map_passthrough f (AgentMessage a b c d p) = AgentMessage a b c d (f p)"
| "map_passthrough f (Reasoning a b c d p) = Reasoning a b c d (f p)"
| "map_passthrough f (LocalShellCall a b c d p) = LocalShellCall a b c d (f p)"
| "map_passthrough f (FunctionCall a b c d e g p) = FunctionCall a b c d e g (f p)"
| "map_passthrough f (ToolSearchCall a b c d e p) = ToolSearchCall a b c d e (f p)"
| "map_passthrough f (FunctionCallOutput a b c d e p) = FunctionCallOutput a b c d e (f p)"
| "map_passthrough f (CustomToolCall a b c d e g p) = CustomToolCall a b c d e g (f p)"
| "map_passthrough f (CustomToolCallOutput a b c d p) = CustomToolCallOutput a b c d (f p)"
| "map_passthrough f (ToolSearchOutput a b c d e p) = ToolSearchOutput a b c d e (f p)"
| "map_passthrough f (WebSearchCall a b c p) = WebSearchCall a b c (f p)"
| "map_passthrough f (ImageGenerationCall a b c d p) = ImageGenerationCall a b c d (f p)"
| "map_passthrough f (Compaction a b p) = Compaction a b (f p)"
| "map_passthrough f (ContextCompaction a b p) = ContextCompaction a b (f p)"
| "map_passthrough f (AdditionalTools a b c) = AdditionalTools a b c"
| "map_passthrough f CompactionTrigger = CompactionTrigger"
| "map_passthrough f OtherItem = OtherItem"

fun item_id :: "'j response_item \<Rightarrow> ustr option" where
  "item_id (AdditionalTools i _ _) = i"
| "item_id (Message i _ _ _ _) = i"
| "item_id (AgentMessage i _ _ _ _) = i"
| "item_id (LocalShellCall i _ _ _ _) = i"
| "item_id (FunctionCall i _ _ _ _ _ _) = i"
| "item_id (ToolSearchCall i _ _ _ _ _) = i"
| "item_id (FunctionCallOutput i _ _ _ _ _) = i"
| "item_id (CustomToolCall i _ _ _ _ _ _) = i"
| "item_id (CustomToolCallOutput i _ _ _ _) = i"
| "item_id (ToolSearchOutput i _ _ _ _ _) = i"
| "item_id (WebSearchCall i _ _ _) = i"
| "item_id (Reasoning i _ _ _ _) = i"
| "item_id (ImageGenerationCall i _ _ _ _) = i"
| "item_id (Compaction i _ _) = i"
| "item_id (ContextCompaction i _ _) = i"
| "item_id CompactionTrigger = None"
| "item_id OtherItem = None"

fun set_item_id :: "'j response_item \<Rightarrow> ustr option \<Rightarrow> 'j response_item" where
  "set_item_id (AdditionalTools _ b c) i = AdditionalTools i b c"
| "set_item_id (Message _ b c d e) i = Message i b c d e"
| "set_item_id (AgentMessage _ b c d e) i = AgentMessage i b c d e"
| "set_item_id (LocalShellCall _ b c d e) i = LocalShellCall i b c d e"
| "set_item_id (FunctionCall _ b c d e f g) i = FunctionCall i b c d e f g"
| "set_item_id (ToolSearchCall _ b c d e f) i = ToolSearchCall i b c d e f"
| "set_item_id (FunctionCallOutput _ b c d e f) i = FunctionCallOutput i b c d e f"
| "set_item_id (CustomToolCall _ b c d e f g) i = CustomToolCall i b c d e f g"
| "set_item_id (CustomToolCallOutput _ b c d e) i = CustomToolCallOutput i b c d e"
| "set_item_id (ToolSearchOutput _ b c d e f) i = ToolSearchOutput i b c d e f"
| "set_item_id (WebSearchCall _ b c d) i = WebSearchCall i b c d"
| "set_item_id (Reasoning _ b c d e) i = Reasoning i b c d e"
| "set_item_id (ImageGenerationCall _ b c d e) i = ImageGenerationCall i b c d e"
| "set_item_id (Compaction _ b c) i = Compaction i b c"
| "set_item_id (ContextCompaction _ b c) i = ContextCompaction i b c"
| "set_item_id CompactionTrigger i = CompactionTrigger"
| "set_item_id OtherItem i = OtherItem"

fun item_id_prefix :: "'j response_item \<Rightarrow> ustr option" where
  "item_id_prefix (AdditionalTools _ _ _) = Some (str ''at'')"
| "item_id_prefix (Message _ _ _ _ _) = Some (str ''msg'')"
| "item_id_prefix (AgentMessage _ _ _ _ _) = Some (str ''amsg'')"
| "item_id_prefix (Reasoning _ _ _ _ _) = Some (str ''rs'')"
| "item_id_prefix (LocalShellCall _ _ _ _ _) = Some (str ''lsh'')"
| "item_id_prefix (FunctionCall _ _ _ _ _ _ _) = Some (str ''fc'')"
| "item_id_prefix (ToolSearchCall _ _ _ _ _ _) = Some (str ''tsc'')"
| "item_id_prefix (FunctionCallOutput _ _ _ _ _ _) = Some (str ''fco'')"
| "item_id_prefix (CustomToolCall _ _ _ _ _ _ _) = Some (str ''ctc'')"
| "item_id_prefix (CustomToolCallOutput _ _ _ _ _) = Some (str ''ctco'')"
| "item_id_prefix (ToolSearchOutput _ _ _ _ _ _) = Some (str ''tso'')"
| "item_id_prefix (WebSearchCall _ _ _ _) = Some (str ''ws'')"
| "item_id_prefix (ImageGenerationCall _ _ _ _ _) = Some (str ''ig'')"
| "item_id_prefix (Compaction _ _ _) = Some (str ''cmp'')"
| "item_id_prefix (ContextCompaction _ _ _) = Some (str ''cmp'')"
| "item_id_prefix CompactionTrigger = None"
| "item_id_prefix OtherItem = None"

definition item_turn_id :: "'j response_item \<Rightarrow> ustr option" where
  "item_turn_id item =
     (case item_passthrough item of
        None \<Rightarrow> None
      | Some p \<Rightarrow> (case pt_turn_id p of None \<Rightarrow> None | Some t \<Rightarrow> if t = [] then None else Some t))"

definition pt_set_turn_id_if_missing :: "ustr \<Rightarrow> 'j passthrough option \<Rightarrow> 'j passthrough option" where
  "pt_set_turn_id_if_missing turn_id metadata =
     (if turn_id = [] \<or>
         (case metadata of None \<Rightarrow> False
          | Some m \<Rightarrow> (case pt_turn_id m of None \<Rightarrow> False | Some t \<Rightarrow> t \<noteq> []))
      then metadata
      else Some ((case metadata of None \<Rightarrow> passthrough_default | Some m \<Rightarrow> m)\<lparr>pt_turn_id := Some turn_id\<rparr>))"

definition set_turn_id_if_missing :: "'j response_item \<Rightarrow> ustr \<Rightarrow> 'j response_item" where
  "set_turn_id_if_missing item turn_id = map_passthrough (pt_set_turn_id_if_missing turn_id) item"

definition stamp_create_time :: "'j \<Rightarrow> 'j passthrough option \<Rightarrow> 'j passthrough option" where
  "stamp_create_time time metadata =
     (let m = (case metadata of None \<Rightarrow> passthrough_default | Some m \<Rightarrow> m) in
      Some (m\<lparr>pt_create_time := Some (case pt_create_time m of None \<Rightarrow> time | Some t \<Rightarrow> t)\<rparr>))"

fun set_create_time_if_missing :: "'j response_item \<Rightarrow> 'j \<Rightarrow> 'j response_item" where
  "set_create_time_if_missing (Message a role c d p) time =
     Message a role c d (if role = str ''user'' \<or> role = str ''developer'' then stamp_create_time time p else p)"
| "set_create_time_if_missing (AgentMessage a b c d p) time = AgentMessage a b c d (stamp_create_time time p)"
| "set_create_time_if_missing (FunctionCallOutput a b c d e p) time =
     FunctionCallOutput a b c d e (stamp_create_time time p)"
| "set_create_time_if_missing (CustomToolCallOutput a b c d p) time =
     CustomToolCallOutput a b c d (stamp_create_time time p)"
| "set_create_time_if_missing (ToolSearchOutput a b c d e p) time =
     ToolSearchOutput a b c d e (stamp_create_time time p)"
| "set_create_time_if_missing item time = item"

definition clear_passthrough :: "'j response_item \<Rightarrow> 'j response_item" where
  "clear_passthrough item = map_passthrough (\<lambda>_. None) item"

definition clear_content_item_kinds :: "'j response_item \<Rightarrow> 'j response_item" where
  "clear_content_item_kinds item =
     map_passthrough (\<lambda>metadata. case metadata of
       None \<Rightarrow> None
     | Some m \<Rightarrow>
         (let m' = m\<lparr>content_item_kinds := None\<rparr> in if m' = passthrough_default then None else Some m')) item"

record harness_metadata =
  client_authored :: bool
  fallback_token_limit_override :: "usize option"

record 'j envelope =
  envelope_item :: "'j response_item"
  envelope_metadata :: "harness_metadata option"

definition envelope_new :: "'j response_item \<Rightarrow> 'j envelope" where
  "envelope_new item = \<lparr>envelope_item = item, envelope_metadata = None\<rparr>"

section \<open>Content with classifications\<close>

text \<open>The classification of a content item that has none.\<close>

definition UNKNOWN_KIND :: ustr where
  "UNKNOWN_KIND = str ''unknown''"

definition annotate :: "message_content list \<Rightarrow> ustr list \<Rightarrow> (message_content \<times> ustr) list" where
  "annotate content kinds = zip content (kinds @ replicate (length content) UNKNOWN_KIND)"

text \<open>\<^verbatim>\<open>to_annotated_content\<close> takes the content and the classifications out of a message, which
  \<^verbatim>\<open>set_annotated_content\<close> puts back; in between the message is \<open>emptied\<close>.\<close>

fun to_annotated_content :: "'j response_item \<Rightarrow> ('j response_item \<times> (message_content \<times> ustr) list) option" where
  "to_annotated_content (Message i role content phase p) =
     Some (Message i role [] phase (map_option (\<lambda>m. m\<lparr>content_item_kinds := None\<rparr>) p),
       annotate content (case p of None \<Rightarrow> [] | Some m \<Rightarrow> (case content_item_kinds m of None \<Rightarrow> [] | Some ks \<Rightarrow> ks)))"
| "to_annotated_content _ = None"

fun set_annotated_content :: "'j response_item \<Rightarrow> (message_content \<times> ustr) list \<Rightarrow> 'j response_item option" where
  "set_annotated_content (Message i role _ phase p) annotated =
     Some (Message i role (map fst annotated) phase
       (Some ((case p of None \<Rightarrow> passthrough_default | Some m \<Rightarrow> m)\<lparr>content_item_kinds := Some (map snd annotated)\<rparr>)))"
| "set_annotated_content _ _ = None"

lemma map_fst_annotate [simp]: "map fst (annotate content kinds) = content"
  by (simp add: annotate_def map_fst_zip_take)

lemma length_annotate [simp]: "length (annotate content kinds) = length content"
  by (simp add: annotate_def)

section \<open>Laws of the metadata updates\<close>

definition carries_passthrough :: "'j response_item \<Rightarrow> bool" where
  "carries_passthrough item = (case item of AdditionalTools _ _ _ \<Rightarrow> False | CompactionTrigger \<Rightarrow> False | OtherItem \<Rightarrow> False | _ \<Rightarrow> True)"

lemma item_passthrough_map:
  "item_passthrough (map_passthrough f item) = (if carries_passthrough item then f (item_passthrough item) else None)"
  by (cases item) (simp_all add: carries_passthrough_def)

lemma map_passthrough_map: "map_passthrough f (map_passthrough g item) = map_passthrough (f \<circ> g) item"
  by (cases item) simp_all

lemma item_id_map_passthrough [simp]: "item_id (map_passthrough f item) = item_id item"
  by (cases item) simp_all

lemma item_id_set: "item_id (set_item_id item i) = (if item_id_prefix item = None then None else i)"
  by (cases item) simp_all

text \<open>A turn id that was stamped stays.\<close>

lemma turn_id_stamped:
  "turn_id \<noteq> [] \<Longrightarrow> carries_passthrough item \<Longrightarrow>
     item_turn_id (set_turn_id_if_missing item turn_id) =
       (case item_turn_id item of None \<Rightarrow> Some turn_id | Some t \<Rightarrow> Some t)"
  by (auto simp: item_turn_id_def set_turn_id_if_missing_def item_passthrough_map pt_set_turn_id_if_missing_def
      passthrough_default_def split: option.splits)

lemma set_turn_id_idem:
  "set_turn_id_if_missing (set_turn_id_if_missing item a) b =
     (if a = [] then set_turn_id_if_missing item b else set_turn_id_if_missing item a)"
  by (auto simp: set_turn_id_if_missing_def map_passthrough_map pt_set_turn_id_if_missing_def fun_eq_iff
      intro!: arg_cong [of _ _ "\<lambda>f. map_passthrough f item"] split: option.splits)

end
