(* ===== verification/Tool_Response.thy ===== *)
theory Tool_Response
  imports Head_Tail_Buffer Response_Item
begin

text \<open>
  The model-facing result of a command: \<^verbatim>\<open>ExecCommandToolOutput\<close> of
  \<^verbatim>\<open>codex-rs/core/src/tools/context.rs\<close>. The loop of \<^verbatim>\<open>response_text\<close> shrinks the policy until
  header and output fit the budget that the history applies to the whole response; it is a
  \<open>partial_function\<close>, so that not returning is \<open>None\<close>, like a panic.
\<close>

section \<open>Printing numbers and durations\<close>

definition int_str :: "int \<Rightarrow> ustr" where
  "int_str n = (if n < 0 then str ''-'' @ nat_str (nat (- n)) else nat_str (nat n))"

text \<open>\<^verbatim>\<open>Duration::as_secs_f64\<close> of a number of nanoseconds, as a numerator over \<open>2 ^ 101\<close>. The quotient
  is taken to 101 binary places with a sticky last bit, so that one rounding gives the double.\<close>

definition NANOS_PER_SEC :: nat where
  "NANOS_PER_SEC = 1000000000"

definition as_secs_f64 :: "nat \<Rightarrow> nat" where
  "as_secs_f64 nanos =
     (let fraction = nanos mod NANOS_PER_SEC * 2 ^ 100;
          quotient = 2 * (fraction div NANOS_PER_SEC) + (if NANOS_PER_SEC dvd fraction then 0 else 1)
      in round_to_53_bits
           (round_to_53_bits (nanos div NANOS_PER_SEC) * 2 ^ 101 + round_to_53_bits quotient))"

text \<open>The format \<^verbatim>\<open>{:.4}\<close>: the exact value to four decimal places, ties to even.\<close>

definition format_f64_4 :: "nat \<Rightarrow> ustr" where
  "format_f64_4 v =
     (let scaled = v * 10000; q = scaled div 2 ^ 101; r = scaled mod 2 ^ 101;
          n = (if 2 * r < 2 ^ 101 \<or> 2 * r = 2 ^ 101 \<and> even q then q else q + 1);
          fraction = nat_str (n mod 10000)
      in nat_str (n div 10000) @ str ''.'' @ concat (replicate (4 - length fraction) (str ''0'')) @ fraction)"

section \<open>The output of a command\<close>

record exec_output =
  event_call_id :: ustr
  chunk_id :: ustr
  wall_time :: nat
  raw_output :: "nat list"
  output_policy :: truncation_policy
  max_output_tokens :: "usize option"
  process_id :: "int option"
  exit_code :: "int option"
  original_token_count :: "usize option"
  output_omitted_bytes :: "usize option"
  hook_command :: "ustr option"

definition DEFAULT_MAX_OUTPUT_TOKENS :: usize where
  "DEFAULT_MAX_OUTPUT_TOKENS = 10000"

definition resolve_max_tokens :: "usize option \<Rightarrow> usize" where
  "resolve_max_tokens max_tokens = (case max_tokens of None \<Rightarrow> DEFAULT_MAX_OUTPUT_TOKENS | Some n \<Rightarrow> n)"

definition model_output_policy :: "exec_output \<Rightarrow> truncation_policy" where
  "model_output_policy out =
     (let requested_policy = Tokens (resolve_max_tokens (max_output_tokens out)) in
      if byte_budget requested_policy < byte_budget (output_policy out) then requested_policy else output_policy out)"

definition truncated_output_with_policy :: "exec_output \<Rightarrow> truncation_policy \<Rightarrow> ustr option" where
  "truncated_output_with_policy out policy =
     (let t = from_utf8_lossy (raw_output out) in
      case output_omitted_bytes out of
        None \<Rightarrow> formatted_truncate_text t policy
      | Some omitted \<Rightarrow>
          (let marker = format_output_omission_marker omitted in
           if byte_len t \<le> byte_budget policy
           then Some (if contains_str marker t then t else marker @ [LF] @ t)
           else
             (let count = (case original_token_count out of None \<Rightarrow> approx_token_count t | Some n \<Rightarrow> n) in
              map_option (\<lambda>truncated.
                str ''Warning: truncated output (original token count: '' @ nat_str count @ str '')'' @ [LF] @
                (if contains_str marker truncated then [] else marker @ [LF]) @ [LF] @ truncated)
                (truncate_text t policy))))"

definition truncated_output :: "exec_output \<Rightarrow> usize \<Rightarrow> ustr option" where
  "truncated_output out max_tokens = truncated_output_with_policy out (Tokens max_tokens)"

definition response_header :: "exec_output \<Rightarrow> ustr" where
  "response_header out =
     join [LF] (
       (if chunk_id out = [] then [] else [str ''Chunk ID: '' @ chunk_id out]) @
       [str ''Wall time: '' @ format_f64_4 (as_secs_f64 (wall_time out)) @ str '' seconds''] @
       (case exit_code out of None \<Rightarrow> [] | Some code \<Rightarrow> [str ''Process exited with code '' @ int_str code]) @
       (case process_id out of None \<Rightarrow> [] | Some pid \<Rightarrow> [str ''Process running with session ID '' @ int_str pid]) @
       (case original_token_count out of None \<Rightarrow> [] | Some n \<Rightarrow> [str ''Original token count: '' @ nat_str n]) @
       [str ''Output:''])"

definition exec_log_output :: "exec_output \<Rightarrow> ustr" where
  "exec_log_output out =
     (let output = from_utf8_lossy (raw_output out);
          output = (case output_omitted_bytes out of
                      None \<Rightarrow> output
                    | Some omitted \<Rightarrow>
                        (let marker = format_output_omission_marker omitted in
                         if contains_str marker output then output else marker @ [LF] @ output))
      in response_header out @ [LF] @ output)"

definition exec_post_tool_use_id :: "exec_output \<Rightarrow> ustr \<Rightarrow> ustr" where
  "exec_post_tool_use_id out call_id = (if event_call_id out = [] then call_id else event_call_id out)"

definition exec_post_tool_use_response :: "exec_output \<Rightarrow> ustr option option" where
  "exec_post_tool_use_response out =
     (if process_id out \<noteq> None \<or> hook_command out = None then Some None
      else map_option Some (truncated_output_with_policy out (model_output_policy out)))"

record code_mode_result =
  result_chunk_id :: "ustr option"
  result_wall_time_seconds :: nat
  result_exit_code :: "int option"
  result_session_id :: "int option"
  result_token_count :: "usize option"
  result_output :: ustr

definition exec_code_mode_result :: "exec_output \<Rightarrow> code_mode_result option" where
  "exec_code_mode_result out =
     map_option (\<lambda>output.
       \<lparr>result_chunk_id = (if chunk_id out = [] then None else Some (chunk_id out)),
        result_wall_time_seconds = as_secs_f64 (wall_time out), result_exit_code = exit_code out,
        result_session_id = process_id out, result_token_count = original_token_count out,
        result_output = output\<rparr>)
       (case max_output_tokens out of
          None \<Rightarrow> Some (from_utf8_lossy (raw_output out))
        | Some max_tokens \<Rightarrow> truncated_output out max_tokens)"

fun shrink_policy :: "usize \<Rightarrow> truncation_policy \<Rightarrow> truncation_policy" where
  "shrink_policy excess_bytes (Bytes bytes) = Bytes (bytes - excess_bytes)"
| "shrink_policy excess_bytes (Tokens tokens) = Tokens (tokens - token_budget (Bytes excess_bytes))"

partial_function (option) shrink_output ::
  "exec_output \<Rightarrow> usize \<Rightarrow> truncation_policy \<Rightarrow> ustr \<Rightarrow> ustr option" where
  "shrink_output out output_budget policy output =
     (if output_budget < byte_len output \<and> 0 < byte_budget policy
      then
        (let policy' = shrink_policy (byte_len output - output_budget) policy in
         Option.bind (truncated_output_with_policy out policy') (shrink_output out output_budget policy'))
      else Some output)"

declare shrink_output.simps [code]

definition output_budget :: "exec_output \<Rightarrow> usize" where
  "output_budget out =
     byte_budget (scale_policy SERIALIZATION_ALLOWANCE (output_policy out)) -
       saturating_add (byte_len (response_header out)) 1"

definition response_text :: "exec_output \<Rightarrow> ustr option" where
  "response_text out =
     (let policy = model_output_policy out in
      map_option (\<lambda>output. response_header out @ [LF] @ output)
        (Option.bind (truncated_output_with_policy out policy) (shrink_output out (output_budget out) policy)))"

section \<open>The loop returns\<close>

lemma truncated_output_total: "\<exists>t. truncated_output_with_policy out policy = Some t"
proof -
  obtain t where "truncate_text (from_utf8_lossy (raw_output out)) policy = Some t"
    using truncate_text_total by blast
  then show ?thesis
    by (auto simp: truncated_output_with_policy_def formatted_truncate_text_def Let_def split: option.split)
qed

fun policy_limit :: "truncation_policy \<Rightarrow> usize" where
  "policy_limit (Bytes n) = n"
| "policy_limit (Tokens n) = n"

lemma byte_budget_0: "byte_budget policy = 0 \<longleftrightarrow> policy_limit policy = 0"
  by (cases policy)
    (simp_all add: approx_bytes_for_tokens_def saturating_mul_def APPROX_BYTES_PER_TOKEN_def usize_max_def min_def)

lemma token_budget_pos: "0 < n \<Longrightarrow> 0 < token_budget (Bytes n)"
  by (simp add: approx_tokens_from_byte_count_def APPROX_BYTES_PER_TOKEN_def saturating_add_def usize_max_def
      div_greater_zero_iff)

lemma shrink_policy_less:
  assumes "0 < excess" "0 < byte_budget policy"
  shows "policy_limit (shrink_policy excess policy) < policy_limit policy"
proof -
  have "0 < policy_limit policy" using assms(2) byte_budget_0 [of policy] by simp
  then show ?thesis using assms(1) token_budget_pos [OF assms(1)] by (cases policy) simp_all
qed

text \<open>The loop ends with the output of some policy no larger than the first: one that fits, or that of a
  policy with nothing left to take away.\<close>

lemma shrink_output_returns:
  assumes "truncated_output_with_policy out policy = Some shown"
  shows "\<exists>policy' shown'. shrink_output out budget policy shown = Some shown' \<and>
    truncated_output_with_policy out policy' = Some shown' \<and> policy_limit policy' \<le> policy_limit policy \<and>
    (byte_len shown' \<le> budget \<or> byte_budget policy' = 0)"
  using assms
proof (induction "policy_limit policy" arbitrary: policy shown rule: less_induct)
  case less
  show ?case
  proof (cases "budget < byte_len shown \<and> 0 < byte_budget policy")
    case True
    define policy' where "policy' = shrink_policy (byte_len shown - budget) policy"
    have smaller: "policy_limit policy' < policy_limit policy"
      unfolding policy'_def using True by (intro shrink_policy_less) simp_all
    obtain shown' where shown': "truncated_output_with_policy out policy' = Some shown'"
      using truncated_output_total by blast
    have "shrink_output out budget policy shown = shrink_output out budget policy' shown'"
      using True shown' by (subst shrink_output.simps) (simp add: policy'_def)
    with less.hyps [OF smaller shown'] smaller show ?thesis by (metis less_imp_le order_trans)
  next
    case False
    then have "shrink_output out budget policy shown = Some shown" by (subst shrink_output.simps) auto
    with False less.prems show ?thesis by (intro exI [of _ policy] exI [of _ shown]) auto
  qed
qed

section \<open>How much is left when nothing more can be taken away\<close>

definition exec_output_ok :: "exec_output \<Rightarrow> bool" where
  "exec_output_ok out \<longleftrightarrow>
     length (raw_output out) < usize_max \<and> pred_option (\<lambda>n. n \<le> usize_max) (original_token_count out) \<and>
     pred_option (\<lambda>n. n \<le> usize_max) (output_omitted_bytes out)"

lemma byte_len_nat_str: "n \<le> usize_max \<Longrightarrow> byte_len (nat_str n) \<le> 20"
proof -
  assume "n \<le> usize_max"
  then have "length (nat_str n) \<le> 20" by (intro length_nat_str) (simp_all add: usize_max_def)
  then show ?thesis by (subst byte_len_ascii) (simp_all add: list_all_iff nat_str_ascii)
qed

lemma approx_token_count_max: "approx_token_count t \<le> usize_max"
proof -
  have "saturating_add (byte_len t) 3 div 4 \<le> usize_max"
    using saturating_add_le [of "byte_len t" 3] by (meson div_le_dividend le_trans)
  then show ?thesis by (simp add: approx_token_count_def APPROX_BYTES_PER_TOKEN_def)
qed

lemma notice_lengths:
  "byte_len (str ''Warning: truncated output (original token count: '') = 49" "byte_len (str '')'') = 1"
  "byte_len (str ''Total output lines: '') = 20" "byte_len (str ''... '') = 4"
  "byte_len (str '' bytes omitted ...'') = 18" "len_utf8 LF = 1"
  by code_simp+

lemma split_on_length: "length (split_on d s) \<le> Suc (length s)"
  by (induction s rule: split_on.induct) (auto split: list.split)

lemma length_lines: "length (lines s) \<le> Suc (length s)"
proof -
  have "length (lines s) \<le> length (split_on LF s)"
    using split_on_not_Nil [of LF s] by (cases "split_on LF s" rule: rev_cases) (simp_all add: lines_def Let_def)
  with split_on_length [of LF s] show ?thesis by linarith
qed

lemma scaled_budget_max: "byte_budget (scale_policy m policy) \<le> usize_max"
  by (cases policy)
    (auto simp: scale_ceil_def approx_bytes_for_tokens_def saturating_mul_def split: prod.split)

lemma exhausted_output_bound:
  assumes ok: "exec_output_ok out" and policy: "byte_budget policy = 0"
    and shown: "truncated_output_with_policy out policy = Some shown"
  shows "byte_len shown \<le> 158"
proof -
  define t where "t = from_utf8_lossy (raw_output out)"
  obtain u where u: "truncate_text t policy = Some u" using truncate_text_total by blast
  have u_len: "byte_len u \<le> 43"
    using u policy byte_budget_0 [of policy] truncate_text_bytes [of t 0 u] truncate_text_tokens [of t 0 u]
    by (cases policy) (simp_all del: truncate_text.simps)
  have lines_len: "byte_len (nat_str (length (lines t))) \<le> 20"
    using ok length_lines [of t] length_from_utf8_lossy [of "raw_output out"]
    by (intro byte_len_nat_str) (simp add: exec_output_ok_def t_def)
  have count_len: "byte_len (nat_str (approx_token_count t)) \<le> 20"
    by (rule byte_len_nat_str [OF approx_token_count_max])
  show ?thesis
  proof (cases "output_omitted_bytes out")
    case None
    with shown u u_len lines_len count_len policy show ?thesis
      by (auto simp: truncated_output_with_policy_def formatted_truncate_text_def t_def [symmetric] notice_lengths
          split: if_splits)
  next
    case (Some omitted)
    have "omitted \<le> usize_max" using ok Some by (simp add: exec_output_ok_def)
    from byte_len_nat_str [OF this] have marker: "byte_len (format_output_omission_marker omitted) \<le> 42"
      by (simp add: format_output_omission_marker_def notice_lengths)
    define count where "count = (case original_token_count out of None \<Rightarrow> approx_token_count t | Some n \<Rightarrow> n)"
    have "byte_len (nat_str count) \<le> 20"
      using ok count_len byte_len_nat_str [of count]
      by (cases "original_token_count out") (simp_all add: count_def exec_output_ok_def)
    with shown Some u u_len marker policy show ?thesis
      by (auto simp: truncated_output_with_policy_def t_def [symmetric] count_def [symmetric] Let_def notice_lengths
          split: if_splits)
  qed
qed

section \<open>The response fits the budget of the history\<close>

lemma response_text_shape:
  "\<exists>policy shown. response_text out = Some (response_header out @ [LF] @ shown) \<and>
     truncated_output_with_policy out policy = Some shown \<and>
     policy_limit policy \<le> policy_limit (model_output_policy out) \<and>
     (byte_len shown \<le> output_budget out \<or> byte_budget policy = 0)"
proof -
  obtain first where first: "truncated_output_with_policy out (model_output_policy out) = Some first"
    using truncated_output_total by blast
  from shrink_output_returns [OF this, of "output_budget out"] first show ?thesis
    by (auto simp: response_text_def Let_def)
qed

text \<open>C36. The response to a command is always produced: the loop that shrinks its output ends, with the output
  that some policy no larger than the first gives, and that output fits what the header leaves of the budget
  unless the policy has nothing left to take away.\<close>

theorem response_text_returns:
  "\<exists>policy shown. response_text out = Some (response_header out @ [LF] @ shown) \<and>
     truncated_output_with_policy out policy = Some shown \<and>
     policy_limit policy \<le> policy_limit (model_output_policy out) \<and>
     (byte_len shown \<le> output_budget out \<or> byte_budget policy = 0)"
  by (rule response_text_shape)

lemma truncate_text_fits:
  assumes "byte_len t \<le> byte_budget policy"
  shows "truncate_text t policy = Some t"
proof (cases "t = []")
  case False
  then have pos: "0 < byte_budget policy" using assms by (metis byte_len_0(2) less_le_trans)
  show ?thesis
  proof (cases policy)
    case (Bytes n)
    with assms pos show ?thesis by (simp add: truncate_middle_chars_def truncate_fits)
  next
    case (Tokens n)
    have "0 < n" using pos Tokens byte_budget_0 [of policy] by simp
    with assms Tokens show ?thesis by (simp add: truncate_middle_with_token_budget_def)
  qed
qed (cases policy; simp add: truncate_middle_chars_def truncate_fits truncate_middle_with_token_budget_def)

lemma response_text_fits:
  assumes ok: "exec_output_ok out"
    and room: "byte_len (response_header out) + 159 \<le> byte_budget (scale_policy SERIALIZATION_ALLOWANCE (output_policy out))"
  shows "\<exists>t. response_text out = Some t \<and>
    byte_len t \<le> byte_budget (scale_policy SERIALIZATION_ALLOWANCE (output_policy out))"
proof -
  let ?budget = "byte_budget (scale_policy SERIALIZATION_ALLOWANCE (output_policy out))"
  obtain policy shown where s: "response_text out = Some (response_header out @ [LF] @ shown)"
    "truncated_output_with_policy out policy = Some shown"
    "byte_len shown \<le> output_budget out \<or> byte_budget policy = 0"
    using response_text_shape [of out] by blast
  have budget: "output_budget out \<le> ?budget - (byte_len (response_header out) + 1) \<or> usize_max \<le> byte_len (response_header out)"
    by (auto simp: output_budget_def saturating_add_def min_def)
  have "?budget \<le> usize_max" by (rule scaled_budget_max)
  with room budget have "output_budget out \<le> ?budget - (byte_len (response_header out) + 1)" by linarith
  with s(3) exhausted_output_bound [OF ok _ s(2)] room have "byte_len (response_header out) + 1 + byte_len shown \<le> ?budget"
    by linarith
  with s(1) show ?thesis by (simp add: notice_lengths)
qed

end
