(* ===== verification/Context_Fragments.thy ===== *)
theory Context_Fragments
  imports Tool_Response
begin

text \<open>
  Context that the program injects into a conversation as messages, and how it recognizes it later:
  the trait \<^verbatim>\<open>ContextualUserFragment\<close> of \<^verbatim>\<open>codex-rs/context-fragments/src\<close>, its
  implementations in \<^verbatim>\<open>codex-rs/core/src/context\<close>, and the matchers of
  \<^verbatim>\<open>contextual_user_message.rs\<close> and \<^verbatim>\<open>event_mapping.rs\<close>. The XML parser of hook prompts, the
  rendering of JSON and the body of the environment context are parameters.
\<close>

section \<open>Matching markers\<close>

definition eq_ignore_ascii_case :: "ustr \<Rightarrow> ustr \<Rightarrow> bool" where
  "eq_ignore_ascii_case s t \<longleftrightarrow> to_ascii_lowercase s = to_ascii_lowercase t"

text \<open>\<open>s.get(..n)\<close> and \<open>s.get(n..)\<close>.\<close>

definition get_to :: "usize \<Rightarrow> ustr \<Rightarrow> ustr option" where
  "get_to n s = map_option fst (split_at_byte n s)"

definition get_from :: "usize \<Rightarrow> ustr \<Rightarrow> ustr option" where
  "get_from n s = map_option snd (split_at_byte n s)"

abbreviation is_some_and :: "'a option \<Rightarrow> ('a \<Rightarrow> bool) \<Rightarrow> bool" where
  "is_some_and x p \<equiv> (case x of None \<Rightarrow> False | Some y \<Rightarrow> p y)"

definition matches_marked_text :: "ustr \<Rightarrow> ustr \<Rightarrow> ustr \<Rightarrow> bool" where
  "matches_marked_text start_marker end_marker t =
     (if start_marker = [] \<or> end_marker = [] then False
      else
        (let trimmed = trim_start t;
             starts_with_marker =
               is_some_and (get_to (byte_len start_marker) trimmed) (\<lambda>c. eq_ignore_ascii_case c start_marker);
             trimmed = trim_end trimmed;
             ends_with_marker =
               is_some_and (get_from (byte_len trimmed - byte_len end_marker) trimmed)
                 (\<lambda>c. eq_ignore_ascii_case c end_marker)
         in starts_with_marker \<and> ends_with_marker))"

definition render_marked :: "ustr \<Rightarrow> ustr \<Rightarrow> ustr \<Rightarrow> ustr" where
  "render_marked start_marker end_marker body =
     (if start_marker = [] \<and> end_marker = [] then body else start_marker @ body @ end_marker)"

text \<open>\<open>s.split_once(sep)\<close> for a string.\<close>

fun split_once_str :: "ustr \<Rightarrow> ustr \<Rightarrow> (ustr \<times> ustr) option" where
  "split_once_str sep s =
     (case strip_prefix sep s of
        Some r \<Rightarrow> Some ([], r)
      | None \<Rightarrow>
          (case s of
             [] \<Rightarrow> None
           | c # cs \<Rightarrow> map_option (\<lambda>(a, b). (c # a, b)) (split_once_str sep cs)))"

declare split_once_str.simps [simp del]

section \<open>The fragments\<close>

datatype 's user_fragment =
    UserInstructions "ustr option" ustr
  | EnvironmentsState ustr
  | AdditionalContext ustr ustr
  | SkillInstructions ustr ustr ustr "ustr option"
  | UserShellCommand ustr int nat ustr
  | TurnAborted ustr
  | SubagentNotification ustr 's
  | InternalModelContext ustr ustr
  | RecommendedPlugins "(ustr \<times> ustr) list"

definition MAX_RECOMMENDED_PLUGINS :: usize where
  "MAX_RECOMMENDED_PLUGINS = 50"

definition recommended_from_plugins :: "(ustr \<times> ustr) list \<Rightarrow> 's user_fragment option" where
  "recommended_from_plugins plugins =
     (if plugins = [] then None else Some (RecommendedPlugins (take MAX_RECOMMENDED_PLUGINS plugins)))"

definition MAX_ADDITIONAL_CONTEXT_VALUE_TOKENS :: usize where
  "MAX_ADDITIONAL_CONTEXT_VALUE_TOKENS = 1000"

definition additional_context_body :: "ustr \<Rightarrow> ustr \<Rightarrow> ustr option" where
  "additional_context_body key v =
     map_option (\<lambda>(v, _). key @ str ''>'' @ v @ str ''</external_'' @ key)
       (truncate_middle_with_token_budget v MAX_ADDITIONAL_CONTEXT_VALUE_TOKENS)"

definition additional_context_developer_body :: "ustr \<Rightarrow> ustr \<Rightarrow> ustr option" where
  "additional_context_developer_body key v =
     map_option (\<lambda>(v, _). str ''<'' @ key @ str ''>'' @ v @ str ''</'' @ key @ str ''>'')
       (truncate_middle_with_token_budget v MAX_ADDITIONAL_CONTEXT_VALUE_TOKENS)"

fun type_markers :: "'s user_fragment \<Rightarrow> ustr \<times> ustr" where
  "type_markers (UserInstructions _ _) = (str ''# AGENTS.md instructions'', str ''</INSTRUCTIONS>'')"
| "type_markers (EnvironmentsState _) = (str ''<environment_context>'', str ''</environment_context>'')"
| "type_markers (AdditionalContext _ _) = (str ''<external_'', str ''>'')"
| "type_markers (SkillInstructions _ _ _ _) = (str ''<skill>'', str ''</skill>'')"
| "type_markers (UserShellCommand _ _ _ _) = (str ''<user_shell_command>'', str ''</user_shell_command>'')"
| "type_markers (TurnAborted _) = (str ''<turn_aborted>'', str ''</turn_aborted>'')"
| "type_markers (SubagentNotification _ _) = (str ''<subagent_notification>'', str ''</subagent_notification>'')"
| "type_markers (InternalModelContext _ _) = (str ''<codex_internal_context'', str ''</codex_internal_context>'')"
| "type_markers (RecommendedPlugins _) = (str ''<recommended_plugins>'', str ''</recommended_plugins>'')"

definition user_instructions_body :: "ustr option \<Rightarrow> ustr \<Rightarrow> ustr" where
  "user_instructions_body directory t =
     (case directory of None \<Rightarrow> [] | Some d \<Rightarrow> str '' for '' @ d) @
       [LF, LF] @ str ''<INSTRUCTIONS>'' @ [LF] @ t @ [LF]"

definition skill_body :: "ustr \<Rightarrow> ustr \<Rightarrow> ustr \<Rightarrow> ustr option \<Rightarrow> ustr" where
  "skill_body name path contents resource_access =
     [LF] @ str ''<name>'' @ name @ str ''</name>'' @ [LF] @ str ''<path>'' @ path @ str ''</path>'' @
       (case resource_access of
          None \<Rightarrow> []
        | Some m \<Rightarrow> [LF] @ str ''<resource_access>'' @ m @ str ''</resource_access>'') @
       [LF] @ contents @ [LF]"

definition user_shell_command_body :: "ustr \<Rightarrow> int \<Rightarrow> nat \<Rightarrow> ustr \<Rightarrow> ustr" where
  "user_shell_command_body command code duration shown =
     [LF] @ str ''<command>'' @ [LF] @ command @ [LF] @ str ''</command>'' @ [LF] @ str ''<result>'' @ [LF] @
       str ''Exit code: '' @ int_str code @ [LF] @ str ''Duration: '' @ format_f64_4 duration @ str '' seconds'' @ [LF] @
       str ''Output:'' @ [LF] @ shown @ [LF] @ str ''</result>'' @ [LF]"

definition internal_context_body :: "ustr \<Rightarrow> ustr \<Rightarrow> ustr" where
  "internal_context_body source body =
     str '' source='' @ [34] @ source @ [34] @ str ''>'' @ [LF] @ body @ [LF]"

definition recommended_plugins_body :: "(ustr \<times> ustr) list \<Rightarrow> ustr" where
  "recommended_plugins_body plugins =
     [LF] @ str ''Here is a list of plugins that are available but not installed.'' @ [LF, LF] @
       join [LF] (map (\<lambda>(name, plugin_id). str ''- '' @ name @ str '' ('' @ plugin_id @ str '')'') plugins) @ [LF]"

text \<open>The body of a fragment; \<open>None\<close> is a panic. \<open>status_json\<close> renders the notification of an agent.\<close>

fun fragment_body :: "(ustr \<Rightarrow> 's \<Rightarrow> ustr) \<Rightarrow> 's user_fragment \<Rightarrow> ustr option" where
  "fragment_body status_json (UserInstructions directory t) = Some (user_instructions_body directory t)"
| "fragment_body status_json (EnvironmentsState body) = Some body"
| "fragment_body status_json (AdditionalContext key v) = additional_context_body key v"
| "fragment_body status_json (SkillInstructions name path contents resource_access) =
     Some (skill_body name path contents resource_access)"
| "fragment_body status_json (UserShellCommand command code duration shown) =
     Some (user_shell_command_body command code duration shown)"
| "fragment_body status_json (TurnAborted guidance) = Some ([LF] @ guidance @ [LF])"
| "fragment_body status_json (SubagentNotification agent_reference status) =
     Some ([LF] @ status_json agent_reference status @ [LF])"
| "fragment_body status_json (InternalModelContext source body) = Some (internal_context_body source body)"
| "fragment_body status_json (RecommendedPlugins plugins) = Some (recommended_plugins_body plugins)"

definition render_fragment :: "(ustr \<Rightarrow> 's \<Rightarrow> ustr) \<Rightarrow> 's user_fragment \<Rightarrow> ustr option" where
  "render_fragment status_json f =
     (case type_markers f of (start_marker, end_marker) \<Rightarrow>
        map_option (render_marked start_marker end_marker) (fragment_body status_json f))"

fun content_kind :: "'s user_fragment \<Rightarrow> ustr" where
  "content_kind (UserInstructions _ _) = str ''agents_md.instructions''"
| "content_kind (EnvironmentsState _) = str ''environments.environment_context''"
| "content_kind (AdditionalContext key _) = str ''additional_content.'' @ key"
| "content_kind (SkillInstructions _ _ _ _) = str ''skills.selected_skill_instructions''"
| "content_kind (UserShellCommand _ _ _ _) = str ''shell.user_command''"
| "content_kind (TurnAborted _) = str ''generic.turn_aborted''"
| "content_kind (SubagentNotification _ _) = str ''multi_agent.subagent_notification''"
| "content_kind (InternalModelContext source _) = source @ str ''.internal_context''"
| "content_kind (RecommendedPlugins _) = str ''plugins.recommendations''"

text \<open>\<^verbatim>\<open>ResponseItem::from(render_fragment())\<close>.\<close>

definition fragment_item :: "(ustr \<Rightarrow> 's \<Rightarrow> ustr) \<Rightarrow> 's user_fragment \<Rightarrow> 'j response_item option" where
  "fragment_item status_json f =
     map_option (\<lambda>t. Message None (str ''user'') [MessageInputText t] None
       (Some (passthrough_default\<lparr>content_item_kinds := Some [content_kind f]\<rparr>)))
       (render_fragment status_json f)"

section \<open>The matchers\<close>

definition is_ascii_lowercase :: "uchar \<Rightarrow> bool" where
  "is_ascii_lowercase c \<longleftrightarrow> 97 \<le> c \<and> c \<le> 122"

definition is_valid_source :: "ustr \<Rightarrow> bool" where
  "is_valid_source source =
     (case source of
        [] \<Rightarrow> False
      | c # cs \<Rightarrow>
          is_ascii_lowercase c \<and>
          list_all (\<lambda>c. is_ascii_lowercase c \<or> 48 \<le> c \<and> c \<le> 57 \<or> c = 95) cs)"

definition matches_legacy_goal_context :: "ustr \<Rightarrow> bool" where
  "matches_legacy_goal_context t \<longleftrightarrow>
     starts_with (str ''<goal_context>'') t \<and> ends_with (str ''</goal_context>'') t"

definition internal_context_matches :: "ustr \<Rightarrow> bool" where
  "internal_context_matches t =
     (let trimmed = trim t in
      if matches_legacy_goal_context trimmed then True
      else
        (case Option.bind (strip_prefix (str ''<codex_internal_context'') trimmed)
            (\<lambda>r. Option.bind (strip_prefix (str '' source='' @ [34]) r) (split_once_str [34, 62])) of
           None \<Rightarrow> False
         | Some (source, body_and_close) \<Rightarrow>
             is_valid_source source \<and> ends_with (str ''</codex_internal_context>'') body_and_close))"

definition additional_context_matches :: "ustr \<Rightarrow> bool" where
  "additional_context_matches t =
     (case Option.bind (strip_prefix (str ''<external_'') (trim t)) (split_once_str (str ''>'')) of
        None \<Rightarrow> False
      | Some (key, value_and_close) \<Rightarrow> ends_with (str ''</external_'' @ key @ str ''>'') value_and_close)"

definition process_limit_warning_matches :: "ustr \<Rightarrow> bool" where
  "process_limit_warning_matches t =
     starts_with (str ''Warning: The maximum number of unified exec processes you can keep open is'') (trim t)"

definition apply_patch_warning_matches :: "ustr \<Rightarrow> bool" where
  "apply_patch_warning_matches t \<longleftrightarrow>
     starts_with (str ''Warning: apply_patch was requested via '') (trim t) \<and>
     ends_with (str ''Use the apply_patch tool instead of exec_command.'') (trim t)"

definition model_mismatch_warning_matches :: "ustr \<Rightarrow> bool" where
  "model_mismatch_warning_matches t =
     starts_with (str ''Warning: Your account was flagged for potentially high-risk cyber activity'') (trim t)"

definition CONTEXTUAL_USER_FRAGMENT_MATCHERS :: "(ustr \<Rightarrow> bool) list" where
  "CONTEXTUAL_USER_FRAGMENT_MATCHERS =
     [matches_marked_text (str ''# AGENTS.md instructions'') (str ''</INSTRUCTIONS>''),
      matches_marked_text (str ''<environment_context>'') (str ''</environment_context>''),
      additional_context_matches,
      matches_marked_text (str ''<skill>'') (str ''</skill>''),
      matches_marked_text (str ''<user_shell_command>'') (str ''</user_shell_command>''),
      matches_marked_text (str ''<turn_aborted>'') (str ''</turn_aborted>''),
      matches_marked_text (str ''<subagent_notification>'') (str ''</subagent_notification>''),
      internal_context_matches,
      matches_marked_text (str ''<recommended_plugins>'') (str ''</recommended_plugins>''),
      process_limit_warning_matches,
      apply_patch_warning_matches,
      model_mismatch_warning_matches]"

definition is_standard_contextual_user_text :: "ustr \<Rightarrow> bool" where
  "is_standard_contextual_user_text t = list_ex (\<lambda>matches_text. matches_text t) CONTEXTUAL_USER_FRAGMENT_MATCHERS"

text \<open>\<open>from_xml\<close> is the XML parser of hook prompts: the text and the id of the run.\<close>

definition parse_hook_prompt_fragment :: "(ustr \<Rightarrow> (ustr \<times> ustr) option) \<Rightarrow> ustr \<Rightarrow> (ustr \<times> ustr) option" where
  "parse_hook_prompt_fragment from_xml t =
     (case from_xml (trim t) of
        None \<Rightarrow> None
      | Some (t, hook_run_id) \<Rightarrow> if trim hook_run_id = [] then None else Some (t, hook_run_id))"

fun is_contextual_user_fragment :: "(ustr \<Rightarrow> (ustr \<times> ustr) option) \<Rightarrow> message_content \<Rightarrow> bool" where
  "is_contextual_user_fragment from_xml (MessageInputText t) \<longleftrightarrow>
     parse_hook_prompt_fragment from_xml t \<noteq> None \<or> is_standard_contextual_user_text t"
| "is_contextual_user_fragment from_xml _ \<longleftrightarrow> False"

definition is_contextual_user_message_content ::
  "(ustr \<Rightarrow> (ustr \<times> ustr) option) \<Rightarrow> message_content list \<Rightarrow> bool" where
  "is_contextual_user_message_content from_xml message = list_ex (is_contextual_user_fragment from_xml) message"

fun hook_fragments ::
  "(ustr \<Rightarrow> (ustr \<times> ustr) option) \<Rightarrow> message_content list \<Rightarrow> (ustr \<times> ustr) list option" where
  "hook_fragments from_xml [] = Some []"
| "hook_fragments from_xml (MessageInputText t # content) =
     (case parse_hook_prompt_fragment from_xml t of
        Some f \<Rightarrow> map_option (\<lambda>fs. f # fs) (hook_fragments from_xml content)
      | None \<Rightarrow> if is_standard_contextual_user_text t then hook_fragments from_xml content else None)"
| "hook_fragments from_xml (_ # content) = None"

definition parse_visible_hook_prompt_message ::
  "(ustr \<Rightarrow> (ustr \<times> ustr) option) \<Rightarrow> message_content list \<Rightarrow> (ustr \<times> ustr) list option" where
  "parse_visible_hook_prompt_message from_xml content =
     (case hook_fragments from_xml content of
        None \<Rightarrow> None
      | Some fragments \<Rightarrow> if fragments = [] then None else Some fragments)"

section \<open>Developer context\<close>

definition CONTEXTUAL_DEVELOPER_PREFIXES :: "ustr list" where
  "CONTEXTUAL_DEVELOPER_PREFIXES =
     [str ''<permissions instructions>'', str ''Approved command prefix saved:'', str ''<model_switch>'',
      str ''<managed_developer_instructions>'', str ''<persistent_mode>'', str ''<apps_instructions>'',
      str ''<collaboration_mode>'', str ''<multi_agent_role>'', str ''<multi_agent_mode>'',
      str ''<environments_instructions>'', str ''<git_attribution>'', str ''<plugins_instructions>'',
      str ''<realtime_conversation>'', str ''<skills_instructions>'', str ''<tools>'', str ''<personality_spec>'',
      str ''<token_budget>'', str ''<context_window>'', str ''<context_window_guidance>'', str ''<rollout_budget>'']"

fun is_contextual_dev_fragment :: "message_content \<Rightarrow> bool" where
  "is_contextual_dev_fragment (MessageInputText t) =
     list_ex (\<lambda>p. is_some_and (get_to (byte_len p) (trim_start t)) (\<lambda>candidate. eq_ignore_ascii_case candidate p))
       CONTEXTUAL_DEVELOPER_PREFIXES"
| "is_contextual_dev_fragment _ = False"

definition is_contextual_dev_message_content :: "message_content list \<Rightarrow> bool" where
  "is_contextual_dev_message_content message = list_ex is_contextual_dev_fragment message"

definition has_non_contextual_dev_message_content :: "message_content list \<Rightarrow> bool" where
  "has_non_contextual_dev_message_content message = list_ex (\<lambda>c. \<not> is_contextual_dev_fragment c) message"

definition model_switch_matches :: "ustr \<Rightarrow> bool" where
  "model_switch_matches = matches_marked_text (str ''<model_switch>'') (str ''</model_switch>'')"

definition persistent_mode_matches :: "ustr \<Rightarrow> bool" where
  "persistent_mode_matches = matches_marked_text (str ''<persistent_mode>'') (str ''</persistent_mode>'')"

section \<open>Context supplied by the client\<close>

datatype additional_kind = Untrusted | Application

record additional_entry =
  entry_value :: ustr
  entry_kind :: additional_kind

definition developer_context_item :: "ustr \<Rightarrow> ustr \<Rightarrow> 'j response_item option" where
  "developer_context_item key v =
     map_option (\<lambda>t. Message None (str ''developer'') [MessageInputText t] None
       (Some (passthrough_default\<lparr>content_item_kinds := Some [str ''additional_content.'' @ key]\<rparr>)))
       (additional_context_developer_body key v)"

definition additional_context_item :: "(ustr \<Rightarrow> 's \<Rightarrow> ustr) \<Rightarrow> ustr \<times> additional_entry \<Rightarrow> 'j response_item option" where
  "additional_context_item status_json entry =
     (case entry of (key, e) \<Rightarrow>
        (case entry_kind e of
           Untrusted \<Rightarrow> fragment_item status_json (AdditionalContext key (entry_value e))
         | Application \<Rightarrow> developer_context_item key (entry_value e)))"

text \<open>The store is the entries of a \<^verbatim>\<open>BTreeMap\<close> in the order of its keys; merging returns the items for
  what changed and the new store.\<close>

definition merge_additional_context ::
  "(ustr \<Rightarrow> 's \<Rightarrow> ustr) \<Rightarrow> (ustr \<times> additional_entry) list \<Rightarrow> (ustr \<times> additional_entry) list \<Rightarrow>
     ('j response_item option list \<times> (ustr \<times> additional_entry) list)" where
  "merge_additional_context status_json stored values =
     (map (additional_context_item status_json) (filter (\<lambda>(key, e). map_of stored key \<noteq> Some e) values), values)"

section \<open>Messages that carry the user's authority\<close>

definition authorization_kind :: "ustr \<Rightarrow> bool" where
  "authorization_kind kind \<longleftrightarrow>
     starts_with (str ''user.'') kind \<or> kind = [] \<or> kind = str ''unknown'' \<or>
     kind = str ''images.preparation_error'' \<or> kind = str ''images.unsupported'' \<or> kind = str ''audio.unsupported''"

fun is_user_authorization_message :: "'j response_item \<Rightarrow> bool" where
  "is_user_authorization_message (Message _ role content _ p) \<longleftrightarrow>
     role = str ''user'' \<and>
     (case Option.bind p content_item_kinds of
        None \<Rightarrow> True
      | Some kinds \<Rightarrow> kinds = [] \<or> length kinds \<noteq> length content \<or> list_ex authorization_kind kinds)"
| "is_user_authorization_message _ \<longleftrightarrow> False"

section \<open>What is rendered is recognized\<close>

lemma get_to_append: "byte_len a = n \<Longrightarrow> get_to n (a @ b) = Some a"
  using split_at_byte_len [of a b] by (simp add: get_to_def)

lemma get_from_append: "get_from (byte_len (a @ b) - byte_len b) (a @ b) = Some b"
  using split_at_byte_len [of a b] by (simp add: get_from_def)

lemma eq_ignore_ascii_case_refl [simp]: "eq_ignore_ascii_case s s"
  by (simp add: eq_ignore_ascii_case_def)

lemma trim_start_id: "s \<noteq> [] \<Longrightarrow> \<not> is_whitespace (hd s) \<Longrightarrow> trim_start s = s"
  by (cases s) (simp_all add: trim_start_def)

lemma trim_id: "s \<noteq> [] \<Longrightarrow> \<not> is_whitespace (hd s) \<Longrightarrow> \<not> is_whitespace (last s) \<Longrightarrow> trim s = s"
  by (simp add: trim_def trim_start_id trim_end_eq_self)

text \<open>A kind of fragment promises that its matcher accepts what it renders.\<close>

locale contextual_fragment =
  fixes render :: "ustr \<Rightarrow> ustr" and matches_text :: "ustr \<Rightarrow> bool"
  assumes recognized: "matches_text (render body)"
begin

lemma rendered_in_matchers: "matches_text \<in> set matchers \<Longrightarrow> list_ex (\<lambda>m. m (render body)) matchers"
  using recognized by (auto simp: list_ex_iff)

end

locale marked_fragment =
  fixes start_marker end_marker :: ustr
  assumes start_marker: "start_marker \<noteq> []" "\<not> is_whitespace (hd start_marker)"
    and end_marker: "end_marker \<noteq> []" "\<not> is_whitespace (last end_marker)"
begin

lemma rendered_matches: "matches_marked_text start_marker end_marker (render_marked start_marker end_marker body)"
proof -
  let ?t = "start_marker @ body @ end_marker"
  have "trim_start ?t = ?t" using start_marker by (simp add: trim_start_id)
  moreover have "trim_end ?t = ?t" using end_marker by (simp add: trim_end_eq_self)
  moreover have "get_to (byte_len start_marker) ?t = Some start_marker" by (simp add: get_to_append)
  moreover have "get_from (byte_len ?t - byte_len end_marker) ?t = Some end_marker"
    using get_from_append [of "start_marker @ body" end_marker] by simp
  ultimately show ?thesis using start_marker(1) end_marker(1) by (simp add: matches_marked_text_def render_marked_def)
qed

end

sublocale marked_fragment \<subseteq> contextual_fragment "render_marked start_marker end_marker" "matches_marked_text start_marker end_marker"
  by unfold_locales (rule rendered_matches)

interpretation user_instructions: marked_fragment "str ''# AGENTS.md instructions''" "str ''</INSTRUCTIONS>''"
  by unfold_locales code_simp+

interpretation environments: marked_fragment "str ''<environment_context>''" "str ''</environment_context>''"
  by unfold_locales code_simp+

interpretation skills: marked_fragment "str ''<skill>''" "str ''</skill>''"
  by unfold_locales code_simp+

interpretation shell_commands: marked_fragment "str ''<user_shell_command>''" "str ''</user_shell_command>''"
  by unfold_locales code_simp+

interpretation aborted_turns: marked_fragment "str ''<turn_aborted>''" "str ''</turn_aborted>''"
  by unfold_locales code_simp+

interpretation notifications: marked_fragment "str ''<subagent_notification>''" "str ''</subagent_notification>''"
  by unfold_locales code_simp+

interpretation recommended_plugins: marked_fragment "str ''<recommended_plugins>''" "str ''</recommended_plugins>''"
  by unfold_locales code_simp+

interpretation model_switches: marked_fragment "str ''<model_switch>''" "str ''</model_switch>''"
  by unfold_locales code_simp+

interpretation persistent_modes: marked_fragment "str ''<persistent_mode>''" "str ''</persistent_mode>''"
  by unfold_locales code_simp+

lemma split_once_str_first: "c \<notin> set a \<Longrightarrow> split_once_str (c # sep) (a @ c # sep @ b) = Some (a, b)"
proof (induction a)
  case Nil
  show ?case by (subst split_once_str.simps) simp
next
  case (Cons x a)
  then have "strip_prefix (c # sep) (x # a @ c # sep @ b) = None" by simp
  with Cons show ?case by (subst split_once_str.simps) simp
qed

lemma internal_context_recognized:
  assumes "is_valid_source source"
  shows "internal_context_matches
    (str ''<codex_internal_context'' @ (str '' source='' @ [34] @ source @ [34] @ str ''>'' @ [LF] @ body @ [LF]) @
     str ''</codex_internal_context>'')"
proof -
  let ?close = "str ''</codex_internal_context>''"
  let ?rest = "source @ 34 # [62] @ ([LF] @ body @ [LF] @ ?close)"
  let ?t = "str ''<codex_internal_context'' @ (str '' source='' @ [34] @ source @ [34] @ str ''>'' @ [LF] @ body @ [LF]) @ ?close"
  have gt: "str ''>'' = [62]" by code_simp
  have hd: "str ''<codex_internal_context'' \<noteq> []" "\<not> is_whitespace (hd (str ''<codex_internal_context''))"
    by code_simp+
  have last: "?close \<noteq> []" "\<not> is_whitespace (last ?close)" by code_simp+
  have quote: "34 \<notin> set source"
    using assms by (auto simp: is_valid_source_def is_ascii_lowercase_def list_all_iff split: list.splits)
  have "trim ?t = ?t" using hd last by (intro trim_id) simp_all
  moreover have "?t = str ''<codex_internal_context'' @ (str '' source='' @ [34]) @ ?rest" by (simp add: gt)
  moreover have "split_once_str [34, 62] ?rest = Some (source, [LF] @ body @ [LF] @ ?close)"
    using split_once_str_first [OF quote, of "[62]" "[LF] @ body @ [LF] @ ?close"] by simp
  moreover have "ends_with ?close ([LF] @ body @ [LF] @ ?close)"
    unfolding ends_with_iff by (rule exI [of _ "[LF] @ body @ [LF]"]) simp
  ultimately show ?thesis
    using assms unfolding internal_context_matches_def
    by (simp only: Let_def strip_prefix_append bind.bind_lunit option.case prod.case) simp
qed

lemma additional_context_recognized:
  assumes "62 \<notin> set key"
  shows "additional_context_matches
    (str ''<external_'' @ (key @ str ''>'' @ v @ str ''</external_'' @ key) @ str ''>'')"
proof -
  let ?t = "str ''<external_'' @ (key @ str ''>'' @ v @ str ''</external_'' @ key) @ str ''>''"
  let ?close = "str ''</external_'' @ key @ str ''>''"
  have gt: "str ''>'' = [62]" "\<not> is_whitespace 62" by code_simp+
  have hd: "str ''<external_'' \<noteq> []" "\<not> is_whitespace (hd (str ''<external_''))" by code_simp+
  have "trim ?t = ?t" using hd gt by (intro trim_id) simp_all
  moreover have "?t = str ''<external_'' @ (key @ 62 # [] @ (v @ ?close))" by (simp add: gt)
  moreover have "split_once_str (str ''>'') (key @ 62 # [] @ (v @ ?close)) = Some (key, v @ ?close)"
    unfolding gt(1) by (rule split_once_str_first [OF assms])
  moreover have "ends_with ?close (v @ ?close)" unfolding ends_with_iff by (rule exI [of _ v]) simp
  ultimately show ?thesis
    unfolding additional_context_matches_def
    by (simp only: strip_prefix_append bind.bind_lunit option.case prod.case)
qed

text \<open>The labels and keys that the rendering relies on: an internal source is checked when it is made, a key
  must not close the tag it stands in.\<close>

fun fragment_ok :: "'s user_fragment \<Rightarrow> bool" where
  "fragment_ok (InternalModelContext source _) = is_valid_source source"
| "fragment_ok (AdditionalContext key _) = (62 \<notin> set key)"
| "fragment_ok _ = True"

lemma in_matchers:
  "matches_text \<in> set CONTEXTUAL_USER_FRAGMENT_MATCHERS \<Longrightarrow> matches_text t \<Longrightarrow> is_standard_contextual_user_text t"
  by (auto simp: is_standard_contextual_user_text_def list_ex_iff)

lemma marked_matchers:
  "matches_marked_text (str ''# AGENTS.md instructions'') (str ''</INSTRUCTIONS>'') \<in> set CONTEXTUAL_USER_FRAGMENT_MATCHERS"
  "matches_marked_text (str ''<environment_context>'') (str ''</environment_context>'') \<in> set CONTEXTUAL_USER_FRAGMENT_MATCHERS"
  "matches_marked_text (str ''<skill>'') (str ''</skill>'') \<in> set CONTEXTUAL_USER_FRAGMENT_MATCHERS"
  "matches_marked_text (str ''<user_shell_command>'') (str ''</user_shell_command>'') \<in> set CONTEXTUAL_USER_FRAGMENT_MATCHERS"
  "matches_marked_text (str ''<turn_aborted>'') (str ''</turn_aborted>'') \<in> set CONTEXTUAL_USER_FRAGMENT_MATCHERS"
  "matches_marked_text (str ''<subagent_notification>'') (str ''</subagent_notification>'') \<in> set CONTEXTUAL_USER_FRAGMENT_MATCHERS"
  "matches_marked_text (str ''<recommended_plugins>'') (str ''</recommended_plugins>'') \<in> set CONTEXTUAL_USER_FRAGMENT_MATCHERS"
  by (simp_all add: CONTEXTUAL_USER_FRAGMENT_MATCHERS_def)

lemmas recognized_fragments =
  user_instructions.rendered_in_matchers [OF marked_matchers(1)]
  environments.rendered_in_matchers [OF marked_matchers(2)]
  skills.rendered_in_matchers [OF marked_matchers(3)]
  shell_commands.rendered_in_matchers [OF marked_matchers(4)]
  aborted_turns.rendered_in_matchers [OF marked_matchers(5)]
  notifications.rendered_in_matchers [OF marked_matchers(6)]
  recommended_plugins.rendered_in_matchers [OF marked_matchers(7)]

lemma render_fragment_total: "\<exists>t. render_fragment status_json f = Some t"
  using truncate_tokens_total by (cases f) (fastforce simp: render_fragment_def additional_context_body_def)+

lemma fragment_text_contextual:
  assumes "fragment_ok f" "render_fragment status_json f = Some t"
  shows "is_standard_contextual_user_text t"
proof (cases f)
  case (InternalModelContext source body)
  with assms internal_context_recognized [of source body] show ?thesis
    by (intro in_matchers [of internal_context_matches])
      (auto simp: CONTEXTUAL_USER_FRAGMENT_MATCHERS_def render_fragment_def render_marked_def internal_context_body_def)
next
  case (AdditionalContext key v)
  with assms additional_context_recognized [of key] show ?thesis
    by (intro in_matchers [of additional_context_matches])
      (auto simp: CONTEXTUAL_USER_FRAGMENT_MATCHERS_def render_fragment_def render_marked_def additional_context_body_def)
qed (use assms in \<open>auto simp: render_fragment_def is_standard_contextual_user_text_def recognized_fragments\<close>)

text \<open>Whether an injected fragment counts as a message of the user: only its label decides.\<close>

lemma first_split: "x \<notin> set a \<Longrightarrow> x \<notin> set c \<Longrightarrow> a @ x # b = c @ x # d \<longleftrightarrow> a = c \<and> b = d"
proof (induction a arbitrary: c)
  case Nil
  then show ?case by (cases c) auto
next
  case (Cons y a)
  then show ?case by (cases c) auto
qed

lemma dotted_kinds:
  "str ''.internal_context'' = 46 # str ''internal_context''" "str ''user.'' = str ''user'' @ [46]"
  "str ''images.preparation_error'' = str ''images'' @ 46 # str ''preparation_error''"
  "str ''images.unsupported'' = str ''images'' @ 46 # str ''unsupported''"
  "str ''audio.unsupported'' = str ''audio'' @ 46 # str ''unsupported''"
  by code_simp+

lemma dotless:
  "46 \<notin> set (str ''images'')" "46 \<notin> set (str ''audio'')" "46 \<notin> set (str ''user'')" "46 \<notin> set (str ''unknown'')"
  "str ''internal_context'' \<noteq> str ''preparation_error''" "str ''internal_context'' \<noteq> str ''unsupported''"
  by code_simp+

lemma internal_kind_authorization:
  assumes "is_valid_source source"
  shows "authorization_kind (source @ str ''.internal_context'') \<longleftrightarrow> source = str ''user''"
proof -
  have dot: "46 \<notin> set source"
    using assms by (auto simp: is_valid_source_def is_ascii_lowercase_def list_all_iff split: list.splits)
  let ?kind = "source @ 46 # str ''internal_context''"
  have "?kind \<noteq> str ''unknown''"
  proof
    assume "?kind = str ''unknown''"
    then have "46 \<in> set (str ''unknown'')" by (metis in_set_conv_decomp)
    with dotless(4) show False by blast
  qed
  moreover have "starts_with (str ''user'' @ [46]) ?kind \<longleftrightarrow> source = str ''user''"
    using first_split [OF dot dotless(3)] unfolding starts_with_iff append.assoc append.simps by blast
  moreover have "?kind \<noteq> str ''images'' @ 46 # str ''preparation_error''" "?kind \<noteq> str ''images'' @ 46 # str ''unsupported''"
    "?kind \<noteq> str ''audio'' @ 46 # str ''unsupported''"
    using first_split [OF dot] dotless by blast+
  moreover have "?kind \<noteq> []" by simp
  ultimately show ?thesis unfolding authorization_kind_def dotted_kinds by blast
qed

lemma additional_kind_no_authorization: "\<not> authorization_kind (str ''additional_content.'' @ key)"
  by (auto simp: authorization_kind_def starts_with_iff str_def)

lemma fixed_kinds_no_authorization:
  "\<not> authorization_kind (str ''agents_md.instructions'')" "\<not> authorization_kind (str ''environments.environment_context'')"
  "\<not> authorization_kind (str ''skills.selected_skill_instructions'')" "\<not> authorization_kind (str ''shell.user_command'')"
  "\<not> authorization_kind (str ''generic.turn_aborted'')" "\<not> authorization_kind (str ''multi_agent.subagent_notification'')"
  "\<not> authorization_kind (str ''plugins.recommendations'')"
  by code_simp+

lemma fragment_authorization:
  assumes "fragment_ok f"
  shows "authorization_kind (content_kind f) \<longleftrightarrow> (\<exists>body. f = InternalModelContext (str ''user'') body)"
  using assms
  by (cases f) (simp_all add: fixed_kinds_no_authorization additional_kind_no_authorization internal_kind_authorization)

end
