(* ===== verification/Token_Estimates.thy ===== *)
theory Token_Estimates
  imports Context_Fragments
begin

text \<open>
  Token accounting: \<^verbatim>\<open>TokenUsage\<close> and \<^verbatim>\<open>TokenUsageInfo\<close> of \<^verbatim>\<open>codex-rs/protocol/src/protocol.rs\<close>
  and the estimates of \<^verbatim>\<open>codex-rs/core/src/context_manager/history.rs\<close>. An \<^verbatim>\<open>i64\<close> is an integer; the
  plain operators panic on overflow in a debug build and wrap in a release build.
\<close>

section \<open>Arithmetic of \<^verbatim>\<open>i64\<close>\<close>

definition i64_min :: int where
  "i64_min = - 9223372036854775808"

definition is_i64 :: "int \<Rightarrow> bool" where
  "is_i64 n \<longleftrightarrow> i64_min \<le> n \<and> n \<le> i64_max"

definition clamp_i64 :: "int \<Rightarrow> int" where
  "clamp_i64 n = max i64_min (min i64_max n)"

definition i64_saturating_add :: "int \<Rightarrow> int \<Rightarrow> int" where
  "i64_saturating_add a b = clamp_i64 (a + b)"

definition i64_saturating_sub :: "int \<Rightarrow> int \<Rightarrow> int" where
  "i64_saturating_sub a b = clamp_i64 (a - b)"

definition i64_saturating_mul :: "int \<Rightarrow> int \<Rightarrow> int" where
  "i64_saturating_mul a b = clamp_i64 (a * b)"

definition wrap_i64 :: "int \<Rightarrow> int" where
  "wrap_i64 n = (n + 9223372036854775808) mod 18446744073709551616 - 9223372036854775808"

definition i64_result :: "bool \<Rightarrow> int \<Rightarrow> int option" where
  "i64_result debug_assertions n = (if is_i64 n then Some n else if debug_assertions then None else Some (wrap_i64 n))"

definition i64_from_usize :: "usize \<Rightarrow> int" where
  "i64_from_usize n = (if int n \<le> i64_max then int n else i64_max)"

section \<open>Token usage\<close>

record 'n token_usage =
  input_tokens :: int
  cached_input_tokens :: int
  cache_write_input_tokens :: int
  output_tokens :: int
  reasoning_output_tokens :: int
  total_tokens :: int
  rollout_budget_units :: "'n option"

definition token_usage_default :: "'n token_usage" where
  "token_usage_default =
     \<lparr>input_tokens = 0, cached_input_tokens = 0, cache_write_input_tokens = 0, output_tokens = 0,
      reasoning_output_tokens = 0, total_tokens = 0, rollout_budget_units = None\<rparr>"

definition add_assign :: "bool \<Rightarrow> 'n token_usage \<Rightarrow> 'n token_usage \<Rightarrow> 'n token_usage option" where
  "add_assign dbg u v =
     (case (i64_result dbg (input_tokens u + input_tokens v),
            i64_result dbg (cached_input_tokens u + cached_input_tokens v),
            i64_result dbg (cache_write_input_tokens u + cache_write_input_tokens v),
            i64_result dbg (output_tokens u + output_tokens v),
            i64_result dbg (reasoning_output_tokens u + reasoning_output_tokens v),
            i64_result dbg (total_tokens u + total_tokens v)) of
        (Some a, Some b, Some c, Some d, Some e, Some f) \<Rightarrow>
          Some (u\<lparr>input_tokens := a, cached_input_tokens := b, cache_write_input_tokens := c, output_tokens := d,
                  reasoning_output_tokens := e, total_tokens := f\<rparr>)
      | _ \<Rightarrow> None)"

record 'n token_usage_info =
  total_token_usage :: "'n token_usage"
  last_token_usage :: "'n token_usage"
  model_context_window :: "int option"

definition append_last_usage :: "bool \<Rightarrow> 'n token_usage_info \<Rightarrow> 'n token_usage \<Rightarrow> 'n token_usage_info option" where
  "append_last_usage dbg info last_usage =
     map_option (\<lambda>total. info\<lparr>total_token_usage := total, last_token_usage := last_usage\<rparr>)
       (add_assign dbg (total_token_usage info) last_usage)"

definition new_or_append ::
  "bool \<Rightarrow> 'n token_usage_info option \<Rightarrow> 'n token_usage option \<Rightarrow> int option \<Rightarrow> 'n token_usage_info option option" where
  "new_or_append dbg info last_usage window =
     (if info = None \<and> last_usage = None then Some None
      else
        (let start = (case info of
                        Some i \<Rightarrow> i
                      | None \<Rightarrow> \<lparr>total_token_usage = token_usage_default, last_token_usage = token_usage_default,
                                 model_context_window = window\<rparr>)
         in map_option (\<lambda>i. Some (case window of None \<Rightarrow> i | Some w \<Rightarrow> i\<lparr>model_context_window := Some w\<rparr>))
              (case last_usage of None \<Rightarrow> Some start | Some l \<Rightarrow> append_last_usage dbg start l)))"

definition fill_to_context_window :: "bool \<Rightarrow> 'n token_usage_info \<Rightarrow> int \<Rightarrow> 'n token_usage_info option" where
  "fill_to_context_window dbg info context_window =
     map_option (\<lambda>difference.
       info\<lparr>model_context_window := Some context_window,
            total_token_usage := token_usage_default\<lparr>total_tokens := context_window\<rparr>,
            last_token_usage := token_usage_default\<lparr>total_tokens := max difference 0\<rparr>\<rparr>)
       (i64_result dbg (context_window - total_tokens (total_token_usage info)))"

definition full_context_window :: "bool \<Rightarrow> int \<Rightarrow> 'n token_usage_info option" where
  "full_context_window dbg context_window =
     fill_to_context_window dbg
       \<lparr>total_token_usage = token_usage_default, last_token_usage = token_usage_default,
        model_context_window = Some context_window\<rparr> context_window"

section \<open>Data URLs\<close>

definition parse_base64_data_url :: "ustr \<Rightarrow> ustr \<Rightarrow> ustr option" where
  "parse_base64_data_url url media_type_prefix =
     (if \<not> is_some_and (get_to (byte_len (str ''data:'')) url) (\<lambda>p. eq_ignore_ascii_case p (str ''data:'')) then None
      else
        (case split_once 44 url of
           None \<Rightarrow> None
         | Some (metadata, payload) \<Rightarrow>
             (case split_on 59 (drop 5 metadata) of
                [] \<Rightarrow> None
              | mime_type # parts \<Rightarrow>
                  if \<not> is_some_and (get_to (byte_len media_type_prefix) mime_type)
                      (\<lambda>p. eq_ignore_ascii_case p media_type_prefix) then None
                  else if \<not> list_ex (\<lambda>part. eq_ignore_ascii_case part (str ''base64'')) parts then None
                  else Some payload)))"

definition parse_base64_image_data_url :: "ustr \<Rightarrow> ustr option" where
  "parse_base64_image_data_url url = parse_base64_data_url url (str ''image/'')"

definition parse_base64_audio_data_url :: "ustr \<Rightarrow> ustr option" where
  "parse_base64_audio_data_url url = parse_base64_data_url url (str ''audio/'')"

section \<open>Estimates\<close>

text \<open>What the estimates ask of other code: the length of an item's JSON, the size in pixels of a decoded image,
  the tokens of decoded audio.\<close>

record 'j estimators =
  json_bytes :: "'j response_item \<Rightarrow> usize option"
  image_size :: "ustr \<Rightarrow> (nat \<times> nat) option"
  audio_tokens :: "ustr \<Rightarrow> usize"

definition RESIZED_IMAGE_BYTES_ESTIMATE :: int where
  "RESIZED_IMAGE_BYTES_ESTIMATE = 7373"

definition ORIGINAL_IMAGE_PATCH_SIZE :: int where
  "ORIGINAL_IMAGE_PATCH_SIZE = 32"

definition ORIGINAL_IMAGE_MAX_PATCHES :: usize where
  "ORIGINAL_IMAGE_MAX_PATCHES = 10000"

definition estimate_reasoning_length :: "usize \<Rightarrow> usize" where
  "estimate_reasoning_length encoded_len = saturating_mul encoded_len 3 div 4 - 650"

definition estimate_encrypted_function_output_length :: "usize \<Rightarrow> usize" where
  "estimate_encrypted_function_output_length encoded_len = (saturating_mul encoded_len 9 + 15) div 16"

definition image_patches :: "nat \<Rightarrow> int" where
  "image_patches pixels =
     i64_saturating_add (int pixels) (i64_saturating_sub ORIGINAL_IMAGE_PATCH_SIZE 1) div ORIGINAL_IMAGE_PATCH_SIZE"

definition estimate_original_image_bytes :: "'j estimators \<Rightarrow> ustr \<Rightarrow> int option" where
  "estimate_original_image_bytes env image_url =
     (case Option.bind (parse_base64_image_data_url image_url) (image_size env) of
        None \<Rightarrow> None
      | Some (width, height) \<Rightarrow>
          (let patch_count = i64_saturating_mul (image_patches width) (image_patches height);
               patch_count = (if 0 \<le> patch_count then nat patch_count else usize_max)
           in Some (i64_from_usize (approx_bytes_for_tokens (min patch_count ORIGINAL_IMAGE_MAX_PATCHES)))))"

definition estimate_image_bytes :: "'j estimators \<Rightarrow> ustr \<Rightarrow> image_detail option \<Rightarrow> int" where
  "estimate_image_bytes env image_url detail =
     (if detail = Some Original
      then (case estimate_original_image_bytes env image_url of None \<Rightarrow> RESIZED_IMAGE_BYTES_ESTIMATE | Some n \<Rightarrow> n)
      else RESIZED_IMAGE_BYTES_ESTIMATE)"

text \<open>The closures \<^verbatim>\<open>accumulate\<close> add the bytes of a payload and of its estimate to a pair.\<close>

definition accumulate :: "int \<Rightarrow> int \<Rightarrow> int \<times> int \<Rightarrow> int \<times> int" where
  "accumulate payload replacement acc =
     (i64_saturating_add (fst acc) payload, i64_saturating_add (snd acc) replacement)"

definition accumulate_image :: "'j estimators \<Rightarrow> ustr \<Rightarrow> image_detail option \<Rightarrow> int \<times> int \<Rightarrow> int \<times> int" where
  "accumulate_image env image_url detail acc =
     (case parse_base64_image_data_url image_url of
        None \<Rightarrow> acc
      | Some payload \<Rightarrow> accumulate (i64_from_usize (byte_len payload)) (estimate_image_bytes env image_url detail) acc)"

definition accumulate_audio :: "'j estimators \<Rightarrow> ustr \<Rightarrow> int \<times> int \<Rightarrow> int \<times> int" where
  "accumulate_audio env audio_url acc =
     (case parse_base64_audio_data_url audio_url of
        None \<Rightarrow> acc
      | Some payload \<Rightarrow>
          accumulate (i64_from_usize (byte_len payload))
            (i64_from_usize (approx_bytes_for_tokens (audio_tokens env audio_url))) acc)"

definition accumulate_encrypted :: "ustr \<Rightarrow> int \<times> int \<Rightarrow> int \<times> int" where
  "accumulate_encrypted content acc =
     accumulate (i64_from_usize (byte_len content))
       (i64_from_usize (estimate_encrypted_function_output_length (byte_len content))) acc"

fun message_images :: "'j estimators \<Rightarrow> message_content \<Rightarrow> int \<times> int \<Rightarrow> int \<times> int" where
  "message_images env (MessageInputImage url detail) acc = accumulate_image env url detail acc"
| "message_images env _ acc = acc"

fun output_images :: "'j estimators \<Rightarrow> content_item \<Rightarrow> int \<times> int \<Rightarrow> int \<times> int" where
  "output_images env (InputImage url detail) acc = accumulate_image env url detail acc"
| "output_images env _ acc = acc"

fun message_audio :: "'j estimators \<Rightarrow> message_content \<Rightarrow> int \<times> int \<Rightarrow> int \<times> int" where
  "message_audio env (MessageInputAudio url) acc = accumulate_audio env url acc"
| "message_audio env _ acc = acc"

fun output_audio :: "'j estimators \<Rightarrow> content_item \<Rightarrow> int \<times> int \<Rightarrow> int \<times> int" where
  "output_audio env (InputAudio url) acc = accumulate_audio env url acc"
| "output_audio env _ acc = acc"

fun output_encrypted :: "content_item \<Rightarrow> int \<times> int \<Rightarrow> int \<times> int" where
  "output_encrypted (EncryptedContent content) acc = accumulate_encrypted content acc"
| "output_encrypted _ acc = acc"

fun agent_encrypted :: "agent_content \<Rightarrow> int \<times> int \<Rightarrow> int \<times> int" where
  "agent_encrypted (AgentEncryptedContent content) acc = accumulate_encrypted content acc"
| "agent_encrypted _ acc = acc"

fun body_fold :: "(content_item \<Rightarrow> int \<times> int \<Rightarrow> int \<times> int) \<Rightarrow> output_body \<Rightarrow> int \<times> int" where
  "body_fold f (ContentItems items) = fold f items (0, 0)"
| "body_fold f (BodyText _) = (0, 0)"

fun image_data_url_estimate_adjustment :: "'j estimators \<Rightarrow> 'j response_item \<Rightarrow> int \<times> int" where
  "image_data_url_estimate_adjustment env (Message _ _ content _ _) = fold (message_images env) content (0, 0)"
| "image_data_url_estimate_adjustment env (FunctionCallOutput _ _ _ _ output _) =
     body_fold (output_images env) (payload_body output)"
| "image_data_url_estimate_adjustment env (CustomToolCallOutput _ _ _ output _) =
     body_fold (output_images env) (payload_body output)"
| "image_data_url_estimate_adjustment env _ = (0, 0)"

fun audio_data_url_estimate_adjustment :: "'j estimators \<Rightarrow> 'j response_item \<Rightarrow> int \<times> int" where
  "audio_data_url_estimate_adjustment env (Message _ _ content _ _) = fold (message_audio env) content (0, 0)"
| "audio_data_url_estimate_adjustment env (FunctionCallOutput _ _ _ _ output _) =
     body_fold (output_audio env) (payload_body output)"
| "audio_data_url_estimate_adjustment env (CustomToolCallOutput _ _ _ output _) =
     body_fold (output_audio env) (payload_body output)"
| "audio_data_url_estimate_adjustment env _ = (0, 0)"

fun encrypted_function_output_estimate_adjustment :: "'j response_item \<Rightarrow> int \<times> int" where
  "encrypted_function_output_estimate_adjustment (FunctionCallOutput _ _ _ _ output _) =
     body_fold output_encrypted (payload_body output)"
| "encrypted_function_output_estimate_adjustment (AgentMessage _ _ _ content _) = fold agent_encrypted content (0, 0)"
| "encrypted_function_output_estimate_adjustment _ = (0, 0)"

definition adjusted_json_bytes :: "'j estimators \<Rightarrow> 'j response_item \<Rightarrow> int" where
  "adjusted_json_bytes env item =
     (let raw = (case json_bytes env item of None \<Rightarrow> 0 | Some n \<Rightarrow> i64_from_usize n);
          replace = (\<lambda>(payload, replacement) raw.
            i64_saturating_add (i64_saturating_sub raw payload) replacement)
      in replace (encrypted_function_output_estimate_adjustment item)
           (replace (audio_data_url_estimate_adjustment env item)
             (replace (image_data_url_estimate_adjustment env item) raw)))"

fun estimate_response_item_model_visible_bytes :: "'j estimators \<Rightarrow> 'j response_item \<Rightarrow> int" where
  "estimate_response_item_model_visible_bytes env (Reasoning _ _ _ (Some content) _) =
     i64_from_usize (estimate_reasoning_length (byte_len content))"
| "estimate_response_item_model_visible_bytes env (Compaction _ content _) =
     i64_from_usize (estimate_reasoning_length (byte_len content))"
| "estimate_response_item_model_visible_bytes env (ContextCompaction _ (Some content) _) =
     i64_from_usize (estimate_reasoning_length (byte_len content))"
| "estimate_response_item_model_visible_bytes env item = adjusted_json_bytes env item"

definition estimate_item_token_count :: "'j estimators \<Rightarrow> 'j response_item \<Rightarrow> int" where
  "estimate_item_token_count env item =
     approx_tokens_from_byte_count_i64 (estimate_response_item_model_visible_bytes env item)"

text \<open>The sum of the estimates, saturating: \<open>fold(0i64, i64::saturating_add)\<close>.\<close>

definition estimate_items :: "'j estimators \<Rightarrow> 'j envelope list \<Rightarrow> int" where
  "estimate_items env items =
     foldl i64_saturating_add 0 (map (\<lambda>e. estimate_item_token_count env (envelope_item e)) items)"

section \<open>Bounds\<close>

lemma clamp_i64_id: "is_i64 n \<Longrightarrow> clamp_i64 n = n"
  by (simp add: clamp_i64_def is_i64_def)

lemma is_i64_clamp [simp]: "is_i64 (clamp_i64 n)"
  by (auto simp: clamp_i64_def is_i64_def i64_min_def i64_max_def)

lemma wrap_i64_range: "is_i64 (wrap_i64 n)"
proof -
  have "0 \<le> (n + 9223372036854775808) mod 18446744073709551616"
    "(n + 9223372036854775808) mod 18446744073709551616 < 18446744073709551616" by simp_all
  then show ?thesis unfolding wrap_i64_def is_i64_def i64_min_def i64_max_def by linarith
qed

lemma i64_result_release: "\<exists>m. i64_result False n = Some m \<and> is_i64 m"
  by (simp add: i64_result_def wrap_i64_range)

lemma estimate_item_bounds: "0 \<le> estimate_item_token_count env item" "estimate_item_token_count env item \<le> i64_max"
  by (simp_all add: estimate_item_token_count_def approx_tokens_from_byte_count_i64_def Let_def i64_max_def)

lemma saturating_sum_nonneg:
  "0 \<le> a \<Longrightarrow> a \<le> i64_max \<Longrightarrow> list_all (\<lambda>n. 0 \<le> n) ns \<Longrightarrow>
     foldl i64_saturating_add a ns = min i64_max (a + sum_list ns)"
proof (induction ns arbitrary: a)
  case (Cons n ns)
  then have "0 \<le> n" "list_all (\<lambda>n. 0 \<le> n) ns" by simp_all
  then have sum: "0 \<le> sum_list ns" by (simp add: list_all_iff sum_list_nonneg)
  have step: "i64_saturating_add a n = min i64_max (a + n)"
    using Cons.prems(1) \<open>0 \<le> n\<close> by (auto simp: i64_saturating_add_def clamp_i64_def i64_min_def i64_max_def)
  have "foldl i64_saturating_add a (n # ns) = min i64_max (min i64_max (a + n) + sum_list ns)"
    using Cons.IH [of "min i64_max (a + n)"] Cons.prems \<open>0 \<le> n\<close> by (simp add: step i64_max_def)
  with sum show ?case by auto
qed simp

lemma estimate_items_sum:
  "estimate_items env items =
     min i64_max (\<Sum>e\<leftarrow>items. estimate_item_token_count env (envelope_item e))"
  unfolding estimate_items_def
  by (subst saturating_sum_nonneg) (simp_all add: i64_max_def list_all_iff estimate_item_bounds)

lemma estimate_items_bounds: "0 \<le> estimate_items env items" "estimate_items env items \<le> i64_max"
proof -
  have "0 \<le> (\<Sum>e\<leftarrow>items. estimate_item_token_count env (envelope_item e))"
    by (rule sum_list_nonneg) (auto simp: estimate_item_bounds)
  then show "0 \<le> estimate_items env items" "estimate_items env items \<le> i64_max"
    by (simp_all add: estimate_items_sum i64_max_def)
qed

end
