(* ===== verification/Context_Normalize.thy ===== *)
theory Context_Normalize
  imports Response_Item
begin

text \<open>
  Preparing a conversation for the model: \<^verbatim>\<open>codex-rs/core/src/context_manager/normalize.rs\<close>. Every
  tool call gets an output, outputs without a call go, and media the model cannot read are replaced.
  The flag \<open>debug\<close> is \<^verbatim>\<open>cfg!(debug_assertions)\<close>: a debug build panics where a release build logs.
  The hash of \<^verbatim>\<open>Uuid::new_v5\<close> is the argument \<open>uuid\<close>.
\<close>

definition error_or_panic :: "bool \<Rightarrow> 'a \<Rightarrow> 'a option" where
  "error_or_panic debug k = (if debug then None else Some k)"

section \<open>Missing outputs\<close>

fun function_output_id :: "'j response_item \<Rightarrow> ustr option" where
  "function_output_id (FunctionCallOutput _ (Some call_id) _ _ _ _) = Some call_id"
| "function_output_id _ = None"

fun tool_search_output_id :: "'j response_item \<Rightarrow> ustr option" where
  "tool_search_output_id (ToolSearchOutput _ (Some call_id) _ _ _ _) = Some call_id"
| "tool_search_output_id _ = None"

fun custom_tool_output_id :: "'j response_item \<Rightarrow> ustr option" where
  "custom_tool_output_id (CustomToolCallOutput _ call_id _ _ _) = Some call_id"
| "custom_tool_output_id _ = None"

text \<open>The ids collected by a pass over the items.\<close>

definition collect_ids :: "('j response_item \<Rightarrow> ustr option) \<Rightarrow> 'j envelope list \<Rightarrow> ustr list" where
  "collect_ids f items = List.map_filter (\<lambda>e. f (envelope_item e)) items"

definition synthetic_output_id :: "(ustr \<Rightarrow> ustr) \<Rightarrow> ustr \<Rightarrow> ustr option \<Rightarrow> ustr option" where
  "synthetic_output_id uuid prefix call_item_id =
     (case call_item_id of
        None \<Rightarrow> None
      | Some source_id \<Rightarrow>
          if source_id = [] then None
          else Some (prefix @ str ''_'' @ uuid (prefix @ str '':'' @ source_id)))"

definition aborted_payload :: output_payload where
  "aborted_payload = payload_from_text (str ''aborted'')"

text \<open>The output to insert after an item, if any; \<open>None\<close> is a panic.\<close>

fun missing_output ::
  "bool \<Rightarrow> (ustr \<Rightarrow> ustr) \<Rightarrow> 'j envelope list \<Rightarrow> 'j response_item \<Rightarrow> 'j envelope option option" where
  "missing_output debug uuid items (FunctionCall i _ _ _ _ call_id _) =
     (if call_id \<in> set (collect_ids function_output_id items) then Some None
      else Some (Some (envelope_new
        (FunctionCallOutput (synthetic_output_id uuid (str ''fco'') i) (Some call_id) None None aborted_payload None))))"
| "missing_output debug uuid items (ToolSearchCall i (Some call_id) _ _ _ _) =
     (if call_id \<in> set (collect_ids tool_search_output_id items) then Some None
      else Some (Some (envelope_new
        (ToolSearchOutput (synthetic_output_id uuid (str ''tso'') i) (Some call_id) (str ''completed'')
          (str ''client'') [] None))))"
| "missing_output debug uuid items (CustomToolCall i _ call_id _ _ _ _) =
     (if call_id \<in> set (collect_ids custom_tool_output_id items) then Some None
      else error_or_panic debug (Some (envelope_new
        (CustomToolCallOutput (synthetic_output_id uuid (str ''ctco'') i) call_id None aborted_payload None))))"
| "missing_output debug uuid items (LocalShellCall i (Some call_id) _ _ _) =
     (if call_id \<in> set (collect_ids function_output_id items) then Some None
      else error_or_panic debug (Some (envelope_new
        (FunctionCallOutput (synthetic_output_id uuid (str ''fco'') i) (Some call_id) None None aborted_payload None))))"
| "missing_output debug uuid items _ = Some None"

fun missing_outputs ::
  "bool \<Rightarrow> (ustr \<Rightarrow> ustr) \<Rightarrow> 'j envelope list \<Rightarrow> nat \<Rightarrow> 'j envelope list \<Rightarrow> (nat \<times> 'j envelope) list option" where
  "missing_outputs debug uuid items idx [] = Some []"
| "missing_outputs debug uuid items idx (e # es) =
     (case missing_output debug uuid items (envelope_item e) of
        None \<Rightarrow> None
      | Some m \<Rightarrow>
          map_option (\<lambda>ms. (case m of None \<Rightarrow> ms | Some out \<Rightarrow> (idx, out) # ms))
            (missing_outputs debug uuid items (idx + 1) es))"

text \<open>\<^verbatim>\<open>Vec::insert\<close> panics beyond the end.\<close>

definition vec_insert :: "nat \<Rightarrow> 'a \<Rightarrow> 'a list \<Rightarrow> 'a list option" where
  "vec_insert i x xs = (if i \<le> length xs then Some (take i xs @ x # drop i xs) else None)"

fun insert_outputs :: "(nat \<times> 'a) list \<Rightarrow> 'a list \<Rightarrow> 'a list option" where
  "insert_outputs [] items = Some items"
| "insert_outputs ((idx, out) # ms) items =
     (case vec_insert (idx + 1) out items of None \<Rightarrow> None | Some items' \<Rightarrow> insert_outputs ms items')"

definition ensure_call_outputs_present ::
  "bool \<Rightarrow> (ustr \<Rightarrow> ustr) \<Rightarrow> 'j envelope list \<Rightarrow> 'j envelope list option" where
  "ensure_call_outputs_present debug uuid items =
     (case missing_outputs debug uuid items 0 items of
        None \<Rightarrow> None
      | Some ms \<Rightarrow> insert_outputs (rev ms) items)"

section \<open>Orphan outputs\<close>

fun function_call_id :: "'j response_item \<Rightarrow> ustr option" where
  "function_call_id (FunctionCall _ _ _ _ _ call_id _) = Some call_id"
| "function_call_id (LocalShellCall _ (Some call_id) _ _ _) = Some call_id"
| "function_call_id _ = None"

fun tool_search_call_id :: "'j response_item \<Rightarrow> ustr option" where
  "tool_search_call_id (ToolSearchCall _ (Some call_id) _ _ _ _) = Some call_id"
| "tool_search_call_id _ = None"

fun custom_tool_call_id :: "'j response_item \<Rightarrow> ustr option" where
  "custom_tool_call_id (CustomToolCall _ _ call_id _ _ _ _) = Some call_id"
| "custom_tool_call_id _ = None"

fun is_orphan :: "'j envelope list \<Rightarrow> 'j response_item \<Rightarrow> bool" where
  "is_orphan items (FunctionCallOutput _ (Some call_id) _ _ _ _) \<longleftrightarrow>
     call_id \<notin> set (collect_ids function_call_id items)"
| "is_orphan items (CustomToolCallOutput _ call_id _ _ _) \<longleftrightarrow>
     call_id \<notin> set (collect_ids custom_tool_call_id items)"
| "is_orphan items (ToolSearchOutput _ (Some call_id) _ execution _ _) \<longleftrightarrow>
     execution \<noteq> str ''server'' \<and> call_id \<notin> set (collect_ids tool_search_call_id items)"
| "is_orphan items _ \<longleftrightarrow> False"

fun orphan_positions :: "bool \<Rightarrow> 'j envelope list \<Rightarrow> nat \<Rightarrow> 'j envelope list \<Rightarrow> nat list option" where
  "orphan_positions debug items position [] = Some []"
| "orphan_positions debug items position (e # es) =
     (if is_orphan items (envelope_item e)
      then (case error_or_panic debug () of
              None \<Rightarrow> None
            | Some _ \<Rightarrow> map_option (\<lambda>ps. position # ps) (orphan_positions debug items (position + 1) es))
      else orphan_positions debug items (position + 1) es)"

text \<open>\<^verbatim>\<open>Vec::retain\<close> with a peekable iterator over the positions to drop.\<close>

fun retain_positions :: "nat list \<Rightarrow> nat \<Rightarrow> 'a list \<Rightarrow> 'a list" where
  "retain_positions ps position [] = []"
| "retain_positions ps position (x # xs) =
     (case ps of
        [] \<Rightarrow> x # retain_positions ps (position + 1) xs
      | p # ps' \<Rightarrow>
          if p = position then retain_positions ps' (position + 1) xs
          else x # retain_positions ps (position + 1) xs)"

definition remove_orphan_outputs :: "bool \<Rightarrow> 'j envelope list \<Rightarrow> 'j envelope list option" where
  "remove_orphan_outputs debug items =
     map_option (\<lambda>ps. if ps = [] then items else retain_positions ps 0 items) (orphan_positions debug items 0 items)"

section \<open>Removing the counterpart of an item\<close>

fun remove_first_matching :: "('j response_item \<Rightarrow> bool) \<Rightarrow> 'j envelope list \<Rightarrow> 'j envelope list" where
  "remove_first_matching P [] = []"
| "remove_first_matching P (e # es) = (if P (envelope_item e) then es else e # remove_first_matching P es)"

fun is_function_call_of :: "ustr \<Rightarrow> 'j response_item \<Rightarrow> bool" where
  "is_function_call_of call_id (FunctionCall _ _ _ _ _ existing _) \<longleftrightarrow> existing = call_id"
| "is_function_call_of call_id _ \<longleftrightarrow> False"

fun is_local_shell_call_of :: "ustr \<Rightarrow> 'j response_item \<Rightarrow> bool" where
  "is_local_shell_call_of call_id (LocalShellCall _ (Some existing) _ _ _) \<longleftrightarrow> existing = call_id"
| "is_local_shell_call_of call_id _ \<longleftrightarrow> False"

fun remove_corresponding_for :: "'j envelope list \<Rightarrow> 'j response_item \<Rightarrow> 'j envelope list" where
  "remove_corresponding_for items (FunctionCall _ _ _ _ _ call_id _) =
     remove_first_matching (\<lambda>i. function_output_id i = Some call_id) items"
| "remove_corresponding_for items (FunctionCallOutput _ (Some call_id) _ _ _ _) =
     (if list_ex (\<lambda>e. is_function_call_of call_id (envelope_item e)) items
      then remove_first_matching (is_function_call_of call_id) items
      else if list_ex (\<lambda>e. is_local_shell_call_of call_id (envelope_item e)) items
      then remove_first_matching (is_local_shell_call_of call_id) items
      else items)"
| "remove_corresponding_for items (ToolSearchCall _ (Some call_id) _ _ _ _) =
     remove_first_matching (\<lambda>i. tool_search_output_id i = Some call_id) items"
| "remove_corresponding_for items (ToolSearchOutput _ (Some call_id) _ _ _ _) =
     remove_first_matching (\<lambda>i. tool_search_call_id i = Some call_id) items"
| "remove_corresponding_for items (CustomToolCall _ _ call_id _ _ _ _) =
     remove_first_matching (\<lambda>i. custom_tool_output_id i = Some call_id) items"
| "remove_corresponding_for items (CustomToolCallOutput _ call_id _ _ _) =
     remove_first_matching (\<lambda>i. custom_tool_call_id i = Some call_id) items"
| "remove_corresponding_for items (LocalShellCall _ (Some call_id) _ _ _) =
     remove_first_matching (\<lambda>i. function_output_id i = Some call_id) items"
| "remove_corresponding_for items _ = items"

section \<open>Media the model does not read\<close>

datatype input_modality = ModalityText | ModalityImage | ModalityAudio

record unsupported_media =
  media_text :: ustr
  media_kind :: ustr

definition UNSUPPORTED_IMAGE :: unsupported_media where
  "UNSUPPORTED_IMAGE =
     \<lparr>media_text = str ''image content omitted because you do not support image input'',
      media_kind = str ''images.unsupported''\<rparr>"

definition UNSUPPORTED_AUDIO :: unsupported_media where
  "UNSUPPORTED_AUDIO =
     \<lparr>media_text = str ''audio content omitted because you do not support audio input'',
      media_kind = str ''audio.unsupported''\<rparr>"

text \<open>The fragment has no markers, so it renders as its text.\<close>

definition media_fragment :: "unsupported_media \<Rightarrow> message_content \<times> ustr" where
  "media_fragment m = (MessageInputText (media_text m), media_kind m)"

fun message_is_image :: "message_content \<Rightarrow> bool" where
  "message_is_image (MessageInputImage _ _) \<longleftrightarrow> True"
| "message_is_image _ \<longleftrightarrow> False"

fun message_is_audio :: "message_content \<Rightarrow> bool" where
  "message_is_audio (MessageInputAudio _) \<longleftrightarrow> True"
| "message_is_audio _ \<longleftrightarrow> False"

fun output_is_image :: "content_item \<Rightarrow> bool" where
  "output_is_image (InputImage _ _) \<longleftrightarrow> True"
| "output_is_image _ \<longleftrightarrow> False"

fun output_is_audio :: "content_item \<Rightarrow> bool" where
  "output_is_audio (InputAudio _) \<longleftrightarrow> True"
| "output_is_audio _ \<longleftrightarrow> False"

text \<open>What both functions do to a message: replace the content and write it back. For a message neither
  step can fail, and the result of the second is discarded.\<close>

definition replace_message_media ::
  "(message_content \<Rightarrow> bool) \<Rightarrow> unsupported_media \<Rightarrow> 'j response_item \<Rightarrow> 'j response_item" where
  "replace_message_media P m item =
     (case to_annotated_content item of
        None \<Rightarrow> item
      | Some (emptied, content) \<Rightarrow>
          (case set_annotated_content emptied (map (\<lambda>c. if P (fst c) then media_fragment m else c) content) of
             None \<Rightarrow> emptied
           | Some item' \<Rightarrow> item'))"

definition replace_output_media :: "(content_item \<Rightarrow> bool) \<Rightarrow> unsupported_media \<Rightarrow> output_payload \<Rightarrow> output_payload" where
  "replace_output_media P m payload =
     (case payload_body payload of
        BodyText _ \<Rightarrow> payload
      | ContentItems items \<Rightarrow>
          payload\<lparr>payload_body := ContentItems (map (\<lambda>i. if P i then InputText (media_text m) else i) items)\<rparr>)"

fun strip_image :: "'j response_item \<Rightarrow> 'j response_item" where
  "strip_image (Message a b c d p) = replace_message_media message_is_image UNSUPPORTED_IMAGE (Message a b c d p)"
| "strip_image (FunctionCallOutput a b c d payload p) =
     FunctionCallOutput a b c d (replace_output_media output_is_image UNSUPPORTED_IMAGE payload) p"
| "strip_image (CustomToolCallOutput a b c payload p) =
     CustomToolCallOutput a b c (replace_output_media output_is_image UNSUPPORTED_IMAGE payload) p"
| "strip_image (ImageGenerationCall a b c result p) = ImageGenerationCall a b c [] p"
| "strip_image item = item"

fun strip_audio :: "'j response_item \<Rightarrow> 'j response_item" where
  "strip_audio (Message a b c d p) = replace_message_media message_is_audio UNSUPPORTED_AUDIO (Message a b c d p)"
| "strip_audio (FunctionCallOutput a b c d payload p) =
     FunctionCallOutput a b c d (replace_output_media output_is_audio UNSUPPORTED_AUDIO payload) p"
| "strip_audio (CustomToolCallOutput a b c payload p) =
     CustomToolCallOutput a b c (replace_output_media output_is_audio UNSUPPORTED_AUDIO payload) p"
| "strip_audio item = item"

definition map_item :: "('j response_item \<Rightarrow> 'j response_item) \<Rightarrow> 'j envelope \<Rightarrow> 'j envelope" where
  "map_item f e = e\<lparr>envelope_item := f (envelope_item e)\<rparr>"

definition strip_images_when_unsupported :: "input_modality list \<Rightarrow> 'j envelope list \<Rightarrow> 'j envelope list" where
  "strip_images_when_unsupported modalities items =
     (if ModalityImage \<in> set modalities then items else map (map_item strip_image) items)"

definition strip_audio_when_unsupported :: "input_modality list \<Rightarrow> 'j envelope list \<Rightarrow> 'j envelope list" where
  "strip_audio_when_unsupported modalities items =
     (if ModalityAudio \<in> set modalities then items else map (map_item strip_audio) items)"

text \<open>\<^verbatim>\<open>ContextManager::normalize_history\<close>.\<close>

definition normalize_history ::
  "bool \<Rightarrow> (ustr \<Rightarrow> ustr) \<Rightarrow> input_modality list \<Rightarrow> 'j envelope list \<Rightarrow> 'j envelope list option" where
  "normalize_history debug uuid modalities items =
     (case ensure_call_outputs_present debug uuid items of
        None \<Rightarrow> None
      | Some items \<Rightarrow>
          map_option (\<lambda>items. strip_audio_when_unsupported modalities (strip_images_when_unsupported modalities items))
            (remove_orphan_outputs debug items))"

end
