(* ===== verification/Context_Normalize_Laws.thy ===== *)
theory Context_Normalize_Laws
  imports Context_Normalize
begin

text \<open>
  What normalization promises. Calls and outputs are matched by keys, a kind and a call id; a
  conversation is \<open>paired\<close> when every call has an output of its key and every output that needs one
  has a call.
\<close>

datatype call_kind = FunctionKind | ToolSearchKind | CustomKind

definition call_key :: "'j response_item \<Rightarrow> (call_kind \<times> ustr) option" where
  "call_key item =
     (case item of
        FunctionCall _ _ _ _ _ c _ \<Rightarrow> Some (FunctionKind, c)
      | LocalShellCall _ (Some c) _ _ _ \<Rightarrow> Some (FunctionKind, c)
      | ToolSearchCall _ (Some c) _ _ _ _ \<Rightarrow> Some (ToolSearchKind, c)
      | CustomToolCall _ _ c _ _ _ _ \<Rightarrow> Some (CustomKind, c)
      | _ \<Rightarrow> None)"

definition output_key :: "'j response_item \<Rightarrow> (call_kind \<times> ustr) option" where
  "output_key item =
     (case item of
        FunctionCallOutput _ (Some c) _ _ _ _ \<Rightarrow> Some (FunctionKind, c)
      | ToolSearchOutput _ (Some c) _ _ _ _ \<Rightarrow> Some (ToolSearchKind, c)
      | CustomToolCallOutput _ c _ _ _ \<Rightarrow> Some (CustomKind, c)
      | _ \<Rightarrow> None)"

text \<open>A tool search that the server ran has an output and no call.\<close>

definition server_output :: "'j response_item \<Rightarrow> bool" where
  "server_output item =
     (case item of ToolSearchOutput _ (Some _) _ execution _ _ \<Rightarrow> execution = str ''server'' | _ \<Rightarrow> False)"

definition calls :: "'j envelope list \<Rightarrow> (call_kind \<times> ustr) set" where
  "calls items = {k. \<exists>e \<in> set items. call_key (envelope_item e) = Some k}"

definition outputs :: "'j envelope list \<Rightarrow> (call_kind \<times> ustr) set" where
  "outputs items = {k. \<exists>e \<in> set items. output_key (envelope_item e) = Some k}"

definition due_outputs :: "'j envelope list \<Rightarrow> (call_kind \<times> ustr) set" where
  "due_outputs items =
     {k. \<exists>e \<in> set items. output_key (envelope_item e) = Some k \<and> \<not> server_output (envelope_item e)}"

definition paired :: "'j envelope list \<Rightarrow> bool" where
  "paired items \<longleftrightarrow> calls items \<subseteq> outputs items \<and> due_outputs items \<subseteq> calls items"

named_theorems item_keys \<open>the keys of an item by its constructor\<close>

lemmas [item_keys] = call_key_def output_key_def server_output_def

lemma set_collect_ids: "c \<in> set (collect_ids f items) \<longleftrightarrow> (\<exists>e \<in> set items. f (envelope_item e) = Some c)"
  by (force simp: collect_ids_def List.map_filter_def)

text \<open>The six passes of the code compute the keys.\<close>

lemma call_ids:
  "function_call_id item = Some c \<longleftrightarrow> call_key item = Some (FunctionKind, c)"
  "tool_search_call_id item = Some c \<longleftrightarrow> call_key item = Some (ToolSearchKind, c)"
  "custom_tool_call_id item = Some c \<longleftrightarrow> call_key item = Some (CustomKind, c)"
  by (cases item; auto simp: call_key_def split: option.splits)+

lemma output_ids:
  "function_output_id item = Some c \<longleftrightarrow> output_key item = Some (FunctionKind, c)"
  "tool_search_output_id item = Some c \<longleftrightarrow> output_key item = Some (ToolSearchKind, c)"
  "custom_tool_output_id item = Some c \<longleftrightarrow> output_key item = Some (CustomKind, c)"
  by (cases item; auto simp: output_key_def split: option.splits)+

lemma collected_keys:
  "c \<in> set (collect_ids function_call_id items) \<longleftrightarrow> (FunctionKind, c) \<in> calls items"
  "c \<in> set (collect_ids tool_search_call_id items) \<longleftrightarrow> (ToolSearchKind, c) \<in> calls items"
  "c \<in> set (collect_ids custom_tool_call_id items) \<longleftrightarrow> (CustomKind, c) \<in> calls items"
  "c \<in> set (collect_ids function_output_id items) \<longleftrightarrow> (FunctionKind, c) \<in> outputs items"
  "c \<in> set (collect_ids tool_search_output_id items) \<longleftrightarrow> (ToolSearchKind, c) \<in> outputs items"
  "c \<in> set (collect_ids custom_tool_output_id items) \<longleftrightarrow> (CustomKind, c) \<in> outputs items"
  by (simp_all add: set_collect_ids call_ids output_ids calls_def outputs_def)

lemma is_orphan_iff:
  "is_orphan items item \<longleftrightarrow>
     (\<exists>k. output_key item = Some k \<and> k \<notin> calls items) \<and> \<not> server_output item"
  by (cases item) (auto simp: item_keys collected_keys split: option.splits)

section \<open>Missing outputs\<close>

definition added_output :: "(ustr \<Rightarrow> ustr) \<Rightarrow> 'j envelope list \<Rightarrow> 'j envelope \<Rightarrow> 'j envelope list" where
  "added_output uuid items e =
     (case missing_output False uuid items (envelope_item e) of Some (Some out) \<Rightarrow> [out] | _ \<Rightarrow> [])"

lemma missing_output_release: "missing_output False uuid items item \<noteq> None"
  by (cases "(False, uuid, items, item)" rule: missing_output.cases) (auto simp: error_or_panic_def)

lemma client_not_server: "str ''client'' \<noteq> str ''server''"
  by code_simp

lemma added_output_None:
  "added_output uuid items e = [] \<longleftrightarrow> (\<forall>k. call_key (envelope_item e) = Some k \<longrightarrow> k \<in> outputs items)"
  by (cases "(False, uuid, items, envelope_item e)" rule: missing_output.cases)
    (auto simp: added_output_def error_or_panic_def call_key_def collected_keys)

lemma added_output_key:
  "out \<in> set (added_output uuid items e) \<Longrightarrow>
     output_key (envelope_item out) = call_key (envelope_item e) \<and> call_key (envelope_item e) \<noteq> None \<and>
     call_key (envelope_item out) = None \<and> \<not> server_output (envelope_item out)"
  by (cases "(False, uuid, items, envelope_item e)" rule: missing_output.cases)
    (auto simp: added_output_def error_or_panic_def item_keys envelope_new_def client_not_server split: if_splits)

lemma insert_outputs_append:
  "insert_outputs (as @ bs) items =
     (case insert_outputs as items of None \<Rightarrow> None | Some items' \<Rightarrow> insert_outputs bs items')"
  by (induction as items rule: insert_outputs.induct) (simp_all split: option.splits)

lemma missing_outputs_release:
  "\<exists>ms. missing_outputs False uuid items (length before) es = Some ms \<and>
     insert_outputs (rev ms) (before @ es) = Some (before @ concat (map (\<lambda>e. e # added_output uuid items e) es))"
proof (induction es arbitrary: before)
  case (Cons e es)
  from Cons.IH [of "before @ [e]"] obtain ms where ms:
    "missing_outputs False uuid items (Suc (length before)) es = Some ms"
    "insert_outputs (rev ms) (before @ e # es) =
      Some (before @ e # concat (map (\<lambda>e. e # added_output uuid items e) es))" by auto
  obtain m where m: "missing_output False uuid items (envelope_item e) = Some m"
    using missing_output_release by blast
  then have "added_output uuid items e = (case m of None \<Rightarrow> [] | Some out \<Rightarrow> [out])"
    by (simp add: added_output_def split: option.splits)
  with m ms show ?case
    by (cases m) (simp_all add: insert_outputs_append vec_insert_def)
qed simp

lemma ensure_call_outputs_present_eq:
  "ensure_call_outputs_present False uuid items = Some (concat (map (\<lambda>e. e # added_output uuid items e) items))"
  using missing_outputs_release [of uuid items "[]" items] by (auto simp: ensure_call_outputs_present_def)

section \<open>Orphans\<close>

lemma orphan_positions_release:
  "\<exists>ps. orphan_positions False items n es = Some ps \<and> (\<forall>p \<in> set ps. n \<le> p) \<and>
     retain_positions ps n es = filter (\<lambda>e. \<not> is_orphan items (envelope_item e)) es \<and>
     (ps = [] \<longrightarrow> list_all (\<lambda>e. \<not> is_orphan items (envelope_item e)) es)"
proof (induction es arbitrary: n)
  case (Cons e es)
  from Cons.IH [of "Suc n"] obtain ps where ps: "orphan_positions False items (Suc n) es = Some ps"
    "\<forall>p \<in> set ps. Suc n \<le> p"
    "retain_positions ps (Suc n) es = filter (\<lambda>e. \<not> is_orphan items (envelope_item e)) es"
    "ps = [] \<longrightarrow> list_all (\<lambda>e. \<not> is_orphan items (envelope_item e)) es" by blast
  show ?case
  proof (cases "is_orphan items (envelope_item e)")
    case True
    with ps show ?thesis by (auto simp: error_or_panic_def intro: Suc_leD)
  next
    case False
    with ps show ?thesis by (cases ps) (auto intro: Suc_leD)
  qed
qed simp

lemma remove_orphan_outputs_eq:
  "remove_orphan_outputs False items = Some (filter (\<lambda>e. \<not> is_orphan items (envelope_item e)) items)"
proof -
  from orphan_positions_release [of items 0 items] obtain ps where
    "orphan_positions False items 0 items = Some ps"
    "retain_positions ps 0 items = filter (\<lambda>e. \<not> is_orphan items (envelope_item e)) items"
    "ps = [] \<longrightarrow> list_all (\<lambda>e. \<not> is_orphan items (envelope_item e)) items" by blast
  then show ?thesis by (auto simp: remove_orphan_outputs_def list_all_iff filter_id_conv)
qed

section \<open>Pairing\<close>

text \<open>What the first two steps of a release build make of the items.\<close>

definition paired_items :: "(ustr \<Rightarrow> ustr) \<Rightarrow> 'j envelope list \<Rightarrow> 'j envelope list" where
  "paired_items uuid items =
     concat (map (\<lambda>e. if is_orphan items (envelope_item e) then [] else e # added_output uuid items e) items)"

lemma output_no_call: "output_key item = Some k \<Longrightarrow> call_key item = None"
  by (cases item) (auto simp: item_keys split: option.splits)

lemma calls_concat:
  "calls (concat (map (\<lambda>e. e # added_output uuid items e) es)) = calls es"
  by (fastforce simp: calls_def dest: added_output_key)

lemma is_orphan_cong: "calls items = calls items' \<Longrightarrow> is_orphan items item = is_orphan items' item"
  by (simp add: is_orphan_iff)

lemma orphan_adds_nothing: "is_orphan items (envelope_item e) \<Longrightarrow> added_output uuid items e = []"
  by (auto simp: is_orphan_iff added_output_None dest: output_no_call)

lemma added_not_orphan:
  "e \<in> set items \<Longrightarrow> out \<in> set (added_output uuid items e) \<Longrightarrow> \<not> is_orphan items (envelope_item out)"
  using added_output_key [of out uuid items e] by (auto simp: is_orphan_iff calls_def)

lemma filter_concat_map: "filter P (concat (map f xs)) = concat (map (\<lambda>x. filter P (f x)) xs)"
  by (induction xs) simp_all

lemma pairing_eq:
  "remove_orphan_outputs False (concat (map (\<lambda>e. e # added_output uuid items e) items)) = Some (paired_items uuid items)"
proof -
  have "filter (\<lambda>e. \<not> is_orphan items (envelope_item e)) (e # added_output uuid items e) =
      (if is_orphan items (envelope_item e) then [] else e # added_output uuid items e)" if "e \<in> set items" for e
    using that added_not_orphan [OF that] orphan_adds_nothing by (auto simp: filter_id_conv filter_empty_conv)
  then have "concat (map (\<lambda>e. filter (\<lambda>e. \<not> is_orphan items (envelope_item e)) (e # added_output uuid items e)) items) =
      paired_items uuid items"
    unfolding paired_items_def by (intro arg_cong [of _ _ concat] map_cong refl)
  then show ?thesis
    by (simp only: remove_orphan_outputs_eq filter_concat_map is_orphan_cong [OF calls_concat])
qed

lemma in_paired_items:
  "x \<in> set (paired_items uuid items) \<longleftrightarrow>
     (\<exists>e \<in> set items. \<not> is_orphan items (envelope_item e) \<and> (x = e \<or> x \<in> set (added_output uuid items e)))"
  by (auto simp: paired_items_def split: if_splits)

lemma calls_paired_items: "calls (paired_items uuid items) = calls items"
proof -
  have "\<not> is_orphan items (envelope_item e)" if "call_key (envelope_item e) = Some k" for e k
    using that by (auto simp: is_orphan_iff dest: output_no_call)
  then show ?thesis by (fastforce simp: calls_def in_paired_items dest: added_output_key)
qed

lemma paired_paired_items: "paired (paired_items uuid items)"
  unfolding paired_def calls_paired_items
proof (intro conjI subsetI)
  fix k assume "k \<in> calls items"
  then obtain e where e: "e \<in> set items" "call_key (envelope_item e) = Some k" by (auto simp: calls_def)
  show "k \<in> outputs (paired_items uuid items)"
  proof (cases "k \<in> outputs items")
    case True
    then obtain out where "out \<in> set items" "output_key (envelope_item out) = Some k" by (auto simp: outputs_def)
    moreover with \<open>k \<in> calls items\<close> have "\<not> is_orphan items (envelope_item out)" by (auto simp: is_orphan_iff)
    ultimately show ?thesis unfolding outputs_def using in_paired_items by blast
  next
    case False
    with e(2) have "added_output uuid items e \<noteq> []" by (auto simp: added_output_None)
    then obtain out where out: "out \<in> set (added_output uuid items e)" by (cases "added_output uuid items e") auto
    moreover have "\<not> is_orphan items (envelope_item e)"
      using e(2) by (auto simp: is_orphan_iff dest: output_no_call)
    ultimately have "out \<in> set (paired_items uuid items)" using e(1) in_paired_items by blast
    then show ?thesis using e(2) added_output_key [OF out] by (auto simp: outputs_def)
  qed
next
  fix k assume "k \<in> due_outputs (paired_items uuid items)"
  then obtain x where x: "x \<in> set (paired_items uuid items)" "output_key (envelope_item x) = Some k"
    "\<not> server_output (envelope_item x)" by (auto simp: due_outputs_def)
  from x(1) obtain e where e: "e \<in> set items" "\<not> is_orphan items (envelope_item e)"
    "x = e \<or> x \<in> set (added_output uuid items e)" by (auto simp: in_paired_items)
  then have "\<not> is_orphan items (envelope_item x)" using added_not_orphan by blast
  with x show "k \<in> calls items" by (auto simp: is_orphan_iff)
qed

text \<open>A paired conversation stays as it is.\<close>

lemma paired_items_id: "paired items \<Longrightarrow> paired_items uuid items = items"
proof -
  assume "paired items"
  then have "added_output uuid items e = []" "\<not> is_orphan items (envelope_item e)" if "e \<in> set items" for e
    using that by (auto simp: added_output_None is_orphan_iff paired_def calls_def due_outputs_def)
  then have "map (\<lambda>e. if is_orphan items (envelope_item e) then [] else e # added_output uuid items e) items =
      map (\<lambda>e. [e]) items" by simp
  then show ?thesis unfolding paired_items_def by (simp only: concat_map_singleton list.map_ident)
qed

section \<open>Media\<close>

text \<open>The content of a message or tool output, and the result of an image generation.\<close>

definition image_free :: "'j response_item \<Rightarrow> bool" where
  "image_free item =
     (case item of
        Message _ _ content _ _ \<Rightarrow> list_all (\<lambda>c. \<not> message_is_image c) content
      | FunctionCallOutput _ _ _ _ payload _ \<Rightarrow>
          (case payload_body payload of BodyText _ \<Rightarrow> True | ContentItems items \<Rightarrow> list_all (\<lambda>i. \<not> output_is_image i) items)
      | CustomToolCallOutput _ _ _ payload _ \<Rightarrow>
          (case payload_body payload of BodyText _ \<Rightarrow> True | ContentItems items \<Rightarrow> list_all (\<lambda>i. \<not> output_is_image i) items)
      | ImageGenerationCall _ _ _ result _ \<Rightarrow> result = []
      | _ \<Rightarrow> True)"

definition audio_free :: "'j response_item \<Rightarrow> bool" where
  "audio_free item =
     (case item of
        Message _ _ content _ _ \<Rightarrow> list_all (\<lambda>c. \<not> message_is_audio c) content
      | FunctionCallOutput _ _ _ _ payload _ \<Rightarrow>
          (case payload_body payload of BodyText _ \<Rightarrow> True | ContentItems items \<Rightarrow> list_all (\<lambda>i. \<not> output_is_audio i) items)
      | CustomToolCallOutput _ _ _ payload _ \<Rightarrow>
          (case payload_body payload of BodyText _ \<Rightarrow> True | ContentItems items \<Rightarrow> list_all (\<lambda>i. \<not> output_is_audio i) items)
      | _ \<Rightarrow> True)"

text \<open>A message whose classifications are complete, which is how stripping leaves it.\<close>

definition classified :: "'j response_item \<Rightarrow> bool" where
  "classified item =
     (case item of
        Message _ _ content _ p \<Rightarrow>
          (case p of None \<Rightarrow> False
           | Some m \<Rightarrow> (case content_item_kinds m of None \<Rightarrow> False | Some ks \<Rightarrow> length ks = length content))
      | _ \<Rightarrow> True)"

lemma map_annotate_fst:
  "map (\<lambda>x. if P (fst x) then a else fst x) (annotate content ks) = map (\<lambda>c. if P c then a else c) content"
  using map_map [of "\<lambda>c. if P c then a else c" fst "annotate content ks"] by (simp add: comp_def)

lemma replace_message_media_Message:
  "replace_message_media P m (Message a b content d p) =
     Message a b (map (\<lambda>c. if P c then MessageInputText (media_text m) else c) content) d
       (Some ((case p of None \<Rightarrow> passthrough_default | Some q \<Rightarrow> q)\<lparr>content_item_kinds :=
          Some (map snd (map (\<lambda>c. if P (fst c) then media_fragment m else c)
            (annotate content (case p of None \<Rightarrow> [] | Some q \<Rightarrow> (case content_item_kinds q of None \<Rightarrow> [] | Some ks \<Rightarrow> ks)))))\<rparr>))"
  by (cases p) (simp_all add: replace_message_media_def if_distrib map_annotate_fst media_fragment_def comp_def
      cong: if_cong)

lemma annotate_snd: "length ks = length content \<Longrightarrow> map snd (annotate content ks) = ks"
  by (simp add: annotate_def map_snd_zip_take)

lemma replace_message_media_id:
  assumes "classified (Message a b content d p)" "list_all (\<lambda>c. \<not> P c) content"
  shows "replace_message_media P m (Message a b content d p) = Message a b content d p"
proof -
  from assms(1) obtain q ks where p: "p = Some q" "content_item_kinds q = Some ks" "length ks = length content"
    by (auto simp: classified_def split: option.splits)
  have "map (\<lambda>c. if P c then MessageInputText (media_text m) else c) content = content"
    using assms(2) by (simp add: list_all_iff map_idI)
  moreover have "map (\<lambda>c. if P (fst c) then media_fragment m else c) (annotate content ks) = annotate content ks"
    using assms(2) by (intro map_idI) (auto simp: list_all_iff annotate_def dest: set_zip_leftD)
  moreover have "q\<lparr>content_item_kinds := Some ks\<rparr> = q" using p(2) by (cases q) simp
  ultimately show ?thesis by (simp add: replace_message_media_Message p annotate_snd del: map_map)
qed

lemma strip_keys:
  "call_key (strip_image item) = call_key item" "output_key (strip_image item) = output_key item"
  "server_output (strip_image item) = server_output item"
  "call_key (strip_audio item) = call_key item" "output_key (strip_audio item) = output_key item"
  "server_output (strip_audio item) = server_output item"
  by (cases item; simp add: item_keys replace_message_media_Message)+

lemma strip_media_free:
  "image_free (strip_image item)" "audio_free (strip_audio item)"
  "image_free item \<Longrightarrow> image_free (strip_audio item)"
  by (cases item; auto simp: image_free_def audio_free_def replace_message_media_Message replace_output_media_def
      list_all_iff split: output_body.splits)+

lemma strip_classified: "classified (strip_image item)" "classified (strip_audio item)"
  by (cases item; simp add: classified_def replace_message_media_Message)+

lemma replace_output_media_id:
  "(case payload_body payload of BodyText _ \<Rightarrow> True | ContentItems items \<Rightarrow> list_all (\<lambda>i. \<not> P i) items) \<Longrightarrow>
     replace_output_media P m payload = payload"
  by (cases payload) (auto simp: replace_output_media_def list_all_iff intro!: map_idI split: output_body.splits)

lemma strip_image_id: "classified item \<Longrightarrow> image_free item \<Longrightarrow> strip_image item = item"
  by (cases item) (simp_all add: image_free_def replace_message_media_id replace_output_media_id)

lemma strip_audio_id: "classified item \<Longrightarrow> audio_free item \<Longrightarrow> strip_audio item = item"
  by (cases item) (simp_all add: audio_free_def replace_message_media_id replace_output_media_id)

section \<open>Normalization as a whole\<close>

definition strip_media :: "input_modality list \<Rightarrow> 'j envelope list \<Rightarrow> 'j envelope list" where
  "strip_media modalities items =
     strip_audio_when_unsupported modalities (strip_images_when_unsupported modalities items)"

lemma keys_map_item:
  assumes "\<And>item. call_key (f item) = call_key item" "\<And>item. output_key (f item) = output_key item"
    "\<And>item. server_output (f item) = server_output item"
  shows "paired (map (map_item f) items) = paired items"
  using assms by (simp add: paired_def calls_def outputs_def due_outputs_def map_item_def)

lemma paired_strip_media: "paired (strip_media modalities items) = paired items"
  by (simp add: strip_media_def strip_audio_when_unsupported_def strip_images_when_unsupported_def
      keys_map_item strip_keys)

lemma normalize_history_eq:
  "normalize_history False uuid modalities items = Some (strip_media modalities (paired_items uuid items))"
  by (simp add: normalize_history_def ensure_call_outputs_present_eq pairing_eq strip_media_def)

lemma map_item_id: "(\<And>e. e \<in> set items \<Longrightarrow> f (envelope_item e) = envelope_item e) \<Longrightarrow> map (map_item f) items = items"
  by (rule map_idI) (simp add: map_item_def)

lemma strip_media_idem: "strip_media modalities (strip_media modalities items) = strip_media modalities items"
proof -
  let ?i = "ModalityImage \<in> set modalities" and ?a = "ModalityAudio \<in> set modalities"
  let ?x = "strip_media modalities items"
  have "\<not> ?i \<Longrightarrow> e \<in> set ?x \<Longrightarrow> strip_image (envelope_item e) = envelope_item e" for e
    by (auto simp: strip_media_def strip_audio_when_unsupported_def strip_images_when_unsupported_def map_item_def
        strip_image_id strip_classified strip_media_free split: if_splits)
  then have images: "strip_images_when_unsupported modalities ?x = ?x"
    by (simp add: strip_images_when_unsupported_def map_item_id)
  have "\<not> ?a \<Longrightarrow> e \<in> set ?x \<Longrightarrow> strip_audio (envelope_item e) = envelope_item e" for e
    by (auto simp: strip_media_def strip_audio_when_unsupported_def map_item_def
        strip_audio_id strip_classified strip_media_free split: if_splits)
  then have "strip_audio_when_unsupported modalities ?x = ?x"
    by (simp add: strip_audio_when_unsupported_def map_item_id)
  with images show ?thesis by (simp add: strip_media_def [of modalities ?x])
qed

lemma strip_media_supported:
  "e \<in> set (strip_media modalities items) \<Longrightarrow>
     (ModalityImage \<in> set modalities \<or> image_free (envelope_item e)) \<and>
     (ModalityAudio \<in> set modalities \<or> audio_free (envelope_item e))"
  by (auto simp: strip_media_def strip_audio_when_unsupported_def strip_images_when_unsupported_def map_item_def
      strip_media_free split: if_splits)

text \<open>C30. A release build turns any conversation into one where every call has an output and every output that
  needs one a call: a missing output is put right behind its call, outputs without a call go, and
  everything else keeps its order. Media of a modality the model does not read are gone, and
  normalizing once more changes nothing.\<close>

theorem normalize_history_pairs:
  "\<exists>items'. normalize_history False uuid modalities items = Some items' \<and>
     items' = strip_media modalities
       (concat (map (\<lambda>e. if is_orphan items (envelope_item e) then [] else e # added_output uuid items e) items)) \<and>
     paired items' \<and>
     list_all (\<lambda>e. (ModalityImage \<in> set modalities \<or> image_free (envelope_item e)) \<and>
       (ModalityAudio \<in> set modalities \<or> audio_free (envelope_item e))) items' \<and>
     normalize_history False uuid modalities items' = Some items'"
proof (intro exI conjI)
  let ?x = "strip_media modalities (paired_items uuid items)"
  show "normalize_history False uuid modalities items = Some ?x" by (rule normalize_history_eq)
  show "?x = strip_media modalities
      (concat (map (\<lambda>e. if is_orphan items (envelope_item e) then [] else e # added_output uuid items e) items))"
    by (simp only: paired_items_def)
  show paired: "paired ?x" by (simp add: paired_strip_media paired_paired_items)
  show "list_all (\<lambda>e. (ModalityImage \<in> set modalities \<or> image_free (envelope_item e)) \<and>
      (ModalityAudio \<in> set modalities \<or> audio_free (envelope_item e))) ?x"
    unfolding list_all_iff using strip_media_supported by blast
  show "normalize_history False uuid modalities ?x = Some ?x"
    by (simp add: normalize_history_eq paired_items_id [OF paired] strip_media_idem)
qed

section \<open>Debug builds\<close>

text \<open>A call whose missing output is an internal error.\<close>

definition strict_call :: "'j response_item \<Rightarrow> bool" where
  "strict_call item = (case item of CustomToolCall _ _ _ _ _ _ _ \<Rightarrow> True | LocalShellCall _ (Some _) _ _ _ \<Rightarrow> True | _ \<Rightarrow> False)"

definition lost_output :: "'j envelope list \<Rightarrow> 'j response_item \<Rightarrow> bool" where
  "lost_output items item \<longleftrightarrow> strict_call item \<and> (case call_key item of None \<Rightarrow> False | Some k \<Rightarrow> k \<notin> outputs items)"

lemma missing_output_debug:
  "missing_output True uuid items item =
     (if lost_output items item then None else missing_output False uuid items item)"
  by (cases "(True, uuid, items, item)" rule: missing_output.cases)
    (auto simp: lost_output_def strict_call_def call_key_def collected_keys error_or_panic_def split: option.splits)

lemma missing_outputs_debug:
  "missing_outputs True uuid items n es =
     (if list_ex (\<lambda>e. lost_output items (envelope_item e)) es then None else missing_outputs False uuid items n es)"
  by (induction es arbitrary: n) (simp_all add: missing_output_debug missing_output_release split: option.splits)

lemma orphan_positions_debug:
  "orphan_positions True items n es =
     (if list_ex (\<lambda>e. is_orphan items (envelope_item e)) es then None else orphan_positions False items n es)"
  by (induction es arbitrary: n) (simp_all add: error_or_panic_def)

lemma remove_orphan_outputs_debug:
  "remove_orphan_outputs True items =
     (if list_ex (\<lambda>e. is_orphan items (envelope_item e)) items then None else remove_orphan_outputs False items)"
  by (simp add: remove_orphan_outputs_def orphan_positions_debug)

lemma orphans_kept:
  "list_ex (\<lambda>e. is_orphan items (envelope_item e)) (concat (map (\<lambda>e. e # added_output uuid items e) items)) =
     list_ex (\<lambda>e. is_orphan items (envelope_item e)) items"
  by (auto simp: list_ex_iff dest: added_not_orphan)

text \<open>C31. A debug build panics exactly on a custom tool or shell call without an output and on an output without a
  call, and otherwise does what a release build does.\<close>

theorem normalize_history_debug:
  "normalize_history True uuid modalities items =
     (if list_ex (\<lambda>e. lost_output items (envelope_item e) \<or> is_orphan items (envelope_item e)) items then None
      else normalize_history False uuid modalities items)"
proof -
  let ?items = "concat (map (\<lambda>e. e # added_output uuid items e) items)"
  have ex: "list_ex (\<lambda>e. lost_output items (envelope_item e) \<or> is_orphan items (envelope_item e)) items \<longleftrightarrow>
      list_ex (\<lambda>e. lost_output items (envelope_item e)) items \<or> list_ex (\<lambda>e. is_orphan items (envelope_item e)) items"
    by (auto simp: list_ex_iff)
  have "is_orphan ?items = is_orphan items" by (rule ext) (rule is_orphan_cong [OF calls_concat])
  then have orphans: "remove_orphan_outputs True ?items =
      (if list_ex (\<lambda>e. is_orphan items (envelope_item e)) items then None else remove_orphan_outputs False ?items)"
    by (simp only: remove_orphan_outputs_debug orphans_kept)
  have "ensure_call_outputs_present True uuid items =
      (if list_ex (\<lambda>e. lost_output items (envelope_item e)) items then None else Some ?items)"
    using ensure_call_outputs_present_eq [of uuid items]
    by (simp add: ensure_call_outputs_present_def missing_outputs_debug)
  then show ?thesis unfolding ex normalize_history_def by (simp add: orphans ensure_call_outputs_present_eq)
qed

end
