(* ===== verification/Tool_Outputs.thy ===== *)
theory Tool_Outputs
  imports Tool_Response Context_Normalize_Laws
begin

text \<open>
  The outputs of tools and the items they become: the implementations of \<^verbatim>\<open>ToolOutput\<close> in
  \<^verbatim>\<open>codex-rs/core/src/tools/context.rs\<close> and \<^verbatim>\<open>codex-rs/tools/src/tool_output.rs\<close>,
  \<^verbatim>\<open>ResponseInputItem\<close> and \<^verbatim>\<open>CallToolResult\<close> of \<^verbatim>\<open>codex-rs/protocol\<close>. Values of
  \<^verbatim>\<open>serde_json\<close> are a type parameter with the operations the code calls, \<open>json_ops\<close>.
\<close>

section \<open>Results of MCP calls\<close>

datatype 'j mcp_content =
    McpText ustr "'j option"
  | McpImage ustr "ustr option" "'j option"
  | McpAudio ustr "ustr option"
  | McpUnknown

record 'j json_ops =
  parse_mcp_content :: "'j \<Rightarrow> 'j mcp_content option"
  json_to_string :: "'j \<Rightarrow> ustr + ustr"
  json_display :: "'j \<Rightarrow> ustr"
  json_get :: "'j \<Rightarrow> ustr \<Rightarrow> 'j option"
  json_as_bool :: "'j \<Rightarrow> bool option"
  json_as_str :: "'j \<Rightarrow> ustr option"
  json_is_null :: "'j \<Rightarrow> bool"
  json_array :: "'j list \<Rightarrow> 'j"
  json_string :: "ustr \<Rightarrow> 'j"

record 'j call_result =
  result_content :: "'j list"
  structured_content :: "'j option"
  result_is_error :: "bool option"
  result_meta :: "'j option"

definition result_success :: "'j call_result \<Rightarrow> bool" where
  "result_success r \<longleftrightarrow> result_is_error r \<noteq> Some True"

definition DEFAULT_IMAGE_DETAIL :: image_detail where
  "DEFAULT_IMAGE_DETAIL = High"

definition parse_image_detail :: "ustr \<Rightarrow> image_detail option" where
  "parse_image_detail detail =
     (if detail = str ''auto'' then Some Auto
      else if detail = str ''low'' then Some Low
      else if detail = str ''high'' then Some High
      else if detail = str ''original'' then Some Original
      else None)"

definition media_url :: "ustr \<Rightarrow> ustr option \<Rightarrow> ustr" where
  "media_url data mime_type =
     (if starts_with (str ''data:'') data then data
      else str ''data:'' @ (case mime_type of None \<Rightarrow> str ''application/octet-stream'' | Some m \<Rightarrow> m) @
        str '';base64,'' @ data)"

definition meta_get :: "'j json_ops \<Rightarrow> 'j option \<Rightarrow> ustr \<Rightarrow> 'j option" where
  "meta_get ops meta key = Option.bind meta (\<lambda>m. json_get ops m key)"

definition convert_mcp_content :: "'j json_ops \<Rightarrow> 'j \<Rightarrow> content_item" where
  "convert_mcp_content ops content =
     (case parse_mcp_content ops content of
        Some (McpText t meta) \<Rightarrow>
          if Option.bind (meta_get ops meta (str ''codex/encryptedContent'')) (json_as_bool ops) = Some True
          then EncryptedContent t else InputText t
      | Some (McpImage data mime_type meta) \<Rightarrow>
          InputImage (media_url data mime_type)
            (case Option.bind
                (Option.bind (meta_get ops meta (str ''codex/imageDetail'')) (json_as_str ops)) parse_image_detail of
               None \<Rightarrow> Some DEFAULT_IMAGE_DETAIL
             | Some d \<Rightarrow> Some d)
      | Some (McpAudio data mime_type) \<Rightarrow> InputAudio (media_url data mime_type)
      | _ \<Rightarrow> InputText (case json_to_string ops content of Inr t \<Rightarrow> t | Inl _ \<Rightarrow> str ''<content>''))"

definition convert_mcp_content_to_items :: "'j json_ops \<Rightarrow> 'j list \<Rightarrow> content_item list" where
  "convert_mcp_content_to_items ops contents = map (convert_mcp_content ops) contents"

fun is_encrypted :: "content_item \<Rightarrow> bool" where
  "is_encrypted (EncryptedContent _) = True"
| "is_encrypted _ = False"

definition as_function_call_output_payload :: "'j json_ops \<Rightarrow> 'j call_result \<Rightarrow> output_payload" where
  "as_function_call_output_payload ops r =
     (let content_items = convert_mcp_content_to_items ops (result_content r);
          items_payload = \<lparr>payload_body = ContentItems content_items, payload_success = Some (result_success r)\<rparr>
      in if list_ex is_encrypted content_items then items_payload
         else case structured_content r of
                None \<Rightarrow> items_payload
              | Some j \<Rightarrow>
                  if json_is_null ops j then items_payload
                  else case json_to_string ops j of
                         Inr t \<Rightarrow> \<lparr>payload_body = BodyText t, payload_success = Some (result_success r)\<rparr>
                       | Inl e \<Rightarrow> \<lparr>payload_body = BodyText e, payload_success = Some False\<rparr>)"

section \<open>Text of an output\<close>

fun visible_text :: "content_item \<Rightarrow> ustr option" where
  "visible_text (InputText t) = (if trim t = [] then None else Some t)"
| "visible_text _ = None"

definition content_items_to_text :: "content_item list \<Rightarrow> ustr option" where
  "content_items_to_text items =
     (let text_segments = List.map_filter visible_text items in
      if text_segments = [] then None else Some (join [LF] text_segments))"

fun body_to_text :: "output_body \<Rightarrow> ustr option" where
  "body_to_text (BodyText content) = Some content"
| "body_to_text (ContentItems items) = content_items_to_text items"

abbreviation or_empty :: "ustr option \<Rightarrow> ustr" where
  "or_empty t \<equiv> (case t of None \<Rightarrow> [] | Some s \<Rightarrow> s)"

fun sanitize_item :: "content_item \<Rightarrow> content_item" where
  "sanitize_item (InputImage url (Some Original)) = InputImage url (Some DEFAULT_IMAGE_DETAIL)"
| "sanitize_item item = item"

definition sanitize_original_image_detail :: "bool \<Rightarrow> content_item list \<Rightarrow> content_item list" where
  "sanitize_original_image_detail can_request_original items =
     (if can_request_original then items else map sanitize_item items)"

section \<open>Items sent back to the model\<close>

datatype 'j response_input_item =
    InputMessage ustr "message_content list" "message_phase option"
  | InputFunctionCallOutput ustr output_payload
  | InputMcpToolCallOutput ustr "'j call_result"
  | InputCustomToolCallOutput ustr "ustr option" output_payload
  | InputToolSearchOutput ustr ustr ustr "'j list"

fun to_history_item :: "'j json_ops \<Rightarrow> 'j response_input_item \<Rightarrow> 'j response_item" where
  "to_history_item ops (InputMessage role content phase) = Message None role content phase None"
| "to_history_item ops (InputFunctionCallOutput call_id output) =
     FunctionCallOutput None (Some call_id) None None output None"
| "to_history_item ops (InputMcpToolCallOutput call_id result) =
     FunctionCallOutput None (Some call_id) None None (as_function_call_output_payload ops result) None"
| "to_history_item ops (InputCustomToolCallOutput call_id name output) =
     CustomToolCallOutput None call_id name output None"
| "to_history_item ops (InputToolSearchOutput call_id status execution tools) =
     ToolSearchOutput None (Some call_id) status execution tools None"

record search_params =
  search_query :: ustr
  search_limit :: "usize option"

datatype tool_payload = FunctionPayload ustr | ToolSearchPayload search_params | CustomPayload ustr

fun log_payload :: "tool_payload \<Rightarrow> ustr" where
  "log_payload (FunctionPayload arguments) = arguments"
| "log_payload (ToolSearchPayload arguments) = search_query arguments"
| "log_payload (CustomPayload input) = input"

fun is_custom :: "tool_payload \<Rightarrow> bool" where
  "is_custom (CustomPayload _) = True"
| "is_custom _ = False"

definition output_for_payload :: "ustr \<Rightarrow> tool_payload \<Rightarrow> output_payload \<Rightarrow> 'j response_input_item" where
  "output_for_payload call_id payload output =
     (if is_custom payload then InputCustomToolCallOutput call_id None output
      else InputFunctionCallOutput call_id output)"

definition function_tool_response ::
  "ustr \<Rightarrow> tool_payload \<Rightarrow> content_item list \<Rightarrow> bool option \<Rightarrow> 'j response_input_item" where
  "function_tool_response call_id payload body success =
     output_for_payload call_id payload
       \<lparr>payload_body = (case body of [InputText t] \<Rightarrow> BodyText t | _ \<Rightarrow> ContentItems body),
        payload_success = success\<rparr>"

section \<open>The tools' outputs\<close>

record 'j mcp_tool_output =
  mcp_result :: "'j call_result"
  mcp_tool_input :: 'j
  mcp_wall_time :: nat
  original_detail_supported :: bool
  mcp_policy :: truncation_policy

definition mcp_header :: "'j mcp_tool_output \<Rightarrow> ustr" where
  "mcp_header out =
     str ''Wall time: '' @ format_f64_4 (as_secs_f64 (mcp_wall_time out)) @ str '' seconds'' @ [LF] @ str ''Output:''"

definition mcp_response_payload :: "'j json_ops \<Rightarrow> (ustr \<Rightarrow> usize) \<Rightarrow> 'j mcp_tool_output \<Rightarrow> output_payload option" where
  "mcp_response_payload ops est out =
     (let payload = as_function_call_output_payload ops (mcp_result out);
          header = mcp_header out;
          body = (case payload_body payload of
                    BodyText t \<Rightarrow> BodyText (if t = [] then header else header @ [LF] @ t)
                  | ContentItems items \<Rightarrow>
                      ContentItems (InputText header #
                        sanitize_original_image_detail (original_detail_supported out) items))
      in truncate_function_output_payload (payload\<lparr>payload_body := body\<rparr>)
           (scale_policy SERIALIZATION_ALLOWANCE (mcp_policy out)) est)"

datatype 'j tool_output =
    McpOutput "'j mcp_tool_output"
  | ToolSearchResult "'j list"
  | FunctionOutput "content_item list" "bool option"
  | ApplyPatchOutput ustr
  | AbortedOutput ustr
  | ExecOutput exec_output
  | JsonOutput 'j "bool option" bool
  | CallResultOutput "'j call_result"

fun success_for_logging :: "'j tool_output \<Rightarrow> bool" where
  "success_for_logging (McpOutput out) = result_success (mcp_result out)"
| "success_for_logging (FunctionOutput _ success) = (case success of None \<Rightarrow> True | Some b \<Rightarrow> b)"
| "success_for_logging (AbortedOutput _) = False"
| "success_for_logging (JsonOutput _ success _) = (case success of None \<Rightarrow> True | Some b \<Rightarrow> b)"
| "success_for_logging (CallResultOutput r) = result_success r"
| "success_for_logging _ = True"

fun contains_external_context :: "'j tool_output \<Rightarrow> bool" where
  "contains_external_context (JsonOutput _ _ external) = external"
| "contains_external_context _ = False"

fun output_fallback_limit :: "'j tool_output \<Rightarrow> usize option" where
  "output_fallback_limit (McpOutput out) = Some (token_budget (scale_policy SERIALIZATION_ALLOWANCE (mcp_policy out)))"
| "output_fallback_limit _ = None"

definition call_result_log_output :: "'j json_ops \<Rightarrow> 'j call_result \<Rightarrow> ustr" where
  "call_result_log_output ops r = or_empty (body_to_text (payload_body (as_function_call_output_payload ops r)))"

definition mcp_log_output :: "'j json_ops \<Rightarrow> 'j mcp_tool_output \<Rightarrow> ustr" where
  "mcp_log_output ops out =
     (let t = call_result_log_output ops (mcp_result out) in
      if t = [] then mcp_header out else mcp_header out @ [LF] @ t)"

fun log_output :: "'j json_ops \<Rightarrow> 'j tool_output \<Rightarrow> ustr" where
  "log_output ops (McpOutput out) = mcp_log_output ops out"
| "log_output ops (ToolSearchResult tools) = json_display ops (json_array ops tools)"
| "log_output ops (FunctionOutput body _) = or_empty (content_items_to_text body)"
| "log_output ops (ApplyPatchOutput t) = t"
| "log_output ops (AbortedOutput message) = message"
| "log_output ops (ExecOutput out) = exec_log_output out"
| "log_output ops (JsonOutput v _ _) = json_display ops v"
| "log_output ops (CallResultOutput r) = call_result_log_output ops r"

definition mcp_to_response_item ::
  "'j json_ops \<Rightarrow> (ustr \<Rightarrow> usize) \<Rightarrow> 'j mcp_tool_output \<Rightarrow> ustr \<Rightarrow> 'j response_input_item option" where
  "mcp_to_response_item ops est out call_id =
     map_option (InputFunctionCallOutput call_id) (mcp_response_payload ops est out)"

definition tool_search_to_response_item :: "'j list \<Rightarrow> ustr \<Rightarrow> 'j response_input_item" where
  "tool_search_to_response_item tools call_id =
     InputToolSearchOutput call_id (str ''completed'') (str ''client'') tools"

definition apply_patch_to_response_item :: "ustr \<Rightarrow> ustr \<Rightarrow> tool_payload \<Rightarrow> 'j response_input_item" where
  "apply_patch_to_response_item t call_id payload =
     function_tool_response call_id payload [InputText t] (Some True)"

definition aborted_to_response_item :: "ustr \<Rightarrow> ustr \<Rightarrow> tool_payload \<Rightarrow> 'j response_input_item" where
  "aborted_to_response_item message call_id payload =
     (case payload of
        ToolSearchPayload _ \<Rightarrow> InputToolSearchOutput call_id (str ''completed'') (str ''client'') []
      | _ \<Rightarrow> function_tool_response call_id payload [InputText message] None)"

definition exec_to_response_item :: "exec_output \<Rightarrow> ustr \<Rightarrow> tool_payload \<Rightarrow> 'j response_input_item option" where
  "exec_to_response_item out call_id payload =
     map_option (\<lambda>t. function_tool_response call_id payload [InputText t] (Some True)) (response_text out)"

definition json_to_response_item ::
  "'j json_ops \<Rightarrow> 'j \<Rightarrow> bool option \<Rightarrow> ustr \<Rightarrow> tool_payload \<Rightarrow> 'j response_input_item" where
  "json_to_response_item ops v success call_id payload =
     output_for_payload call_id payload \<lparr>payload_body = BodyText (json_display ops v), payload_success = success\<rparr>"

fun to_response_item ::
  "'j json_ops \<Rightarrow> (ustr \<Rightarrow> usize) \<Rightarrow> 'j tool_output \<Rightarrow> ustr \<Rightarrow> tool_payload \<Rightarrow> 'j response_input_item option" where
  "to_response_item ops est (McpOutput out) call_id payload = mcp_to_response_item ops est out call_id"
| "to_response_item ops est (ToolSearchResult tools) call_id payload = Some (tool_search_to_response_item tools call_id)"
| "to_response_item ops est (FunctionOutput body success) call_id payload =
     Some (function_tool_response call_id payload body success)"
| "to_response_item ops est (ApplyPatchOutput t) call_id payload = Some (apply_patch_to_response_item t call_id payload)"
| "to_response_item ops est (AbortedOutput message) call_id payload =
     Some (aborted_to_response_item message call_id payload)"
| "to_response_item ops est (ExecOutput out) call_id payload = exec_to_response_item out call_id payload"
| "to_response_item ops est (JsonOutput v success _) call_id payload =
     Some (json_to_response_item ops v success call_id payload)"
| "to_response_item ops est (CallResultOutput r) call_id payload = Some (InputMcpToolCallOutput call_id r)"

lemmas response_item_defs =
  mcp_to_response_item_def tool_search_to_response_item_def apply_patch_to_response_item_def
  aborted_to_response_item_def exec_to_response_item_def json_to_response_item_def

section \<open>Results in code mode\<close>

fun message_to_output_item :: "message_content \<Rightarrow> content_item" where
  "message_to_output_item (MessageInputText t) = InputText t"
| "message_to_output_item (OutputText t) = InputText t"
| "message_to_output_item (MessageInputImage url detail) =
     InputImage url (case detail of None \<Rightarrow> Some DEFAULT_IMAGE_DETAIL | Some d \<Rightarrow> Some d)"
| "message_to_output_item (MessageInputAudio url) = InputAudio url"

fun code_mode_text :: "content_item \<Rightarrow> ustr option" where
  "code_mode_text (InputText t) = (if trim t = [] then None else Some t)"
| "code_mode_text (InputImage url _) = (if trim url = [] then None else Some url)"
| "code_mode_text (InputAudio url) = (if trim url = [] then None else Some url)"
| "code_mode_text (EncryptedContent _) = None"

definition content_items_to_code_mode_result :: "'j json_ops \<Rightarrow> content_item list \<Rightarrow> 'j" where
  "content_items_to_code_mode_result ops items =
     json_string ops (join [LF] (List.map_filter code_mode_text items))"

fun body_to_code_mode_result :: "'j json_ops \<Rightarrow> output_body \<Rightarrow> 'j" where
  "body_to_code_mode_result ops (BodyText t) = json_string ops t"
| "body_to_code_mode_result ops (ContentItems items) = content_items_to_code_mode_result ops items"

fun response_input_to_code_mode_result ::
  "'j json_ops \<Rightarrow> ('j call_result \<Rightarrow> ustr + 'j) \<Rightarrow> 'j response_input_item \<Rightarrow> 'j" where
  "response_input_to_code_mode_result ops result_to_value (InputMessage role content phase) =
     content_items_to_code_mode_result ops (map message_to_output_item content)"
| "response_input_to_code_mode_result ops result_to_value (InputFunctionCallOutput call_id output) =
     body_to_code_mode_result ops (payload_body output)"
| "response_input_to_code_mode_result ops result_to_value (InputCustomToolCallOutput call_id name output) =
     body_to_code_mode_result ops (payload_body output)"
| "response_input_to_code_mode_result ops result_to_value (InputToolSearchOutput call_id status execution tools) =
     json_array ops tools"
| "response_input_to_code_mode_result ops result_to_value (InputMcpToolCallOutput call_id r) =
     (case result_to_value r of
        Inr v \<Rightarrow> v
      | Inl err \<Rightarrow> json_string ops (str ''failed to serialize mcp result: '' @ err))"

section \<open>Every output answers its call\<close>

definition answer_kind :: "'j tool_output \<Rightarrow> tool_payload \<Rightarrow> call_kind" where
  "answer_kind out payload =
     (case (out, payload) of
        (McpOutput _, _) \<Rightarrow> FunctionKind
      | (CallResultOutput _, _) \<Rightarrow> FunctionKind
      | (ToolSearchResult _, _) \<Rightarrow> ToolSearchKind
      | (AbortedOutput _, ToolSearchPayload _) \<Rightarrow> ToolSearchKind
      | (_, CustomPayload _) \<Rightarrow> CustomKind
      | _ \<Rightarrow> FunctionKind)"

lemma truncate_payload_total: "\<exists>p. truncate_function_output_payload output policy est = Some p"
proof -
  have "\<exists>items'. truncate_function_output_items_with_policy items policy est = Some items'" for items
    using scan_items_within [of policy est
        "\<lparr>items_out = [], remaining_budget = policy_budget policy, omitted_text_items = 0, omitted_audio_items = 0\<rparr>" items]
    by (auto simp: truncate_function_output_items_with_policy_def scan_within_def)
  then show ?thesis
    using truncate_text_total
    by (cases "payload_body output") (fastforce simp: truncate_function_output_payload_def)+
qed

lemma output_for_payload_key:
  "output_key (to_history_item ops (output_for_payload call_id payload output)) =
     Some (if is_custom payload then CustomKind else FunctionKind, call_id)"
  by (simp add: output_for_payload_def output_key_def)

lemma function_tool_response_key:
  "output_key (to_history_item ops (function_tool_response call_id payload body success)) =
     Some (if is_custom payload then CustomKind else FunctionKind, call_id)"
  unfolding function_tool_response_def by (rule output_for_payload_key)

lemma search_output_key:
  "output_key (ToolSearchOutput i (Some call_id) status execution tools p) = Some (ToolSearchKind, call_id)"
  by (simp add: output_key_def)


end
