(* ===== verification/Context_History.thy ===== *)
theory Context_History
  imports Token_Estimates Tool_Outputs
begin

text \<open>
  The history of a conversation: \<^verbatim>\<open>ContextManager\<close> of
  \<^verbatim>\<open>codex-rs/core/src/context_manager/history.rs\<close>. The record has the fields of the struct; the turn
  context and the snapshot of the world are values it only stores. \<open>None\<close> is a panic.
\<close>

record ('j, 'n, 'c, 'w) context_manager =
  cm_items :: "'j envelope list"
  history_version :: usize
  user_message_revision :: usize
  token_info :: "'n token_usage_info option"
  reference_context_item :: "'c option"
  world_state_baseline :: "'w option"

definition context_manager_new :: "('j, 'n, 'c, 'w) context_manager" where
  "context_manager_new =
     \<lparr>cm_items = [], history_version = 0, user_message_revision = 0, token_info = None,
      reference_context_item = None, world_state_baseline = None\<rparr>"

definition set_token_info ::
  "'n token_usage_info option \<Rightarrow> ('j, 'n, 'c, 'w) context_manager \<Rightarrow> ('j, 'n, 'c, 'w) context_manager" where
  "set_token_info info cm = cm\<lparr>token_info := info\<rparr>"

definition set_reference_context_item ::
  "'c option \<Rightarrow> ('j, 'n, 'c, 'w) context_manager \<Rightarrow> ('j, 'n, 'c, 'w) context_manager" where
  "set_reference_context_item item cm = cm\<lparr>reference_context_item := item\<rparr>"

definition set_world_state_baseline ::
  "'w \<Rightarrow> ('j, 'n, 'c, 'w) context_manager \<Rightarrow> ('j, 'n, 'c, 'w) context_manager" where
  "set_world_state_baseline snapshot cm = cm\<lparr>world_state_baseline := Some snapshot\<rparr>"

text \<open>What is written to the rollout is the whole snapshot, or how it differs from the last one. The rendering
  of the difference for the model and the patch are arguments.\<close>

definition update_world_state ::
  "('w option \<Rightarrow> 'j response_item list \<Rightarrow> 'f list) \<Rightarrow> ('w \<Rightarrow> 'w \<Rightarrow> 'p option) \<Rightarrow> 'w \<Rightarrow>
     ('j, 'n, 'c, 'w) context_manager \<Rightarrow> 'f list \<times> ('w + 'p) option \<times> ('j, 'n, 'c, 'w) context_manager" where
  "update_world_state render_history_diff merge_patch_from snapshot cm =
     (render_history_diff (world_state_baseline cm) (map envelope_item (cm_items cm)),
      case world_state_baseline cm of
        None \<Rightarrow> Some (Inl snapshot)
      | Some previous \<Rightarrow> map_option Inr (merge_patch_from snapshot previous),
      cm\<lparr>world_state_baseline := Some snapshot\<rparr>)"

definition set_token_usage_full ::
  "bool \<Rightarrow> int \<Rightarrow> ('j, 'n, 'c, 'w) context_manager \<Rightarrow> ('j, 'n, 'c, 'w) context_manager option" where
  "set_token_usage_full dbg context_window cm =
     map_option (\<lambda>info. cm\<lparr>token_info := Some info\<rparr>)
       (case token_info cm of
          Some info \<Rightarrow> fill_to_context_window dbg info context_window
        | None \<Rightarrow> full_context_window dbg context_window)"

definition update_token_info ::
  "bool \<Rightarrow> 'n token_usage \<Rightarrow> int option \<Rightarrow> ('j, 'n, 'c, 'w) context_manager \<Rightarrow>
     ('j, 'n, 'c, 'w) context_manager option" where
  "update_token_info dbg usage window cm =
     map_option (\<lambda>info. cm\<lparr>token_info := info\<rparr>) (new_or_append dbg (token_info cm) (Some usage) window)"

section \<open>Recording items\<close>

fun is_api_message :: "'j response_item \<Rightarrow> bool" where
  "is_api_message (Message _ role _ _ _) \<longleftrightarrow> role \<noteq> str ''system''"
| "is_api_message CompactionTrigger \<longleftrightarrow> False"
| "is_api_message OtherItem \<longleftrightarrow> False"
| "is_api_message _ \<longleftrightarrow> True"

definition recorded_policy :: "truncation_policy \<Rightarrow> harness_metadata option \<Rightarrow> truncation_policy" where
  "recorded_policy policy metadata =
     (case Option.bind metadata fallback_token_limit_override of
        Some n \<Rightarrow> Tokens n
      | None \<Rightarrow> scale_policy SERIALIZATION_ALLOWANCE policy)"

fun processed_item :: "(ustr \<Rightarrow> usize) \<Rightarrow> truncation_policy \<Rightarrow> 'j response_item \<Rightarrow> 'j response_item option" where
  "processed_item est policy (FunctionCallOutput i call_id name namespace output p) =
     map_option (\<lambda>output. FunctionCallOutput i call_id name namespace output p)
       (truncate_function_output_payload output policy est)"
| "processed_item est policy (CustomToolCallOutput i call_id name output p) =
     map_option (\<lambda>output. CustomToolCallOutput i call_id name output p)
       (truncate_function_output_payload output policy est)"
| "processed_item est policy item = Some item"

definition record_item ::
  "(ustr \<Rightarrow> usize) \<Rightarrow> truncation_policy \<Rightarrow> 'j envelope \<Rightarrow> ('j, 'n, 'c, 'w) context_manager \<Rightarrow>
     ('j, 'n, 'c, 'w) context_manager option" where
  "record_item est policy e cm =
     (if \<not> is_api_message (envelope_item e) then Some cm
      else map_option (\<lambda>item.
        cm\<lparr>cm_items := cm_items cm @ [e\<lparr>envelope_item := item\<rparr>],
           user_message_revision :=
             (if is_user_authorization_message (envelope_item e)
              then saturating_add (user_message_revision cm) 1 else user_message_revision cm)\<rparr>)
        (processed_item est (recorded_policy policy (envelope_metadata e)) (envelope_item e)))"

fun record_annotated_items ::
  "(ustr \<Rightarrow> usize) \<Rightarrow> truncation_policy \<Rightarrow> 'j envelope list \<Rightarrow> ('j, 'n, 'c, 'w) context_manager \<Rightarrow>
     ('j, 'n, 'c, 'w) context_manager option" where
  "record_annotated_items est policy [] cm = Some cm"
| "record_annotated_items est policy (e # es) cm =
     Option.bind (record_item est policy e cm) (record_annotated_items est policy es)"

definition record_items ::
  "(ustr \<Rightarrow> usize) \<Rightarrow> truncation_policy \<Rightarrow> 'j response_item list \<Rightarrow> ('j, 'n, 'c, 'w) context_manager \<Rightarrow>
     ('j, 'n, 'c, 'w) context_manager option" where
  "record_items est policy items cm = record_annotated_items est policy (map envelope_new items) cm"

section \<open>Reading the history\<close>

definition for_prompt_annotated ::
  "bool \<Rightarrow> (ustr \<Rightarrow> ustr) \<Rightarrow> input_modality list \<Rightarrow> ('j, 'n, 'c, 'w) context_manager \<Rightarrow> 'j envelope list option" where
  "for_prompt_annotated dbg uuid modalities cm = normalize_history dbg uuid modalities (cm_items cm)"

definition for_prompt ::
  "bool \<Rightarrow> (ustr \<Rightarrow> ustr) \<Rightarrow> input_modality list \<Rightarrow> ('j, 'n, 'c, 'w) context_manager \<Rightarrow> 'j response_item list option" where
  "for_prompt dbg uuid modalities cm = map_option (map envelope_item) (for_prompt_annotated dbg uuid modalities cm)"

definition raw_items :: "('j, 'n, 'c, 'w) context_manager \<Rightarrow> 'j response_item list" where
  "raw_items cm = map envelope_item (cm_items cm)"

fun is_contextual_user_message :: "(ustr \<Rightarrow> (ustr \<times> ustr) option) \<Rightarrow> 'j response_item \<Rightarrow> bool" where
  "is_contextual_user_message from_xml (Message _ role content _ _) \<longleftrightarrow>
     role = str ''user'' \<and> is_contextual_user_message_content from_xml content"
| "is_contextual_user_message from_xml _ \<longleftrightarrow> False"

text \<open>The items that \<^verbatim>\<open>SharedConversationHistory\<close> shows to extensions.\<close>

definition snapshot_items ::
  "(ustr \<Rightarrow> (ustr \<times> ustr) option) \<Rightarrow> ('j, 'n, 'c, 'w) context_manager \<Rightarrow> 'j response_item list" where
  "snapshot_items from_xml cm = filter (\<lambda>item. \<not> is_contextual_user_message from_xml item) (raw_items cm)"

definition estimate_token_count_with_base_instructions ::
  "'j estimators \<Rightarrow> ustr \<Rightarrow> ('j, 'n, 'c, 'w) context_manager \<Rightarrow> int" where
  "estimate_token_count_with_base_instructions env base_instructions cm =
     i64_saturating_add (i64_from_usize (approx_token_count base_instructions)) (estimate_items env (cm_items cm))"

text \<open>\<open>xs.iter().rposition(p)\<close>.\<close>

definition rposition :: "('a \<Rightarrow> bool) \<Rightarrow> 'a list \<Rightarrow> usize option" where
  "rposition p xs = (case dropWhile (\<lambda>x. \<not> p x) (rev xs) of [] \<Rightarrow> None | _ # ys \<Rightarrow> Some (length ys))"

fun is_model_generated_item :: "'j response_item \<Rightarrow> bool" where
  "is_model_generated_item (Message _ role _ _ _) \<longleftrightarrow> role = str ''assistant''"
| "is_model_generated_item (Reasoning _ _ _ _ _) \<longleftrightarrow> True"
| "is_model_generated_item (FunctionCall _ _ _ _ _ _ _) \<longleftrightarrow> True"
| "is_model_generated_item (ToolSearchCall _ _ _ _ _ _) \<longleftrightarrow> True"
| "is_model_generated_item (WebSearchCall _ _ _ _) \<longleftrightarrow> True"
| "is_model_generated_item (ImageGenerationCall _ _ _ _ _) \<longleftrightarrow> True"
| "is_model_generated_item (CustomToolCall _ _ _ _ _ _ _) \<longleftrightarrow> True"
| "is_model_generated_item (LocalShellCall _ _ _ _ _) \<longleftrightarrow> True"
| "is_model_generated_item (Compaction _ _ _) \<longleftrightarrow> True"
| "is_model_generated_item (ContextCompaction _ _ _) \<longleftrightarrow> True"
| "is_model_generated_item _ \<longleftrightarrow> False"

text \<open>\<open>inter_agent\<close> tells whether a text is the JSON of a message between agents.\<close>

fun is_message_between_agents :: "(ustr \<Rightarrow> bool) \<Rightarrow> message_content list \<Rightarrow> bool" where
  "is_message_between_agents inter_agent [MessageInputText t] = inter_agent t"
| "is_message_between_agents inter_agent [OutputText t] = inter_agent t"
| "is_message_between_agents inter_agent _ = False"

fun is_user_turn_boundary :: "(ustr \<Rightarrow> (ustr \<times> ustr) option) \<Rightarrow> (ustr \<Rightarrow> bool) \<Rightarrow> 'j response_item \<Rightarrow> bool" where
  "is_user_turn_boundary from_xml inter_agent (AgentMessage _ _ _ _ _) \<longleftrightarrow> True"
| "is_user_turn_boundary from_xml inter_agent (Message _ role content _ _) \<longleftrightarrow>
     role = str ''user'' \<and> \<not> is_contextual_user_message_content from_xml content \<or>
     role = str ''assistant'' \<and> is_message_between_agents inter_agent content"
| "is_user_turn_boundary from_xml inter_agent _ \<longleftrightarrow> False"

definition items_after_last_model_generated_item :: "('j, 'n, 'c, 'w) context_manager \<Rightarrow> 'j envelope list" where
  "items_after_last_model_generated_item cm =
     drop (case rposition (\<lambda>e. is_model_generated_item (envelope_item e)) (cm_items cm) of
             None \<Rightarrow> length (cm_items cm)
           | Some i \<Rightarrow> saturating_add i 1) (cm_items cm)"

fun has_encrypted_reasoning :: "'j response_item \<Rightarrow> bool" where
  "has_encrypted_reasoning (Reasoning _ _ _ (Some _) _) = True"
| "has_encrypted_reasoning _ = False"

definition get_non_last_reasoning_items_tokens ::
  "(ustr \<Rightarrow> (ustr \<times> ustr) option) \<Rightarrow> (ustr \<Rightarrow> bool) \<Rightarrow> 'j estimators \<Rightarrow> ('j, 'n, 'c, 'w) context_manager \<Rightarrow> int" where
  "get_non_last_reasoning_items_tokens from_xml inter_agent env cm =
     (case rposition (\<lambda>e. is_user_turn_boundary from_xml inter_agent (envelope_item e)) (cm_items cm) of
        None \<Rightarrow> 0
      | Some i \<Rightarrow> estimate_items env (filter (\<lambda>e. has_encrypted_reasoning (envelope_item e)) (take i (cm_items cm))))"

definition estimated_tokens_after_last_model_generated_item ::
  "'j estimators \<Rightarrow> ('j, 'n, 'c, 'w) context_manager \<Rightarrow> int" where
  "estimated_tokens_after_last_model_generated_item env cm =
     estimate_items env (items_after_last_model_generated_item cm)"

definition get_total_token_usage ::
  "(ustr \<Rightarrow> (ustr \<times> ustr) option) \<Rightarrow> (ustr \<Rightarrow> bool) \<Rightarrow> 'j estimators \<Rightarrow> bool \<Rightarrow>
     ('j, 'n, 'c, 'w) context_manager \<Rightarrow> int" where
  "get_total_token_usage from_xml inter_agent env server_reasoning_included cm =
     (let last_tokens = (case token_info cm of None \<Rightarrow> 0 | Some info \<Rightarrow> total_tokens (last_token_usage info));
          after_tokens = estimate_items env (items_after_last_model_generated_item cm)
      in if server_reasoning_included then i64_saturating_add last_tokens after_tokens
         else i64_saturating_add
           (i64_saturating_add last_tokens (get_non_last_reasoning_items_tokens from_xml inter_agent env cm)) after_tokens)"

section \<open>Rewriting the history\<close>

definition remove_first_item :: "('j, 'n, 'c, 'w) context_manager \<Rightarrow> ('j, 'n, 'c, 'w) context_manager" where
  "remove_first_item cm =
     (case cm_items cm of
        [] \<Rightarrow> cm
      | removed # items \<Rightarrow>
          cm\<lparr>cm_items := remove_corresponding_for items (envelope_item removed), world_state_baseline := None\<rparr>)"

definition replace_compacted ::
  "'j envelope list \<Rightarrow> ('j, 'n, 'c, 'w) context_manager \<Rightarrow> ('j, 'n, 'c, 'w) context_manager" where
  "replace_compacted items cm =
     cm\<lparr>cm_items := items, history_version := saturating_add (history_version cm) 1, world_state_baseline := None\<rparr>"

definition replace_annotated ::
  "'j envelope list \<Rightarrow> ('j, 'n, 'c, 'w) context_manager \<Rightarrow> ('j, 'n, 'c, 'w) context_manager" where
  "replace_annotated items cm =
     replace_compacted items (cm\<lparr>user_message_revision := saturating_add (user_message_revision cm) 1\<rparr>)"

fun user_message_positions_from ::
  "(ustr \<Rightarrow> (ustr \<times> ustr) option) \<Rightarrow> (ustr \<Rightarrow> bool) \<Rightarrow> nat \<Rightarrow> 'j envelope list \<Rightarrow> nat list" where
  "user_message_positions_from from_xml inter_agent idx [] = []"
| "user_message_positions_from from_xml inter_agent idx (e # es) =
     (if is_user_turn_boundary from_xml inter_agent (envelope_item e) then [idx] else []) @
     user_message_positions_from from_xml inter_agent (Suc idx) es"

definition user_message_positions ::
  "(ustr \<Rightarrow> (ustr \<times> ustr) option) \<Rightarrow> (ustr \<Rightarrow> bool) \<Rightarrow> 'j envelope list \<Rightarrow> nat list" where
  "user_message_positions from_xml inter_agent items = user_message_positions_from from_xml inter_agent 0 items"

text \<open>The items a rollback trims before a turn: context updates of the developer and of the user. The
  second value is the reference context, which a mixed developer message clears.\<close>

fun is_trimmed_developer_message :: "'j response_item \<Rightarrow> bool" where
  "is_trimmed_developer_message (Message _ role content _ _) \<longleftrightarrow>
     role = str ''developer'' \<and> is_contextual_dev_message_content content"
| "is_trimmed_developer_message _ \<longleftrightarrow> False"

fun is_mixed_message :: "'j response_item \<Rightarrow> bool" where
  "is_mixed_message (Message _ _ content _ _) \<longleftrightarrow> has_non_contextual_dev_message_content content"
| "is_mixed_message _ \<longleftrightarrow> False"

fun trim_pre_turn_context_updates ::
  "(ustr \<Rightarrow> (ustr \<times> ustr) option) \<Rightarrow> 'j envelope list \<Rightarrow> nat \<Rightarrow> nat \<Rightarrow> 'c option \<Rightarrow> nat \<times> 'c option" where
  "trim_pre_turn_context_updates from_xml snapshot first_idx 0 reference = (0, reference)"
| "trim_pre_turn_context_updates from_xml snapshot first_idx (Suc i) reference =
     (if first_idx < Suc i
      then
        (let item = envelope_item (snapshot ! i) in
         if is_trimmed_developer_message item
         then trim_pre_turn_context_updates from_xml snapshot first_idx i
           (if is_mixed_message item then None else reference)
         else if is_contextual_user_message from_xml item
         then trim_pre_turn_context_updates from_xml snapshot first_idx i reference
         else (Suc i, reference))
      else (Suc i, reference))"

fun is_developer_message :: "'j response_item \<Rightarrow> bool" where
  "is_developer_message (Message _ role _ _ _) \<longleftrightarrow> role = str ''developer''"
| "is_developer_message _ \<longleftrightarrow> False"

fun is_rebuilt_content :: "message_content \<Rightarrow> bool" where
  "is_rebuilt_content (MessageInputText t) \<longleftrightarrow> model_switch_matches t \<or> persistent_mode_matches t"
| "is_rebuilt_content _ \<longleftrightarrow> False"

text \<open>The closure of \<^verbatim>\<open>retain_mut\<close>: the item it keeps, changed, or nothing.\<close>

definition retained_item :: "ustr \<Rightarrow> 'j envelope \<Rightarrow> 'j envelope option" where
  "retained_item first_turn_id e =
     (if item_turn_id (envelope_item e) = Some first_turn_id \<and> is_developer_message (envelope_item e)
      then
        (case to_annotated_content (envelope_item e) of
           None \<Rightarrow> None
         | Some (item, content) \<Rightarrow>
             (let content = filter (\<lambda>(c, _). \<not> is_rebuilt_content c) content in
              if content = [] then None
              else map_option (\<lambda>item. e\<lparr>envelope_item := item\<rparr>) (set_annotated_content item content)))
      else Some e)"

definition drop_last_n_user_turns ::
  "(ustr \<Rightarrow> (ustr \<times> ustr) option) \<Rightarrow> (ustr \<Rightarrow> bool) \<Rightarrow> nat \<Rightarrow> ('j, 'n, 'c, 'w) context_manager \<Rightarrow>
     ('j, 'n, 'c, 'w) context_manager" where
  "drop_last_n_user_turns from_xml inter_agent num_turns cm =
     (if num_turns = 0 then cm
      else
        (let snapshot = cm_items cm; user_positions = user_message_positions from_xml inter_agent snapshot in
         case user_positions of
           [] \<Rightarrow> replace_annotated snapshot cm
         | first_idx # _ \<Rightarrow>
             (let cut_idx = (if length user_positions \<le> num_turns then first_idx
                             else user_positions ! (length user_positions - num_turns))
              in case trim_pre_turn_context_updates from_xml snapshot first_idx cut_idx (reference_context_item cm) of
                   (cut_idx, reference) \<Rightarrow>
                     (let retained = take cut_idx snapshot;
                          retained =
                            (if cut_idx = first_idx
                             then (case item_turn_id (envelope_item (snapshot ! first_idx)) of
                                     None \<Rightarrow> retained
                                   | Some turn_id \<Rightarrow> List.map_filter (retained_item turn_id) retained)
                             else retained)
                      in replace_annotated retained (cm\<lparr>reference_context_item := reference\<rparr>)))))"

end
