(* ===== verification/Context_History_Laws.thy ===== *)
theory Context_History_Laws
  imports Context_History
begin

text \<open>
  Correctness of the conversation history: what recording keeps, what a rollback and the removal of the
  oldest item leave, how revisions move, and that estimates stay in their range.
\<close>

section \<open>Recording\<close>

definition items_within :: "truncation_policy \<Rightarrow> (ustr \<Rightarrow> usize) \<Rightarrow> content_item list \<Rightarrow> bool" where
  "items_within policy est items \<longleftrightarrow>
     (\<exists>kept texts audios. items = kept @ omission_notes texts audios \<and>
        items_cost policy est kept \<le> policy_budget policy + 43)"

definition payload_within :: "truncation_policy \<Rightarrow> (ustr \<Rightarrow> usize) \<Rightarrow> output_payload \<Rightarrow> bool" where
  "payload_within policy est output =
     (case payload_body output of
        BodyText t \<Rightarrow> byte_len t \<le> byte_budget policy + 43
      | ContentItems items \<Rightarrow> items_within policy est items)"

fun item_within :: "truncation_policy \<Rightarrow> (ustr \<Rightarrow> usize) \<Rightarrow> 'j response_item \<Rightarrow> bool" where
  "item_within policy est (FunctionCallOutput _ _ _ _ output _) = payload_within policy est output"
| "item_within policy est (CustomToolCallOutput _ _ _ output _) = payload_within policy est output"
| "item_within policy est _ = True"

lemma truncate_text_budget: "truncate_text t policy = Some u \<Longrightarrow> byte_len u \<le> byte_budget policy + 43"
proof (cases policy)
  case (Tokens n)
  assume u: "truncate_text t policy = Some u"
  show ?thesis
  proof (cases "t = [] \<or> 0 < n \<and> byte_len t \<le> approx_bytes_for_tokens n")
    case True
    with u Tokens show ?thesis by (auto simp: truncate_middle_with_token_budget_def split: if_splits)
  next
    case False
    with u Tokens truncate_bound [of t "approx_bytes_for_tokens n" True] show ?thesis
      by (auto simp: truncate_middle_with_token_budget_def split: if_splits)
  qed
qed (use truncate_text_bytes in auto)

lemma truncated_items_within:
  "truncate_function_output_items_with_policy items policy est = Some items' \<Longrightarrow>
     items_within policy est items'"
proof -
  let ?start = "\<lparr>items_out = [], remaining_budget = policy_budget policy, omitted_text_items = 0, omitted_audio_items = 0\<rparr>"
  assume items': "truncate_function_output_items_with_policy items policy est = Some items'"
  have "scan_within policy est ?start" by (simp add: scan_within_def)
  from scan_items_within [OF this, of items] items' obtain st where
    "scan_within policy est st" "items' = items_out st @ omission_notes (omitted_text_items st) (omitted_audio_items st)"
    by (auto simp: truncate_function_output_items_with_policy_def)
  moreover from this have "items_cost policy est (items_out st) \<le> policy_budget policy + 43"
    by (auto simp: scan_within_def split: if_splits)
  ultimately show ?thesis unfolding items_within_def by blast
qed

lemma truncated_payload_within:
  "truncate_function_output_payload output policy est = Some output' \<Longrightarrow> payload_within policy est output'"
  by (cases "payload_body output")
    (auto simp: truncate_function_output_payload_def payload_within_def truncate_text_budget truncated_items_within)

lemma processed_item_total:
  "\<exists>item'. processed_item est policy item = Some item' \<and> item_within policy est item' \<and>
     call_key item' = call_key item \<and> output_key item' = output_key item"
proof (cases item)
  case (FunctionCallOutput i call_id name namespace out p)
  obtain out' where "truncate_function_output_payload out policy est = Some out'"
    using truncate_payload_total by blast
  with FunctionCallOutput truncated_payload_within [OF this] show ?thesis by (simp add: item_keys)
next
  case (CustomToolCallOutput i call_id name out p)
  obtain out' where "truncate_function_output_payload out policy est = Some out'"
    using truncate_payload_total by blast
  with CustomToolCallOutput truncated_payload_within [OF this] show ?thesis by (simp add: item_keys)
qed (simp_all add: item_keys)

text \<open>How an envelope and what the history keeps of it are related.\<close>

definition recorded_as :: "(ustr \<Rightarrow> usize) \<Rightarrow> truncation_policy \<Rightarrow> 'j envelope \<Rightarrow> 'j envelope \<Rightarrow> bool" where
  "recorded_as est policy e r \<longleftrightarrow>
     envelope_metadata r = envelope_metadata e \<and>
     processed_item est (recorded_policy policy (envelope_metadata e)) (envelope_item e) = Some (envelope_item r) \<and>
     item_within (recorded_policy policy (envelope_metadata e)) est (envelope_item r) \<and>
     call_key (envelope_item r) = call_key (envelope_item e) \<and> output_key (envelope_item r) = output_key (envelope_item e)"

definition revision_after :: "usize \<Rightarrow> 'j envelope list \<Rightarrow> usize" where
  "revision_after revision es =
     foldl (\<lambda>n e. if is_user_authorization_message (envelope_item e) then saturating_add n 1 else n) revision es"

lemma record_item_step:
  "\<exists>cm' rs. record_item est policy e cm = Some cm' \<and>
     cm' = cm\<lparr>cm_items := cm_items cm @ rs,
              user_message_revision := revision_after (user_message_revision cm) (filter (\<lambda>e. is_api_message (envelope_item e)) [e])\<rparr> \<and>
     list_all2 (recorded_as est policy) (filter (\<lambda>e. is_api_message (envelope_item e)) [e]) rs"
proof (cases "is_api_message (envelope_item e)")
  case True
  obtain item' where "processed_item est (recorded_policy policy (envelope_metadata e)) (envelope_item e) = Some item'"
    "item_within (recorded_policy policy (envelope_metadata e)) est item'"
    "call_key item' = call_key (envelope_item e)" "output_key item' = output_key (envelope_item e)"
    using processed_item_total by blast
  with True show ?thesis
    by (intro exI [of _ "[e\<lparr>envelope_item := item'\<rparr>]"] exI conjI)
      (auto simp: record_item_def recorded_as_def revision_after_def)
qed (simp add: record_item_def revision_after_def)

lemma revision_after_append: "revision_after n (es @ fs) = revision_after (revision_after n es) fs"
  by (simp add: revision_after_def)

lemma record_annotated_items_spec:
  "\<exists>rs. record_annotated_items est policy es cm =
       Some (cm\<lparr>cm_items := cm_items cm @ rs,
                user_message_revision :=
                  revision_after (user_message_revision cm) (filter (\<lambda>e. is_api_message (envelope_item e)) es)\<rparr>) \<and>
     list_all2 (recorded_as est policy) (filter (\<lambda>e. is_api_message (envelope_item e)) es) rs"
proof (induction es arbitrary: cm)
  case Nil
  show ?case by (simp add: revision_after_def)
next
  case (Cons e es)
  let ?api = "\<lambda>e. is_api_message (envelope_item e)"
  obtain cm1 rs1 where one: "record_item est policy e cm = Some cm1"
    "cm1 = cm\<lparr>cm_items := cm_items cm @ rs1,
      user_message_revision := revision_after (user_message_revision cm) (filter ?api [e])\<rparr>"
    "list_all2 (recorded_as est policy) (filter ?api [e]) rs1" using record_item_step by blast
  obtain rs2 where two: "record_annotated_items est policy es cm1 =
      Some (cm1\<lparr>cm_items := cm_items cm1 @ rs2,
        user_message_revision := revision_after (user_message_revision cm1) (filter ?api es)\<rparr>)"
    "list_all2 (recorded_as est policy) (filter ?api es) rs2" using Cons.IH [of cm1] by blast
  have "filter ?api (e # es) = filter ?api [e] @ filter ?api es" by simp
  then show ?case
    using one two list_all2_appendI [OF one(3) two(2)]
    by (intro exI [of _ "rs1 @ rs2"]) (simp add: revision_after_append del: filter.simps)
qed

text \<open>C33. Recording never panics. The history grows by exactly the API messages, in order and with their
  metadata; a tool output is cut to the tool's own limit or the scaled policy, plus one marker at most, and
  keeps its call id; nothing else in the history changes but the revision, which counts the messages of the
  user.\<close>

theorem record_annotated_items_appends:
  "\<exists>rs. record_annotated_items est policy es cm =
       Some (cm\<lparr>cm_items := cm_items cm @ rs,
                user_message_revision :=
                  revision_after (user_message_revision cm) (filter (\<lambda>e. is_api_message (envelope_item e)) es)\<rparr>) \<and>
     list_all2 (recorded_as est policy) (filter (\<lambda>e. is_api_message (envelope_item e)) es) rs"
  by (rule record_annotated_items_spec)

section \<open>The response of a command in the history\<close>

lemma processed_text_output:
  assumes "byte_len t \<le> byte_budget policy"
  shows "processed_item est policy (to_history_item ops (function_tool_response call_id payload [InputText t] success)) =
    Some (to_history_item ops (function_tool_response call_id payload [InputText t] success))"
  using truncate_text_fits [OF assms]
  by (simp add: function_tool_response_def output_for_payload_def truncate_function_output_payload_def)

lemma response_is_output:
  "is_api_message (to_history_item ops (function_tool_response call_id payload body success))"
  "\<not> is_user_authorization_message (to_history_item ops (function_tool_response call_id payload body success))"
  by (simp_all add: function_tool_response_def output_for_payload_def)


section \<open>Injected context\<close>


section \<open>Estimates\<close>

lemma approx_token_count_i64: "i64_from_usize (approx_token_count t) = int (approx_token_count t)"
proof -
  have "saturating_add (byte_len t) 3 div 4 \<le> usize_max div 4"
    using saturating_add_le [of "byte_len t" 3] by (rule div_le_mono)
  then have "approx_token_count t \<le> usize_max div 4"
    by (simp add: approx_token_count_def APPROX_BYTES_PER_TOKEN_def)
  then have "int (approx_token_count t) \<le> i64_max" by (simp add: usize_max_def i64_max_def)
  then show ?thesis by (simp add: i64_from_usize_def)
qed


end
