(* ===== verification/Context_Rollback.thy ===== *)
theory Context_Rollback
  imports Context_History_Laws
begin

text \<open>
  Rewriting the conversation history: a rollback by turns, the removal of the oldest item, and the revisions
  that tell readers what changed.
\<close>

section \<open>Turns and their positions\<close>

definition turns :: "(ustr \<Rightarrow> (ustr \<times> ustr) option) \<Rightarrow> (ustr \<Rightarrow> bool) \<Rightarrow> 'j envelope list \<Rightarrow> nat" where
  "turns from_xml inter_agent items =
     length (filter (\<lambda>e. is_user_turn_boundary from_xml inter_agent (envelope_item e)) items)"

lemma turns_simps [simp]:
  "turns from_xml inter_agent [] = 0"
  "turns from_xml inter_agent (e # es) =
     (if is_user_turn_boundary from_xml inter_agent (envelope_item e) then 1 else 0) + turns from_xml inter_agent es"
  "turns from_xml inter_agent (es @ fs) = turns from_xml inter_agent es + turns from_xml inter_agent fs"
  by (simp_all add: turns_def)

lemma length_positions_from:
  "length (user_message_positions_from from_xml inter_agent i items) = turns from_xml inter_agent items"
  by (induction items arbitrary: i) simp_all

lemma positions_from_nth:
  assumes "j < turns from_xml inter_agent items"
  shows "\<exists>before e after. items = before @ e # after \<and> turns from_xml inter_agent before = j \<and>
    is_user_turn_boundary from_xml inter_agent (envelope_item e) \<and>
    user_message_positions_from from_xml inter_agent i items ! j = i + length before"
  using assms
proof (induction items arbitrary: i j)
  case (Cons e es)
  show ?case
  proof (cases "is_user_turn_boundary from_xml inter_agent (envelope_item e)")
    case boundary: True
    show ?thesis
    proof (cases j)
      case 0
      with boundary show ?thesis by (intro exI [of _ "[]"] exI [of _ e] exI [of _ es]) simp
    next
      case (Suc j')
      with Cons.prems boundary have "j' < turns from_xml inter_agent es" by simp
      from Cons.IH [OF this, of "Suc i"] obtain before e' after where
        "es = before @ e' # after" "turns from_xml inter_agent before = j'"
        "is_user_turn_boundary from_xml inter_agent (envelope_item e')"
        "user_message_positions_from from_xml inter_agent (Suc i) es ! j' = Suc i + length before" by blast
      with Suc boundary show ?thesis by (intro exI [of _ "e # before"] exI [of _ e'] exI [of _ after]) simp
    qed
  next
    case False
    with Cons.prems have "j < turns from_xml inter_agent es" by simp
    from Cons.IH [OF this, of "Suc i"] obtain before e' after where
      "es = before @ e' # after" "turns from_xml inter_agent before = j"
      "is_user_turn_boundary from_xml inter_agent (envelope_item e')"
      "user_message_positions_from from_xml inter_agent (Suc i) es ! j = Suc i + length before" by blast
    with False show ?thesis by (intro exI [of _ "e # before"] exI [of _ e'] exI [of _ after]) simp
  qed
qed simp

lemma positions_from_ge: "p \<in> set (user_message_positions_from from_xml inter_agent i items) \<Longrightarrow> i \<le> p"
  by (induction items arbitrary: i) (auto split: if_splits dest: Suc_leD)

lemma positions_sorted:
  "j < turns from_xml inter_agent items \<Longrightarrow>
     hd (user_message_positions_from from_xml inter_agent i items) \<le>
     user_message_positions_from from_xml inter_agent i items ! j"
proof (induction items arbitrary: i)
  case (Cons e es)
  show ?case
  proof (cases "is_user_turn_boundary from_xml inter_agent (envelope_item e)")
    case True
    then have "user_message_positions_from from_xml inter_agent i (e # es) ! j
        \<in> set (user_message_positions_from from_xml inter_agent i (e # es))"
      using Cons.prems by (intro nth_mem) (simp add: length_positions_from)
    with True show ?thesis using positions_from_ge [of _ from_xml inter_agent i "e # es"] by simp
  next
    case False
    with Cons show ?thesis by simp
  qed
qed simp

section \<open>Trimming context updates\<close>

definition context_update :: "(ustr \<Rightarrow> (ustr \<times> ustr) option) \<Rightarrow> 'j response_item \<Rightarrow> bool" where
  "context_update from_xml item \<longleftrightarrow> is_trimmed_developer_message item \<or> is_contextual_user_message from_xml item"

lemma roles_differ:
  "str ''developer'' \<noteq> str ''user''" "str ''developer'' \<noteq> str ''assistant''" "str ''user'' \<noteq> str ''assistant''"
  by code_simp+

lemma context_update_no_boundary:
  "context_update from_xml item \<Longrightarrow> \<not> is_user_turn_boundary from_xml inter_agent item"
  using roles_differ by (cases item) (auto simp: context_update_def)

lemma developer_no_boundary: "is_developer_message item \<Longrightarrow> \<not> is_user_turn_boundary from_xml inter_agent item"
  using roles_differ by (cases item) auto

lemma trim_spec:
  assumes "trim_pre_turn_context_updates from_xml (before @ e # after) first_idx (length before) reference = (i, reference')"
    "first_idx \<le> length before"
  shows "\<exists>kept updates. before = kept @ updates \<and> i = length kept \<and> first_idx \<le> i \<and>
    list_all (\<lambda>c. context_update from_xml (envelope_item c)) updates"
  using assms
proof (induction before arbitrary: e after reference rule: rev_induct)
  case Nil
  then show ?case by simp
next
  case (snoc c before)
  have c: "(before @ c # e # after) ! length before = c" by simp
  show ?case
  proof (cases "first_idx < Suc (length before) \<and> context_update from_xml (envelope_item c)")
    case True
    then obtain reference'' where
      "trim_pre_turn_context_updates from_xml (before @ c # e # after) first_idx (length before) reference'' = (i, reference')"
      using snoc.prems(1) c by (auto simp: Let_def context_update_def split: if_splits)
    from snoc.IH [OF this] True obtain kept updates where
      "before = kept @ updates" "i = length kept" "first_idx \<le> i"
      "list_all (\<lambda>c. context_update from_xml (envelope_item c)) updates" by auto
    with True show ?thesis by (intro exI [of _ kept] exI [of _ "updates @ [c]"]) simp
  next
    case False
    then have "i = Suc (length before)"
      using snoc.prems(1) c by (auto simp: Let_def context_update_def split: if_splits)
    with snoc.prems(2) show ?thesis by (intro exI [of _ "before @ [c]"] exI [of _ "[]"]) simp
  qed
qed

section \<open>Rollback\<close>

lemma retained_item_developer:
  "retained_item turn_id e = Some e' \<Longrightarrow>
     (if is_developer_message (envelope_item e) then is_developer_message (envelope_item e') else e' = e)"
proof (cases "envelope_item e")
  case (Message i role content phase p)
  then show "retained_item turn_id e = Some e' \<Longrightarrow>
      (if is_developer_message (envelope_item e) then is_developer_message (envelope_item e') else e' = e)"
    by (auto simp: retained_item_def Let_def split: if_splits)
qed (auto simp: retained_item_def)

lemma retained_non_developers:
  "filter (\<lambda>e. \<not> is_developer_message (envelope_item e)) (List.map_filter (retained_item turn_id) items) =
     filter (\<lambda>e. \<not> is_developer_message (envelope_item e)) items"
proof (induction items)
  case (Cons e es)
  have "\<not> is_developer_message (envelope_item e) \<Longrightarrow> retained_item turn_id e = Some e"
    by (simp add: retained_item_def)
  with Cons retained_item_developer [of turn_id e] show ?case
    by (cases "retained_item turn_id e"; cases "is_developer_message (envelope_item e)") (auto simp: List.map_filter_def)
qed (simp add: List.map_filter_def)

lemma turns_non_developers:
  "turns from_xml inter_agent items =
     turns from_xml inter_agent (filter (\<lambda>e. \<not> is_developer_message (envelope_item e)) items)"
  by (induction items) (auto simp: developer_no_boundary)

lemma turns_retained:
  "turns from_xml inter_agent (List.map_filter (retained_item turn_id) items) = turns from_xml inter_agent items"
  by (metis retained_non_developers turns_non_developers)

lemma turns_updates:
  "list_all (\<lambda>c. context_update from_xml (envelope_item c)) updates \<Longrightarrow> turns from_xml inter_agent updates = 0"
  by (induction updates) (simp_all add: context_update_no_boundary)

text \<open>What a rollback leaves: the items up to the first dropped turn without the context updates directly before
  it, where only developer messages may have lost parts.\<close>

definition rolled_back ::
  "(ustr \<Rightarrow> (ustr \<times> ustr) option) \<Rightarrow> (ustr \<Rightarrow> bool) \<Rightarrow> nat \<Rightarrow> 'j envelope list \<Rightarrow> 'j envelope list \<Rightarrow> bool" where
  "rolled_back from_xml inter_agent n items items' \<longleftrightarrow>
     (\<exists>kept updates dropped. items = kept @ updates @ dropped \<and>
        list_all (\<lambda>e. context_update from_xml (envelope_item e)) updates \<and>
        (dropped = [] \<or> is_user_turn_boundary from_xml inter_agent (envelope_item (hd dropped))) \<and>
        turns from_xml inter_agent dropped = min n (turns from_xml inter_agent items) \<and>
        filter (\<lambda>e. \<not> is_developer_message (envelope_item e)) items' =
          filter (\<lambda>e. \<not> is_developer_message (envelope_item e)) kept)"

lemma rolled_back_id: "n = 0 \<or> turns from_xml inter_agent items = 0 \<Longrightarrow> rolled_back from_xml inter_agent n items items"
  unfolding rolled_back_def by (intro exI [of _ items] exI [of _ "[]"]) auto

lemma rolled_back_turns:
  assumes "rolled_back from_xml inter_agent n items items'"
  shows "turns from_xml inter_agent items' = turns from_xml inter_agent items - n"
proof -
  obtain kept updates dropped where d: "items = kept @ updates @ dropped"
    "list_all (\<lambda>e. context_update from_xml (envelope_item e)) updates"
    "turns from_xml inter_agent dropped = min n (turns from_xml inter_agent items)"
    "filter (\<lambda>e. \<not> is_developer_message (envelope_item e)) items' =
      filter (\<lambda>e. \<not> is_developer_message (envelope_item e)) kept"
    using assms unfolding rolled_back_def by blast
  have "turns from_xml inter_agent items' = turns from_xml inter_agent kept"
    using d(4) turns_non_developers [of from_xml inter_agent items'] turns_non_developers [of from_xml inter_agent kept] by simp
  moreover have "turns from_xml inter_agent items = turns from_xml inter_agent kept + turns from_xml inter_agent dropped"
    using d(1) turns_updates [OF d(2)] by simp
  ultimately show ?thesis using d(3) by linarith
qed

lemma drop_last_n_items:
  assumes "n \<noteq> 0" "user_message_positions from_xml inter_agent (cm_items cm) = first_idx # ps"
    "(if length (first_idx # ps) \<le> n then first_idx else (first_idx # ps) ! (length (first_idx # ps) - n)) = c"
    "trim_pre_turn_context_updates from_xml (cm_items cm) first_idx c (reference_context_item cm) = (i, reference)"
  shows "cm_items (drop_last_n_user_turns from_xml inter_agent n cm) = take i (cm_items cm) \<or>
    (\<exists>turn_id. cm_items (drop_last_n_user_turns from_xml inter_agent n cm) =
       List.map_filter (retained_item turn_id) (take i (cm_items cm)))"
  unfolding drop_last_n_user_turns_def Let_def assms(2) list.case assms(3,4) prod.case
  using assms(1) by (auto simp: replace_annotated_def replace_compacted_def split: option.split)

lemma drop_last_n_rolls_back:
  "rolled_back from_xml inter_agent n (cm_items cm) (cm_items (drop_last_n_user_turns from_xml inter_agent n cm))"
proof (cases "n = 0 \<or> turns from_xml inter_agent (cm_items cm) = 0")
  case True
  then have "cm_items (drop_last_n_user_turns from_xml inter_agent n cm) = cm_items cm"
    using length_positions_from [of from_xml inter_agent 0 "cm_items cm"]
    by (auto simp: drop_last_n_user_turns_def user_message_positions_def replace_annotated_def replace_compacted_def
        Let_def split: list.split)
  with True show ?thesis by (metis rolled_back_id)
next
  case False
  let ?items = "cm_items cm" and ?k = "turns from_xml inter_agent (cm_items cm)"
  let ?ps = "user_message_positions from_xml inter_agent ?items"
  have len: "length ?ps = ?k" by (simp add: user_message_positions_def length_positions_from)
  then obtain first_idx ps where ps: "?ps = first_idx # ps" using False by (cases ?ps) auto
  define j where "j = ?k - n"
  have j: "j < ?k" using False by (simp add: j_def)
  have cut: "(if length ?ps \<le> n then first_idx else ?ps ! (length ?ps - n)) = ?ps ! j"
    using ps len by (simp add: j_def)
  obtain before e after where split: "?items = before @ e # after" "turns from_xml inter_agent before = j"
    "is_user_turn_boundary from_xml inter_agent (envelope_item e)" "?ps ! j = length before"
    using positions_from_nth [OF j, of 0] by (auto simp: user_message_positions_def)
  have first: "first_idx \<le> length before"
    using split(4) ps positions_sorted [of j from_xml inter_agent ?items 0] j len by (simp add: user_message_positions_def)
  obtain i reference where trim:
    "trim_pre_turn_context_updates from_xml ?items first_idx (length before) (reference_context_item cm) = (i, reference)"
    by fastforce
  obtain kept updates where kept: "before = kept @ updates" "i = length kept"
    "list_all (\<lambda>c. context_update from_xml (envelope_item c)) updates"
    using trim_spec [OF trim [unfolded split(1)] first] by blast
  obtain items' where items': "cm_items (drop_last_n_user_turns from_xml inter_agent n cm) = items'"
    "items' = kept \<or> (\<exists>turn_id. items' = List.map_filter (retained_item turn_id) kept)"
    using drop_last_n_items [OF _ ps cut [unfolded ps split(4) [unfolded ps]] trim] False kept(1,2) split(1) by auto
  have "filter (\<lambda>e. \<not> is_developer_message (envelope_item e)) items' =
      filter (\<lambda>e. \<not> is_developer_message (envelope_item e)) kept"
    using items'(2) retained_non_developers by metis
  moreover have "turns from_xml inter_agent (e # after) = min n ?k"
    using split(1,2) by (simp add: j_def)
  ultimately show ?thesis
    unfolding rolled_back_def items'(1)
    using split(1,3) kept(1,3) by (intro exI [of _ kept] exI [of _ updates] exI [of _ "e # after"]) simp
qed


text \<open>A history without turns is left alone by a rollback, but counts as rewritten.\<close>

lemma rollback_without_turns:
  assumes "turns from_xml inter_agent (cm_items cm) = 0" "0 < n"
  shows "drop_last_n_user_turns from_xml inter_agent n cm = replace_annotated (cm_items cm) cm"
  using assms length_positions_from [of from_xml inter_agent 0 "cm_items cm"]
  by (auto simp: drop_last_n_user_turns_def user_message_positions_def Let_def split: list.split)

section \<open>Removing the oldest item\<close>

definition call_keys :: "'j envelope list \<Rightarrow> (call_kind \<times> ustr) list" where
  "call_keys items = List.map_filter (\<lambda>e. call_key (envelope_item e)) items"

definition output_keys :: "'j envelope list \<Rightarrow> (call_kind \<times> ustr) list" where
  "output_keys items = List.map_filter (\<lambda>e. output_key (envelope_item e)) items"

definition well_paired :: "'j envelope list \<Rightarrow> bool" where
  "well_paired items \<longleftrightarrow> paired items \<and> distinct (call_keys items) \<and> distinct (output_keys items)"

lemma keys_simps [simp]:
  "call_keys [] = []" "output_keys [] = []"
  "call_keys (e # es) = (case call_key (envelope_item e) of None \<Rightarrow> call_keys es | Some k \<Rightarrow> k # call_keys es)"
  "output_keys (e # es) = (case output_key (envelope_item e) of None \<Rightarrow> output_keys es | Some k \<Rightarrow> k # output_keys es)"
  by (simp_all add: call_keys_def output_keys_def List.map_filter_def split: option.split)

lemma set_keys: "set (call_keys items) = calls items" "set (output_keys items) = outputs items"
  by (force simp: call_keys_def output_keys_def calls_def outputs_def List.map_filter_def)+

lemma key_sets_Cons:
  "calls (e # es) = set_option (call_key (envelope_item e)) \<union> calls es"
  "outputs (e # es) = set_option (output_key (envelope_item e)) \<union> outputs es"
  "due_outputs (e # es) = (if server_output (envelope_item e) then {} else set_option (output_key (envelope_item e))) \<union> due_outputs es"
  by (force simp: calls_def outputs_def due_outputs_def)+

lemma key_sets_Nil [simp]: "calls [] = {}" "outputs [] = {}" "due_outputs [] = {}"
  by (simp_all add: calls_def outputs_def due_outputs_def)

lemma due_outputs_subset: "due_outputs items \<subseteq> outputs items"
  by (auto simp: due_outputs_def outputs_def)

lemma one_key: "call_key item = Some k \<Longrightarrow> output_key item = None" "output_key item = Some k \<Longrightarrow> call_key item = None"
  by (cases item; auto simp: item_keys split: option.splits)+

text \<open>Removing the item with a given key from items with distinct keys.\<close>

lemma remove_output_keys:
  assumes "distinct (output_keys items)"
  shows "outputs (remove_first_matching (\<lambda>i. output_key i = Some k) items) = outputs items - {k}"
    "due_outputs (remove_first_matching (\<lambda>i. output_key i = Some k) items) = due_outputs items - {k}"
    "call_keys (remove_first_matching (\<lambda>i. output_key i = Some k) items) = call_keys items"
    "distinct (output_keys (remove_first_matching (\<lambda>i. output_key i = Some k) items))"
  using assms
proof (induction items)
  case (Cons e es)
  note sub = due_outputs_subset [of es] and keys = set_keys [of es]
  { case 1 then show ?case using Cons.IH(1) keys by (auto simp: key_sets_Cons split: option.splits) }
  { case 2 then show ?case using Cons.IH(2) keys sub by (auto simp: key_sets_Cons split: option.splits if_splits) }
  { case 3 then show ?case using Cons.IH(3) by (auto split: option.splits dest: one_key) }
  { case 4
    then show ?case
      using Cons.IH(1,4) keys set_keys(2) [of "remove_first_matching (\<lambda>i. output_key i = Some k) es"]
      by (auto split: option.splits) }
qed simp_all

lemma remove_call_keys:
  assumes "distinct (call_keys items)"
  shows "calls (remove_first_matching (\<lambda>i. call_key i = Some k) items) = calls items - {k}"
    "output_keys (remove_first_matching (\<lambda>i. call_key i = Some k) items) = output_keys items"
    "due_outputs (remove_first_matching (\<lambda>i. call_key i = Some k) items) = due_outputs items"
    "distinct (call_keys (remove_first_matching (\<lambda>i. call_key i = Some k) items))"
  using assms
proof (induction items)
  case (Cons e es)
  note keys = set_keys [of es]
  { case 1 then show ?case using Cons.IH(1) keys by (auto simp: key_sets_Cons split: option.splits) }
  { case 2 then show ?case using Cons.IH(2) by (auto split: option.splits dest: one_key) }
  { case 3
    show ?case
    proof (cases "call_key (envelope_item e) = Some k")
      case True
      then show ?thesis using one_key(1) [OF True] by (simp add: key_sets_Cons)
    next
      case False
      from 3 have "distinct (call_keys es)" by (auto split: option.splits)
      with False Cons.IH(3) show ?thesis by (simp add: key_sets_Cons)
    qed }
  { case 4
    then show ?case
      using Cons.IH(1,4) keys set_keys(1) [of "remove_first_matching (\<lambda>i. call_key i = Some k) es"]
      by (auto split: option.splits) }
qed simp_all

lemma well_paired_without_output:
  assumes "well_paired (e # es)" "call_key (envelope_item e) = Some k"
  shows "well_paired (remove_first_matching (\<lambda>i. output_key i = Some k) es)"
proof -
  have d: "distinct (output_keys es)" "distinct (call_keys es)" "k \<notin> calls es"
    using assms set_keys(1) [of es] one_key(1) [OF assms(2)] by (auto simp: well_paired_def)
  have "calls es \<subseteq> outputs es" "due_outputs es \<subseteq> insert k (calls es)"
    using assms one_key(1) [OF assms(2)] by (auto simp: well_paired_def paired_def key_sets_Cons)
  moreover have "calls (remove_first_matching (\<lambda>i. output_key i = Some k) es) = calls es"
    using remove_output_keys(3) [OF d(1), of k] set_keys(1) by metis
  ultimately show ?thesis
    using d remove_output_keys [OF d(1), of k] by (auto simp: well_paired_def paired_def)
qed

lemma well_paired_without_call:
  assumes "well_paired (e # es)" "output_key (envelope_item e) = Some k"
  shows "well_paired (remove_first_matching (\<lambda>i. call_key i = Some k) es)"
proof -
  have d: "distinct (output_keys es)" "distinct (call_keys es)" "k \<notin> outputs es"
    using assms set_keys(2) [of es] one_key(2) [OF assms(2)] by (auto simp: well_paired_def)
  have "calls es \<subseteq> insert k (outputs es)" "due_outputs es \<subseteq> calls es"
    using assms one_key(2) [OF assms(2)] by (auto simp: well_paired_def paired_def key_sets_Cons split: if_splits)
  moreover have "outputs (remove_first_matching (\<lambda>i. call_key i = Some k) es) = outputs es"
    using remove_call_keys(2) [OF d(2), of k] set_keys(2) by metis
  ultimately show ?thesis
    using d remove_call_keys [OF d(2), of k] due_outputs_subset [of es] by (auto simp: well_paired_def paired_def)
qed

lemma remove_first_matching_cong:
  "(\<And>e. e \<in> set items \<Longrightarrow> P (envelope_item e) \<longleftrightarrow> Q (envelope_item e)) \<Longrightarrow>
     remove_first_matching P items = remove_first_matching Q items"
  by (induction items) auto

lemma function_or_shell_call:
  "call_key item = Some (FunctionKind, c) \<longleftrightarrow> is_function_call_of c item \<or> is_local_shell_call_of c item"
  by (cases item) (auto simp: item_keys split: option.splits)

lemma distinct_call_keysD:
  "distinct (call_keys items) \<Longrightarrow> e \<in> set items \<Longrightarrow> e' \<in> set items \<Longrightarrow>
     call_key (envelope_item e) = Some k \<Longrightarrow> call_key (envelope_item e') = Some k \<Longrightarrow> e = e'"
proof (induction items)
  case (Cons x xs)
  have "call_key (envelope_item x) = Some k \<Longrightarrow> y \<in> set xs \<Longrightarrow> call_key (envelope_item y) \<noteq> Some k" for y
    using Cons.prems(1) set_keys(1) [of xs] by (auto simp: calls_def)
  with Cons show ?case by (auto split: option.splits)
qed simp

lemma not_both: "is_function_call_of c item \<Longrightarrow> \<not> is_local_shell_call_of c item"
  by (cases item) auto

text \<open>With distinct keys, the counterpart that is removed is the item of the same key.\<close>

lemma remove_corresponding_output:
  assumes "call_key item = Some k"
  shows "remove_corresponding_for items item = remove_first_matching (\<lambda>i. output_key i = Some k) items"
  using assms by (cases "(items, item)" rule: remove_corresponding_for.cases) (simp_all add: call_key_def output_ids)

lemma remove_function_call:
  assumes "distinct (call_keys items)"
  shows "(if list_ex (\<lambda>e. is_function_call_of c (envelope_item e)) items
          then remove_first_matching (is_function_call_of c) items
          else if list_ex (\<lambda>e. is_local_shell_call_of c (envelope_item e)) items
          then remove_first_matching (is_local_shell_call_of c) items
          else items) = remove_first_matching (\<lambda>i. call_key i = Some (FunctionKind, c)) items"
proof -
  consider e where "e \<in> set items" "is_function_call_of c (envelope_item e)"
    | "\<not> list_ex (\<lambda>e. is_function_call_of c (envelope_item e)) items" by (auto simp: list_ex_iff)
  then show ?thesis
  proof cases
    case 1
    have "\<not> is_local_shell_call_of c (envelope_item e')" if e': "e' \<in> set items" for e'
    proof
      assume shell: "is_local_shell_call_of c (envelope_item e')"
      with 1(2) have "e = e'"
        using distinct_call_keysD [OF assms 1(1) e', of "(FunctionKind, c)"] by (simp add: function_or_shell_call)
      with not_both [OF 1(2)] shell show False by simp
    qed
    then have "remove_first_matching (is_function_call_of c) items =
        remove_first_matching (\<lambda>i. call_key i = Some (FunctionKind, c)) items"
      by (intro remove_first_matching_cong) (auto simp: function_or_shell_call)
    with 1 show ?thesis by (auto simp: list_ex_iff)
  next
    case 2
    then have "remove_first_matching (is_local_shell_call_of c) items =
        remove_first_matching (\<lambda>i. call_key i = Some (FunctionKind, c)) items"
      by (intro remove_first_matching_cong) (auto simp: function_or_shell_call list_ex_iff)
    moreover have "remove_first_matching P items = items" if "\<not> list_ex (\<lambda>e. P (envelope_item e)) items" for P
      using that by (induction items) auto
    ultimately show ?thesis using 2 by auto
  qed
qed

lemma remove_corresponding_call:
  assumes "output_key item = Some k" "distinct (call_keys items)"
  shows "remove_corresponding_for items item = remove_first_matching (\<lambda>i. call_key i = Some k) items"
  using assms(1)
proof (cases "(items, item)" rule: remove_corresponding_for.cases)
  case (2 items' i c name namespace out p)
  then have "k = (FunctionKind, c)" "item = FunctionCallOutput i (Some c) name namespace out p"
    using assms(1) by (simp_all add: output_key_def)
  with remove_function_call [OF assms(2), of c] show ?thesis by (simp only: remove_corresponding_for.simps)
qed (simp_all add: output_key_def call_ids)

lemma remove_corresponding_other:
  "call_key item = None \<Longrightarrow> output_key item = None \<Longrightarrow> remove_corresponding_for items item = items"
  by (cases "(items, item)" rule: remove_corresponding_for.cases) (simp_all add: item_keys)

lemma well_paired_tail:
  assumes "well_paired (e # es)" "call_key (envelope_item e) = None" "output_key (envelope_item e) = None"
  shows "well_paired es"
  using assms by (auto simp: well_paired_def paired_def key_sets_Cons)

lemma remove_first_item_well_paired:
  assumes "well_paired (cm_items cm)"
  shows "well_paired (cm_items (remove_first_item cm))"
proof (cases "cm_items cm")
  case (Cons e es)
  have wp: "well_paired (e # es)" and d: "distinct (call_keys es)"
    using assms Cons by (auto simp: well_paired_def split: option.splits)
  consider k where "call_key (envelope_item e) = Some k" | k where "output_key (envelope_item e) = Some k"
    | "call_key (envelope_item e) = None" "output_key (envelope_item e) = None" by (metis option.exhaust)
  then have "well_paired (remove_corresponding_for es (envelope_item e))"
  proof cases
    case (1 k)
    then show ?thesis using well_paired_without_output [OF wp 1] by (simp add: remove_corresponding_output)
  next
    case (2 k)
    then show ?thesis using well_paired_without_call [OF wp 2] by (simp add: remove_corresponding_call d)
  next
    case 3
    then show ?thesis using well_paired_tail [OF wp] by (simp add: remove_corresponding_other)
  qed
  with Cons show ?thesis by (simp add: remove_first_item_def)
qed (use assms in \<open>simp add: remove_first_item_def\<close>)

text \<open>C34. Removing the oldest item with its counterpart keeps calls and outputs paired: when every call has its
  output, every output its call, and no two calls and no two outputs share an id, the same holds after.\<close>

theorem remove_first_item_keeps_pairs:
  assumes "well_paired (cm_items cm)"
  shows "well_paired (cm_items (remove_first_item cm))"
  using assms by (rule remove_first_item_well_paired)

lemma length_remove_corresponding: "length (remove_corresponding_for items item) \<le> length items"
proof -
  have "length (remove_first_matching P items) \<le> length items" for P by (induction items) auto
  then show ?thesis by (cases "(items, item)" rule: remove_corresponding_for.cases) auto
qed


end
