(* ===== verification/Context_Examples.thy ===== *)
theory Context_Examples
  imports Context_Rollback
begin

text \<open>Concrete conversations that meet the hypotheses of the theorems on tool responses and the history.\<close>

text \<open>The arithmetic of doubles: no time at all, 1.25 seconds, and the serialization allowance of a
  budget.\<close>

lemma seconds_examples:
  "format_f64_4 (as_secs_f64 0) = str ''0.0000''" "format_f64_4 (as_secs_f64 1250000000) = str ''1.2500''"
proof -
  have r: "round_to_53_bits 0 = 0" "round_to_53_bits 1 = 1" "round_to_53_bits (2 ^ 99) = 2 ^ 99"
    using round_exact [of 0 0] round_exact [of 1 0] round_exact [of 1 99] by simp_all
  have "as_secs_f64 0 = 0" unfolding as_secs_f64_def Let_def by (simp add: r)
  moreover have "format_f64_4 0 = str ''0.0000''"
    unfolding format_f64_4_def Let_def by (simp add: nat_str.simps str_def numeral_3_eq_3)
  ultimately show "format_f64_4 (as_secs_f64 0) = str ''0.0000''" by simp
  have "round_to_53_bits (5 * 2 ^ 99) = 5 * 2 ^ 99" by (rule round_exact) simp
  then have "as_secs_f64 1250000000 = 5 * 2 ^ 99"
    using r unfolding as_secs_f64_def Let_def NANOS_PER_SEC_def by simp
  moreover have "format_f64_4 (5 * 2 ^ 99) = str ''1.2500''"
    unfolding format_f64_4_def Let_def by (simp add: nat_str.simps str_def)
  ultimately show "format_f64_4 (as_secs_f64 1250000000) = str ''1.2500''" by simp
qed

lemma allowance_example: "scale_ceil SERIALIZATION_ALLOWANCE 400 = 480"
proof -
  have "excess_bits 2161727821137838000 = 8" by (simp add: excess_bits.simps)
  then have "round_to_53_bits 2161727821137838000 = 2161727821137838080"
    unfolding round_to_53_bits_def Let_def by simp
  moreover have "round_to_53_bits 400 = 400" using round_exact [of 400 0] by simp
  ultimately show ?thesis unfolding scale_ceil_def SERIALIZATION_ALLOWANCE_def by (simp add: usize_max_def)
qed

definition ls_output :: exec_output where
  "ls_output =
     \<lparr>event_call_id = [], chunk_id = str ''c1'', wall_time = 0, raw_output = [97, 255, 10],
      output_policy = Bytes 400, max_output_tokens = None, process_id = None, exit_code = Some 0,
      original_token_count = None, output_omitted_bytes = Some 7, hook_command = None\<rparr>"

lemma lossy_example: "from_utf8_lossy [97, 255, 10] = [97, REPLACEMENT_CHARACTER, LF]"
  by (simp add: from_utf8_lossy.simps utf8_decode.simps next_char_defs)

lemma ls_output_shown:
  "truncated_output_with_policy ls_output (model_output_policy ls_output) =
     Some (str ''... 7 bytes omitted ...'' @ [LF] @ [97, REPLACEMENT_CHARACTER, LF])"
proof -
  have "model_output_policy ls_output = Bytes 400" by code_simp
  moreover have "\<not> contains_str (format_output_omission_marker 7) [97, REPLACEMENT_CHARACTER, LF]"
    "byte_len [97, REPLACEMENT_CHARACTER, LF] \<le> 400" by code_simp+
  moreover have "format_output_omission_marker 7 = str ''... 7 bytes omitted ...''" by code_simp
  ultimately show ?thesis by (simp add: truncated_output_with_policy_def ls_output_def lossy_example)
qed

lemma ls_header:
  "response_header ls_output =
     str ''Chunk ID: c1'' @ [LF] @ str ''Wall time: 0.0000 seconds'' @ [LF] @ str ''Process exited with code 0'' @ [LF] @
       str ''Output:''"
proof -
  have "int_str 0 = str ''0''" by code_simp
  then show ?thesis unfolding response_header_def by (simp add: ls_output_def seconds_examples str_def)
qed

definition empty_ops :: "unit json_ops" where
  "empty_ops =
     \<lparr>parse_mcp_content = (\<lambda>_. None), json_to_string = (\<lambda>_. Inl []), json_display = (\<lambda>_. []),
      json_get = (\<lambda>_ _. None), json_as_bool = (\<lambda>_. None), json_as_str = (\<lambda>_. None), json_is_null = (\<lambda>_. True),
      json_array = (\<lambda>_. ()), json_string = (\<lambda>_. ())\<rparr>"

definition empty_history :: "(unit, unit, unit, unit) context_manager" where
  "empty_history = context_manager_new"


definition goal_fragment :: "unit user_fragment" where
  "goal_fragment = InternalModelContext (str ''goal'') (str ''finish'')"


definition answered_history :: "(unit, unit, unit, unit) context_manager" where
  "answered_history =
     empty_history\<lparr>cm_items :=
       [envelope_new (CustomToolCall None None (str ''k'') (str ''patch'') None [] None),
        envelope_new (Message None (str ''user'') [MessageInputText (str ''go on'')] None None),
        envelope_new (CustomToolCallOutput None (str ''k'') None aborted_payload None)]\<rparr>"

theorem remove_first_item_keeps_pairs_witness:
  "well_paired (cm_items answered_history) \<and> well_paired (cm_items (remove_first_item answered_history)) \<and>
   map envelope_item (cm_items (remove_first_item answered_history)) =
     [Message None (str ''user'') [MessageInputText (str ''go on'')] None None]"
proof -
  have wp: "well_paired (cm_items answered_history)"
    by (simp add: well_paired_def paired_def answered_history_def key_sets_Cons envelope_new_def item_keys)
  moreover have "map envelope_item (cm_items (remove_first_item answered_history)) =
      [Message None (str ''user'') [MessageInputText (str ''go on'')] None None]" by code_simp
  ultimately show ?thesis using remove_first_item_keeps_pairs [OF wp] by blast
qed

text \<open>A rollback of one turn also drops the environment context that was injected before it.\<close>

definition two_turns :: "(unit, unit, unit, unit) context_manager" where
  "two_turns =
     empty_history\<lparr>cm_items := map envelope_new
       [Message None (str ''user'') [MessageInputText (str ''first'')] None None,
        Message None (str ''assistant'') [OutputText (str ''done'')] None None,
        Message None (str ''user'') [MessageInputText (str ''<environment_context>x</environment_context>'')] None None,
        Message None (str ''user'') [MessageInputText (str ''second'')] None None]\<rparr>"

lemma two_turns_rolled_back:
  "raw_items (drop_last_n_user_turns (\<lambda>_. None) (\<lambda>_. False) 1 two_turns) =
     [Message None (str ''user'') [MessageInputText (str ''first'')] None None,
      Message None (str ''assistant'') [OutputText (str ''done'')] None None]"
  by code_simp

end
