(* ===== verification/Unix_Path.thy ===== *)
theory Unix_Path
  imports Text_Search
begin

text \<open>
  \<^verbatim>\<open>std::path::Path\<close> on Unix, as far as the command checks use it: the components of a path, its file
  name, its file stem, and equality, which compares components.
\<close>

datatype path_component = RootDir | CurDir | ParentDir | Normal ustr

text \<open>Repeated and trailing slashes and inner dots give no component; a leading dot does.\<close>

definition components :: "ustr \<Rightarrow> path_component list" where
  "components path =
     (let parts = split_on 47 path in
      (if starts_with [47] path then [RootDir] else if hd parts = [46] then [CurDir] else []) @
      map (\<lambda>part. if part = [46, 46] then ParentDir else Normal part)
        (filter (\<lambda>part. part \<noteq> [] \<and> part \<noteq> [46]) parts))"

definition path_eq :: "ustr \<Rightarrow> ustr \<Rightarrow> bool" where
  "path_eq p q \<longleftrightarrow> components p = components q"

definition file_name :: "ustr \<Rightarrow> ustr option" where
  "file_name path = (case rev (components path) of Normal name # _ \<Rightarrow> Some name | _ \<Rightarrow> None)"

text \<open>The components of \<^verbatim>\<open>Path::parent\<close>: none for a path that is empty or ends at the root.\<close>

definition parent_components :: "ustr \<Rightarrow> path_component list option" where
  "parent_components path =
     (case rev (components path) of
        [] \<Rightarrow> None
      | RootDir # _ \<Rightarrow> None
      | _ # before \<Rightarrow> Some (rev before))"

text \<open>The file name up to its last dot, the whole name when that would be empty.\<close>

definition file_stem :: "ustr \<Rightarrow> ustr option" where
  "file_stem path =
     map_option (\<lambda>name.
       case rsplit_once 46 name of
         Some (before, after) \<Rightarrow> if before = [] then name else before
       | None \<Rightarrow> name) (file_name path)"

lemma split_on_part: "part \<in> set (split_on d s) \<Longrightarrow> part = s \<or> length part < length s"
proof (induction d s arbitrary: part rule: split_on.induct)
  case (2 d c cs)
  show ?case
  proof (cases "c = d")
    case True
    with 2(3) have "part = [] \<or> part \<in> set (split_on d cs)" by simp
    with 2(1) [OF True, of part] show ?thesis by (auto simp: less_SucI)
  next
    case False
    obtain x xs where split: "split_on d cs = x # xs"
      by (cases cs; cases "split_on d cs") (auto split: list.splits if_splits)
    from 2(3) False split have "part = c # x \<or> part \<in> set xs" by auto
    with 2(2) [OF False, of x] 2(2) [OF False, of part] split show ?thesis by (auto simp: less_SucI)
  qed
qed simp

lemma file_name_part:
  assumes "file_name path = Some name" shows "name = path \<or> length name < length path"
proof -
  from assms have "Normal name \<in> set (rev (components path))"
    by (auto simp: file_name_def split: list.splits path_component.splits)
  then have "name \<in> set (split_on 47 path)"
    by (auto simp: components_def Let_def split: if_splits)
  then show ?thesis by (rule split_on_part)
qed

lemma split_once_lengths: "split_once d s = Some (a, b) \<Longrightarrow> Suc (length a + length b) = length s"
  by (induction d s arbitrary: a b rule: split_once.induct) (auto split: if_splits option.splits)

lemma rsplit_once_shorter: "rsplit_once d s = Some (a, b) \<Longrightarrow> length a < length s"
  by (auto simp: rsplit_once_def dest!: split_once_lengths)

text \<open>A file stem that differs from the path is shorter than it.\<close>

lemma file_stem_shorter:
  assumes "file_stem path = Some stem" "\<not> path_eq stem path"
  shows "length stem < length path"
proof -
  from assms(1) obtain name where name: "file_name path = Some name"
    and stem: "stem = (case rsplit_once 46 name of Some (a, b) \<Rightarrow> if a = [] then name else a | None \<Rightarrow> name)"
    by (auto simp: file_stem_def)
  then have "stem = name \<or> length stem < length name"
    using rsplit_once_shorter [of 46 name] by (auto split: option.splits if_splits)
  with file_name_part [OF name] assms(2) show ?thesis by (auto simp: path_eq_def)
qed

end
