(* ===== verification/Shell_Parse.thy ===== *)
theory Shell_Parse
  imports Unix_Path "HOL-Library.Multiset"
begin

text \<open>
  Shell scripts as the command checks see them: \<^verbatim>\<open>codex-rs/shell-command/src/bash.rs\<close> and
  \<^verbatim>\<open>detect_shell_type\<close> of \<^verbatim>\<open>shell_detect.rs\<close>. The tree-sitter parser is a parameter, a function from the
  script to a syntax tree. A node carries what the code asks of it: its kind, whether it is named, where
  it starts, its text (or that the text is not UTF-8) and its children.
\<close>

section \<open>Shells\<close>

datatype shell_type = Zsh | Bash | PowerShell | Sh | Cmd

function detect_shell_type :: "ustr \<Rightarrow> shell_type option" where
  "detect_shell_type shell_path =
     (if shell_path = str ''zsh'' then Some Zsh
      else if shell_path = str ''sh'' then Some Sh
      else if shell_path = str ''cmd'' then Some Cmd
      else if shell_path = str ''bash'' then Some Bash
      else if shell_path = str ''pwsh'' then Some PowerShell
      else if shell_path = str ''powershell'' then Some PowerShell
      else
        (case file_stem shell_path of
           Some shell_name \<Rightarrow> if \<not> path_eq shell_name shell_path then detect_shell_type shell_name else None
         | None \<Rightarrow> None))"
  by pat_completeness auto
termination by (relation "measure length") (simp_all add: file_stem_shorter)

declare detect_shell_type.simps [simp del]

section \<open>Syntax trees\<close>

datatype node = Node
  (node_kind: ustr) (is_named: bool) (start_byte: nat) (utf8_text: "ustr option") (children: "node list")

record tree =
  root_node :: node
  has_error :: bool

type_synonym shell_parser = "ustr \<Rightarrow> tree option"

definition named_children :: "node \<Rightarrow> node list" where
  "named_children n = filter is_named (children n)"

lemma children_smaller: "c \<in> set (children n) \<Longrightarrow> size c < size n"
  by (cases n) (auto simp: less_Suc_eq_le dest: size_list_estimation' [where f = size, OF _ order_refl])

lemma named_children_smaller [termination_simp]: "c \<in> set (named_children n) \<Longrightarrow> size c < size n"
  by (simp add: named_children_def children_smaller)

section \<open>Words\<close>

definition expansion_chars :: "uchar list" where
  "expansion_chars = str ''{}*?[]'' @ [92] @ str ''~^#$`''"

definition is_literal_word_or_number :: "node \<Rightarrow> bool" where
  "is_literal_word_or_number n \<longleftrightarrow>
     node_kind n \<in> {str ''word'', str ''number''} \<and> named_children n = [] \<and>
     (case utf8_text n of
        Some word \<Rightarrow> \<not> starts_with [61] word \<and> \<not> list_ex (\<lambda>c. c \<in> set expansion_chars) word
      | None \<Rightarrow> False)"

text \<open>A backslash before a character that it escapes inside double quotes.\<close>

fun has_quoted_escape :: "ustr \<Rightarrow> bool" where
  "has_quoted_escape (a # b # s) \<longleftrightarrow> a = 92 \<and> b \<in> {36, 96, 34, 92, LF} \<or> has_quoted_escape (b # s)"
| "has_quoted_escape _ \<longleftrightarrow> False"

definition parse_double_quoted_string :: "node \<Rightarrow> ustr option" where
  "parse_double_quoted_string n =
     (if node_kind n \<noteq> str ''string'' then None
      else if list_ex (\<lambda>part. node_kind part \<noteq> str ''string_content'') (named_children n) then None
      else Option.bind (utf8_text n) (\<lambda>raw.
        Option.bind (Option.bind (strip_prefix [34] raw) (strip_suffix [34])) (\<lambda>stripped.
          if has_quoted_escape stripped then None else Some stripped)))"

definition parse_raw_string :: "node \<Rightarrow> ustr option" where
  "parse_raw_string n =
     (if node_kind n \<noteq> str ''raw_string'' then None
      else Option.bind (utf8_text n) (\<lambda>raw. Option.bind (strip_prefix [39] raw) (strip_suffix [39])))"

function parse_literal_shell_word :: "node \<Rightarrow> ustr option" where
  "parse_literal_shell_word n =
     (if node_kind n \<in> {str ''word'', str ''number''} \<and> is_literal_word_or_number n then utf8_text n
      else if node_kind n = str ''string'' then parse_double_quoted_string n
      else if node_kind n = str ''raw_string'' then parse_raw_string n
      else if node_kind n = str ''concatenation'' then
        Option.bind (those (map parse_literal_shell_word (named_children n))) (\<lambda>parts.
          if concat parts \<noteq> [] then Some (concat parts) else None)
      else None)"
  by pat_completeness auto
termination by (relation "measure size") (simp_all add: named_children_smaller)

declare parse_literal_shell_word.simps [simp del]

section \<open>Commands\<close>

text \<open>A part of a concatenation, and a child of a command, in a script of plain commands.\<close>

definition plain_part :: "node \<Rightarrow> ustr option" where
  "plain_part part =
     (if node_kind part \<in> {str ''word'', str ''number''} then utf8_text part
      else if node_kind part = str ''string'' then parse_double_quoted_string part
      else if node_kind part = str ''raw_string'' then parse_raw_string part
      else None)"

definition plain_word :: "node \<Rightarrow> ustr option" where
  "plain_word child =
     (if node_kind child = str ''command_name'' then
        (case named_children child of
           [] \<Rightarrow> None
         | word_node # _ \<Rightarrow> if node_kind word_node \<noteq> str ''word'' then None else utf8_text word_node)
      else if node_kind child \<in> {str ''word'', str ''number''} then utf8_text child
      else if node_kind child = str ''string'' then parse_double_quoted_string child
      else if node_kind child = str ''raw_string'' then parse_raw_string child
      else if node_kind child = str ''concatenation'' then
        Option.bind (those (map plain_part (named_children child))) (\<lambda>parts.
          if concat parts = [] then None else Some (concat parts))
      else None)"

definition parse_plain_command_from_node :: "node \<Rightarrow> ustr list option" where
  "parse_plain_command_from_node cmd =
     (if node_kind cmd \<noteq> str ''command'' then None else those (map plain_word (named_children cmd)))"

fun literal_words :: "node list \<Rightarrow> bool \<Rightarrow> ustr list \<Rightarrow> ustr list option" where
  "literal_words [] found_command_name words = (if found_command_name then Some words else None)"
| "literal_words (child # rest) found_command_name words =
     (if node_kind child = str ''command_name'' then
        (case named_children child of
           [] \<Rightarrow> None
         | first # _ \<Rightarrow>
             Option.bind (parse_literal_shell_word first) (\<lambda>command_name.
               literal_words rest True (words @ [command_name])))
      else if found_command_name then
        (case parse_literal_shell_word child of
           Some word \<Rightarrow> literal_words rest True (words @ [word])
         | None \<Rightarrow> literal_words rest True words)
      else literal_words rest False words)"

definition parse_literal_command_from_node :: "node \<Rightarrow> ustr list option" where
  "parse_literal_command_from_node cmd =
     (if node_kind cmd \<noteq> str ''command'' then None else literal_words (named_children cmd) False [])"

section \<open>Scripts\<close>

definition ALLOWED_KINDS :: "ustr list" where
  "ALLOWED_KINDS = [str ''program'', str ''list'', str ''pipeline'', str ''command'', str ''command_name'',
     str ''word'', str ''string'', str ''string_content'', str ''raw_string'', str ''number'',
     str ''concatenation'']"

definition ALLOWED_PUNCT_TOKENS :: "ustr list" where
  "ALLOWED_PUNCT_TOKENS = [str ''&&'', str ''||'', str '';'', str ''|'', [34], [39]]"

definition node_allowed :: "node \<Rightarrow> bool" where
  "node_allowed n \<longleftrightarrow>
     (let kind = node_kind n in
      if is_named n then
        kind \<in> set ALLOWED_KINDS \<and>
        \<not> (kind \<in> {str ''word'', str ''number''} \<and> \<not> is_literal_word_or_number n)
      else
        \<not> (list_ex (\<lambda>c. c \<in> set (str ''&;|'')) kind \<and> kind \<notin> set ALLOWED_PUNCT_TOKENS) \<and>
        (kind \<in> set ALLOWED_PUNCT_TOKENS \<or> trim kind = []))"

definition is_command_node :: "node \<Rightarrow> bool" where
  "is_command_node n \<longleftrightarrow> is_named n \<and> node_kind n = str ''command''"

text \<open>The loop over a stack of nodes; the top of the stack is the head of the list, so the last child
  is visited first.\<close>

lemma size_list_rev [simp]: "size_list f (rev xs) = size_list f xs"
  by (induction xs) simp_all

lemma stack_smaller: "size_list size (rev (children n) @ stack) < size_list size (n # stack)"
  by (cases n) simp

function word_only_walk :: "node list \<Rightarrow> node list \<Rightarrow> node list option" where
  "word_only_walk [] command_nodes = Some command_nodes"
| "word_only_walk (n # stack) command_nodes =
     (if \<not> node_allowed n then None
      else word_only_walk (rev (children n) @ stack)
        (if is_command_node n then command_nodes @ [n] else command_nodes))"
  by pat_completeness auto
termination by (relation "measure (\<lambda>(stack, _). size_list size stack)") (simp_all only: in_measure split wf_measure stack_smaller)

definition try_parse_word_only_commands_sequence :: "tree \<Rightarrow> ustr list list option" where
  "try_parse_word_only_commands_sequence t =
     (if has_error t then None
      else Option.bind (word_only_walk [root_node t] []) (\<lambda>command_nodes.
        those (map parse_plain_command_from_node (sort_key start_byte command_nodes))))"

definition parse_shell_script_into_commands :: "shell_parser \<Rightarrow> ustr \<Rightarrow> ustr list list option" where
  "parse_shell_script_into_commands B script = Option.bind (B script) try_parse_word_only_commands_sequence"

definition extract_bash_command :: "ustr list \<Rightarrow> (ustr \<times> ustr) option" where
  "extract_bash_command command =
     (case command of
        [shell, flag, script] \<Rightarrow>
          if flag \<notin> {str ''-lc'', str ''-c''} \<or> detect_shell_type shell \<notin> {Some Zsh, Some Bash, Some Sh} then None
          else Some (shell, script)
      | _ \<Rightarrow> None)"

definition parse_shell_lc_plain_commands :: "shell_parser \<Rightarrow> ustr list \<Rightarrow> ustr list list option" where
  "parse_shell_lc_plain_commands B command =
     Option.bind (extract_bash_command command) (\<lambda>(shell, script). parse_shell_script_into_commands B script)"

lemma named_stack_smaller: "size_list size (rev (named_children n) @ stack) < size_list size (n # stack)"
proof -
  have "size_list size (filter P ns) \<le> size_list size ns" for P and ns :: "node list"
    by (induction ns) auto
  from this [of is_named "children n"] have "size_list size (rev (named_children n)) \<le> size_list size (children n)"
    by (simp add: named_children_def)
  then show ?thesis by (cases n) (simp add: named_children_def)
qed

function literal_walk :: "node list \<Rightarrow> ustr list list \<Rightarrow> ustr list list" where
  "literal_walk [] commands = commands"
| "literal_walk (n # stack) commands =
     literal_walk (rev (named_children n) @ stack)
       (case parse_literal_command_from_node n of
          Some command \<Rightarrow> commands @ [command]
        | None \<Rightarrow> commands)"
  by pat_completeness auto
termination by (relation "measure (\<lambda>(stack, _). size_list size stack)") (simp_all only: in_measure split wf_measure named_stack_smaller)

definition parse_shell_lc_literal_commands :: "shell_parser \<Rightarrow> ustr list \<Rightarrow> ustr list list option" where
  "parse_shell_lc_literal_commands B command =
     Option.bind (extract_bash_command command) (\<lambda>(shell, script).
     Option.bind (B script) (\<lambda>t.
       if has_error t then None else Some (literal_walk [root_node t] [])))"

end
