(* ===== verification/Shell_Parse_Laws.thy ===== *)
theory Shell_Parse_Laws
  imports Shell_Parse
begin

text \<open>
  What the script parsers promise. The walk over the stack of nodes is a traversal of the tree; a word
  that is accepted is one the shell passes on as it is written; and the strict parser, which decides what
  may run, finds no command that the lenient one, which looks for danger, does not find.
\<close>

section \<open>The walks\<close>

fun visit_order :: "node \<Rightarrow> node list" where
  "visit_order (Node k nm s t cs) = Node k nm s t cs # concat (map visit_order (rev cs))"

lemma visit_order_eq: "visit_order n = n # concat (map visit_order (rev (children n)))"
  by (cases n) simp

lemma word_only_walk_eq:
  "word_only_walk stack acc =
     (let ns = concat (map visit_order stack) in
      if list_all node_allowed ns then Some (acc @ filter is_command_node ns) else None)"
proof (induction stack acc rule: word_only_walk.induct)
  case (2 n stack acc)
  then show ?case
    by (cases "node_allowed n") (simp_all add: visit_order_eq [of n] Let_def)
qed simp

lemma visit_order_self [simp]: "n \<in> set (visit_order n)"
  by (cases n) simp

lemma visit_order_child: "c \<in> set (children n) \<Longrightarrow> set (visit_order c) \<subseteq> set (visit_order n)"
  by (cases n) auto

lemma visit_order_trans: "m \<in> set (visit_order n) \<Longrightarrow> set (visit_order m) \<subseteq> set (visit_order n)"
proof (induction n arbitrary: m rule: visit_order.induct)
  case (1 k nm s t cs)
  show ?case
  proof (cases "m = Node k nm s t cs")
    case False
    with 1(2) obtain c where c: "c \<in> set cs" "m \<in> set (visit_order c)" by auto
    with 1(1) [of c m] visit_order_child [of c "Node k nm s t cs"] show ?thesis by auto
  qed simp
qed

text \<open>In a syntax tree the anonymous nodes are leaves.\<close>

definition anonymous_leaf :: "node \<Rightarrow> bool" where
  "anonymous_leaf n \<longleftrightarrow> is_named n \<or> children n = []"

lemma anonymous_leaves_skipped:
  "list_all anonymous_leaf cs \<Longrightarrow>
   filter is_named (concat (map visit_order (filter is_named cs))) =
   filter is_named (concat (map visit_order cs))"
proof (induction cs)
  case (Cons c cs)
  then show ?case using visit_order_eq [of c] by (cases "is_named c") (auto simp: anonymous_leaf_def)
qed simp

lemma literal_walk_eq:
  assumes "list_all anonymous_leaf (concat (map visit_order stack))" "list_all is_named stack"
  shows "literal_walk stack acc =
    acc @ List.map_filter parse_literal_command_from_node (filter is_named (concat (map visit_order stack)))"
  using assms
proof (induction stack acc rule: literal_walk.induct)
  case (2 n stack acc)
  let ?below = "concat (map visit_order (rev (children n)))"
  have leaves: "list_all anonymous_leaf ?below" and rest: "list_all anonymous_leaf (concat (map visit_order stack))"
    using 2(2) by (simp_all add: visit_order_eq [of n])
  then have "list_all anonymous_leaf (rev (children n))"
    by (auto simp: list_all_iff intro: visit_order_self)
  note skip = anonymous_leaves_skipped [OF this]
  have "list_all anonymous_leaf (concat (map visit_order (rev (named_children n) @ stack)))"
    using leaves rest by (auto simp: list_all_iff named_children_def)
  moreover have "list_all is_named (rev (named_children n) @ stack)"
    using 2(3) by (auto simp: list_all_iff named_children_def)
  ultimately have walk: "literal_walk (rev (named_children n) @ stack) acc' =
      acc' @ List.map_filter parse_literal_command_from_node
        (filter is_named ?below @ filter is_named (concat (map visit_order stack)))"
    if "acc' = (case parse_literal_command_from_node n of Some c \<Rightarrow> acc @ [c] | None \<Rightarrow> acc)" for acc'
    using 2(1) skip that by (simp add: named_children_def rev_filter)
  have "filter is_named (concat (map visit_order (n # stack))) =
      n # filter is_named ?below @ filter is_named (concat (map visit_order stack))"
    using 2(3) by (simp add: visit_order_eq [of n])
  then show ?case
    by (simp only: literal_walk.simps walk List.map_filter_simps)
      (simp add: map_filter_append split: option.split)
qed (simp add: List.map_filter_simps)

section \<open>Literal words\<close>

text \<open>The words the shell passes on as they are written, with their text: plain words without expansion
  or escapes, quoted strings without substitutions, and concatenations of these.\<close>

inductive literal_word :: "node \<Rightarrow> ustr \<Rightarrow> bool" where
  plain: "node_kind n = str ''word'' \<or> node_kind n = str ''number'' \<Longrightarrow> named_children n = [] \<Longrightarrow>
    utf8_text n = Some w \<Longrightarrow> \<not> starts_with [61] w \<Longrightarrow> set w \<inter> set expansion_chars = {} \<Longrightarrow> literal_word n w"
| double_quoted: "node_kind n = str ''string'' \<Longrightarrow>
    \<forall>c \<in> set (named_children n). node_kind c = str ''string_content'' \<Longrightarrow>
    utf8_text n = Some (34 # w @ [34]) \<Longrightarrow> \<not> has_quoted_escape w \<Longrightarrow> literal_word n w"
| single_quoted: "node_kind n = str ''raw_string'' \<Longrightarrow> utf8_text n = Some (39 # w @ [39]) \<Longrightarrow> literal_word n w"
| concatenated: "node_kind n = str ''concatenation'' \<Longrightarrow> list_all2 literal_word (named_children n) ws \<Longrightarrow>
    concat ws \<noteq> [] \<Longrightarrow> literal_word n (concat ws)"

lemma kinds_distinct [simp]:
  "str ''word'' \<noteq> str ''string''" "str ''word'' \<noteq> str ''raw_string''" "str ''word'' \<noteq> str ''concatenation''"
  "str ''number'' \<noteq> str ''string''" "str ''number'' \<noteq> str ''raw_string''" "str ''number'' \<noteq> str ''concatenation''"
  "str ''string'' \<noteq> str ''raw_string''" "str ''string'' \<noteq> str ''concatenation''"
  "str ''raw_string'' \<noteq> str ''concatenation''" "str ''word'' \<noteq> str ''command_name''"
  "str ''string'' \<noteq> str ''word''" "str ''raw_string'' \<noteq> str ''word''" "str ''concatenation'' \<noteq> str ''word''"
  "str ''string'' \<noteq> str ''number''" "str ''raw_string'' \<noteq> str ''number''" "str ''concatenation'' \<noteq> str ''number''"
  "str ''raw_string'' \<noteq> str ''string''" "str ''concatenation'' \<noteq> str ''string''"
  "str ''concatenation'' \<noteq> str ''raw_string''" "str ''command_name'' \<noteq> str ''word''"
  by (simp_all add: str_def)

lemma strip_quotes:
  "Option.bind (strip_prefix [q] raw) (strip_suffix [q]) = Some w \<longleftrightarrow> raw = q # w @ [q]"
  by (auto simp: Option.bind_eq_Some_conv)

lemma parse_double_quoted_string_Some:
  "parse_double_quoted_string n = Some w \<longleftrightarrow>
     node_kind n = str ''string'' \<and> (\<forall>c \<in> set (named_children n). node_kind c = str ''string_content'') \<and>
     utf8_text n = Some (34 # w @ [34]) \<and> \<not> has_quoted_escape w"
  by (auto simp: parse_double_quoted_string_def list_ex_iff Option.bind_eq_Some_conv strip_quotes split: if_splits)

lemma parse_raw_string_Some:
  "parse_raw_string n = Some w \<longleftrightarrow> node_kind n = str ''raw_string'' \<and> utf8_text n = Some (39 # w @ [39])"
  by (auto simp: parse_raw_string_def Option.bind_eq_Some_conv strip_quotes)

lemma is_literal_word_or_number_eq:
  "is_literal_word_or_number n \<longleftrightarrow>
     (node_kind n = str ''word'' \<or> node_kind n = str ''number'') \<and> named_children n = [] \<and>
     (\<exists>w. utf8_text n = Some w \<and> \<not> starts_with [61] w \<and> set w \<inter> set expansion_chars = {})"
  by (auto simp: is_literal_word_or_number_def list_ex_iff split: option.splits)

lemma those_map_Some: "those (map f xs) = Some ys \<longleftrightarrow> list_all2 (\<lambda>x y. f x = Some y) xs ys"
proof (induction xs arbitrary: ys)
  case (Cons x xs)
  then show ?case by (cases ys) (auto split: option.splits)
qed auto

inductive_cases literal_wordE: "literal_word n w"

text \<open>The parser of literal words accepts exactly these, with their text.\<close>

lemma parse_literal_shell_word_iff: "parse_literal_shell_word n = Some w \<longleftrightarrow> literal_word n w"
proof (induction n arbitrary: w rule: parse_literal_shell_word.induct)
  case (1 n)
  note unfold = parse_literal_shell_word.simps [of n]
  have kids: "node_kind n = str ''concatenation'' \<Longrightarrow>
      list_all2 (\<lambda>c w. parse_literal_shell_word c = Some w) (named_children n) ws =
      list_all2 literal_word (named_children n) ws" for ws
    using 1 by (intro list.rel_cong) auto
  show ?case
  proof
    assume parsed: "parse_literal_shell_word n = Some w"
    consider "is_literal_word_or_number n" "utf8_text n = Some w"
      | "parse_double_quoted_string n = Some w" | "parse_raw_string n = Some w"
      | ws where "node_kind n = str ''concatenation''" "those (map parse_literal_shell_word (named_children n)) = Some ws"
        "concat ws \<noteq> []" "w = concat ws"
      using parsed by (auto simp: unfold Option.bind_eq_Some_conv split: if_splits)
    then show "literal_word n w"
      by cases (auto simp: is_literal_word_or_number_eq parse_double_quoted_string_Some parse_raw_string_Some
          those_map_Some kids intro: literal_word.intros)
  next
    assume "literal_word n w"
    then show "parse_literal_shell_word n = Some w"
      by (cases rule: literal_word.cases)
        (auto simp: unfold is_literal_word_or_number_eq parse_double_quoted_string_Some parse_raw_string_Some
          Option.bind_eq_Some_conv those_map_Some kids)
  qed
qed

section \<open>Plain commands\<close>

lemma allowed_child:
  assumes "list_all node_allowed (visit_order n)" "c \<in> set (named_children n)"
  shows "is_named c" "node_allowed c" "list_all node_allowed (visit_order c)"
proof -
  from assms(2) show "is_named c" by (simp add: named_children_def)
  show "list_all node_allowed (visit_order c)"
    using assms visit_order_child [of c n] by (auto simp: named_children_def list_all_iff)
  then show "node_allowed c" by (simp add: list_all_iff)
qed

lemma allowed_word:
  assumes "node_allowed n" "is_named n" "node_kind n = str ''word'' \<or> node_kind n = str ''number''"
    "utf8_text n = Some w"
  shows "literal_word n w"
proof -
  from assms have "is_literal_word_or_number n" by (auto simp: node_allowed_def Let_def)
  with assms(4) show ?thesis by (auto simp: is_literal_word_or_number_eq intro: literal_word.plain)
qed

lemma plain_part_literal:
  assumes "node_allowed n" "is_named n" "plain_part n = Some w"
  shows "literal_word n w"
  using assms
  by (auto simp: plain_part_def parse_double_quoted_string_Some parse_raw_string_Some split: if_splits
      intro: allowed_word literal_word.double_quoted literal_word.single_quoted)

lemma plain_word_literal:
  assumes "list_all node_allowed (visit_order n)" "is_named n" "node_kind n \<noteq> str ''command_name''"
    "plain_word n = Some w"
  shows "literal_word n w"
proof (cases "node_kind n = str ''concatenation''")
  case True
  with assms obtain ws where ws: "list_all2 (\<lambda>c w. plain_part c = Some w) (named_children n) ws"
    "concat ws \<noteq> []" "w = concat ws"
    by (auto simp: plain_word_def those_map_Some Option.bind_eq_Some_conv split: if_splits)
  then have "list_all2 literal_word (named_children n) ws"
    by (auto elim!: list.rel_mono_strong intro: plain_part_literal allowed_child [OF assms(1)])
  with True ws show ?thesis by (auto intro: literal_word.concatenated)
next
  case False
  from assms(1) have "node_allowed n" by (auto simp: list_all_iff)
  with assms False have "plain_part n = Some w"
    by (auto simp: plain_word_def plain_part_def split: if_splits)
  with \<open>node_allowed n\<close> assms(2) show ?thesis by (rule plain_part_literal)
qed

text \<open>A command of the grammar has its name first, and only one; assignments before the name are not
  allowed in plain scripts.\<close>

definition command_shape :: "node \<Rightarrow> bool" where
  "command_shape n \<longleftrightarrow>
     (case named_children n of
        [] \<Rightarrow> False
      | name # args \<Rightarrow> node_kind name = str ''command_name'' \<and>
          list_all (\<lambda>arg. node_kind arg \<noteq> str ''command_name'') args)"

lemma literal_words_args:
  assumes "list_all2 literal_word args ws" "list_all (\<lambda>arg. node_kind arg \<noteq> str ''command_name'') args"
  shows "literal_words args True acc = Some (acc @ ws)"
  using assms
  by (induction args ws arbitrary: acc rule: list_all2_induct) (auto simp flip: parse_literal_shell_word_iff)

text \<open>The node that gives a word: for the command name, the word inside it.\<close>

definition word_node :: "node \<Rightarrow> node" where
  "word_node n = (if node_kind n = str ''command_name'' then hd (named_children n) else n)"

lemma plain_word_node:
  assumes "list_all node_allowed (visit_order n)" "is_named n" "plain_word n = Some w"
  shows "literal_word (word_node n) w"
proof (cases "node_kind n = str ''command_name''")
  case True
  with assms(3) obtain c cs where c: "named_children n = c # cs" "node_kind c = str ''word''" "utf8_text c = Some w"
    by (auto simp: plain_word_def split: list.splits if_splits)
  with allowed_child [OF assms(1), of c] True show ?thesis by (simp add: word_node_def allowed_word)
next
  case False
  with assms show ?thesis by (simp add: word_node_def plain_word_literal)
qed

lemma plain_command_words:
  assumes "list_all node_allowed (visit_order n)" "parse_plain_command_from_node n = Some ws"
  shows "list_all2 literal_word (map word_node (named_children n)) ws"
proof -
  from assms(2) have "list_all2 (\<lambda>c w. plain_word c = Some w) (named_children n) ws"
    by (simp add: parse_plain_command_from_node_def those_map_Some split: if_splits)
  then have "list_all2 (\<lambda>c w. literal_word (word_node c) w) (named_children n) ws"
    by (auto elim!: list.rel_mono_strong intro: plain_word_node allowed_child [OF assms(1)])
  then show ?thesis by (simp add: list.rel_map)
qed

lemma plain_command_literal:
  assumes "list_all node_allowed (visit_order n)" "command_shape n" "parse_plain_command_from_node n = Some ws"
  shows "parse_literal_command_from_node n = Some ws"
proof -
  from assms(2) obtain name args where n: "named_children n = name # args"
    "node_kind name = str ''command_name''" "list_all (\<lambda>arg. node_kind arg \<noteq> str ''command_name'') args"
    by (auto simp: command_shape_def split: list.splits)
  from plain_command_words [OF assms(1,3)] n obtain w ws' where ws: "ws = w # ws'"
    "literal_word (word_node name) w" "list_all2 literal_word (map word_node args) ws'"
    by (cases ws) auto
  have "map word_node args = args" using n(3) by (auto simp: list_all_iff word_node_def intro: map_idI)
  with ws n have args: "literal_words args True [w] = Some ws" by (simp add: literal_words_args)
  from assms(3) n ws have "plain_word name = Some w"
    by (auto simp: parse_plain_command_from_node_def split: if_splits option.splits)
  with n(2) obtain first others where first: "named_children name = first # others"
    by (cases "named_children name") (simp_all add: plain_word_def)
  with ws(2) n(2) have "parse_literal_shell_word first = Some w"
    by (simp add: word_node_def parse_literal_shell_word_iff)
  with args first n assms(3) show ?thesis
    by (simp add: parse_literal_command_from_node_def parse_plain_command_from_node_def split: if_splits)
qed

section \<open>Scripts\<close>

text \<open>What the grammar promises of a tree: the root is named, anonymous nodes are leaves, and a command
  has assignments and redirections, then its name, then arguments.\<close>

definition grammar_command :: "node \<Rightarrow> bool" where
  "grammar_command n \<longleftrightarrow>
     list_all (\<lambda>c. node_kind c \<in> {str ''variable_assignment'', str ''file_redirect'',
         str ''heredoc_redirect'', str ''herestring_redirect''})
       (takeWhile (\<lambda>c. node_kind c \<noteq> str ''command_name'') (named_children n)) \<and>
     (case dropWhile (\<lambda>c. node_kind c \<noteq> str ''command_name'') (named_children n) of
        [] \<Rightarrow> False
      | name # args \<Rightarrow> list_all (\<lambda>arg. node_kind arg \<noteq> str ''command_name'') args)"

definition syntax_tree :: "tree \<Rightarrow> bool" where
  "syntax_tree t \<longleftrightarrow>
     is_named (root_node t) \<and> list_all anonymous_leaf (visit_order (root_node t)) \<and>
     list_all (\<lambda>n. is_command_node n \<longrightarrow> grammar_command n) (visit_order (root_node t))"

lemma prefix_not_allowed:
  "str ''variable_assignment'' \<notin> set ALLOWED_KINDS" "str ''file_redirect'' \<notin> set ALLOWED_KINDS"
  "str ''heredoc_redirect'' \<notin> set ALLOWED_KINDS" "str ''herestring_redirect'' \<notin> set ALLOWED_KINDS"
  by (simp_all add: ALLOWED_KINDS_def str_def)

lemma grammar_command_plain:
  assumes "grammar_command n" "list_all node_allowed (visit_order n)"
  shows "command_shape n"
proof -
  let ?pre = "takeWhile (\<lambda>c. node_kind c \<noteq> str ''command_name'') (named_children n)"
  have "node_kind c \<in> set ALLOWED_KINDS" if "c \<in> set ?pre" for c
    using allowed_child [OF assms(2), of c] set_takeWhileD [OF that] by (auto simp: node_allowed_def Let_def)
  moreover from assms(1) have "\<forall>c \<in> set ?pre. node_kind c \<notin> set ALLOWED_KINDS"
    by (auto simp: grammar_command_def list_all_iff prefix_not_allowed)
  ultimately have "?pre = []" by (cases ?pre) auto
  with assms(1) show ?thesis
    by (cases "named_children n") (auto simp: grammar_command_def command_shape_def split: if_splits)
qed

lemma word_only_commands:
  "try_parse_word_only_commands_sequence t = Some cs \<longleftrightarrow>
     \<not> has_error t \<and> list_all node_allowed (visit_order (root_node t)) \<and>
     list_all2 (\<lambda>n ws. parse_plain_command_from_node n = Some ws)
       (sort_key start_byte (filter is_command_node (visit_order (root_node t)))) cs"
  by (auto simp: try_parse_word_only_commands_sequence_def word_only_walk_eq Let_def those_map_Some)

lemma literal_command_nodes:
  "List.map_filter parse_literal_command_from_node (filter is_named ns) =
   List.map_filter parse_literal_command_from_node (filter is_command_node ns)"
proof (induction ns)
  case (Cons n ns)
  moreover have "is_named n \<Longrightarrow> \<not> is_command_node n \<Longrightarrow> parse_literal_command_from_node n = None"
    by (simp add: is_command_node_def parse_literal_command_from_node_def)
  moreover have "is_command_node n \<Longrightarrow> is_named n" by (simp add: is_command_node_def)
  ultimately show ?case by (auto simp: List.map_filter_simps split: option.split)
qed simp

lemma map_filter_list_all2:
  "list_all2 (\<lambda>x y. f x = Some y) xs ys \<Longrightarrow> List.map_filter f xs = ys"
  by (induction rule: list_all2_induct) (simp_all add: List.map_filter_simps)

lemma map_filter_mset: "mset xs = mset ys \<Longrightarrow> mset (List.map_filter f xs) = mset (List.map_filter f ys)"
  by (simp add: List.map_filter_def)

lemma plain_sequence_literal:
  assumes "syntax_tree t" "try_parse_word_only_commands_sequence t = Some cs"
  shows "mset (literal_walk [root_node t] []) = mset cs"
proof -
  let ?ns = "filter is_command_node (visit_order (root_node t))"
  from assms(2) have allowed: "list_all node_allowed (visit_order (root_node t))"
    and plain: "list_all2 (\<lambda>n ws. parse_plain_command_from_node n = Some ws) (sort_key start_byte ?ns) cs"
    by (simp_all add: word_only_commands)
  have "parse_literal_command_from_node n = Some ws"
    if "n \<in> set ?ns" "parse_plain_command_from_node n = Some ws" for n ws
  proof (rule plain_command_literal)
    show below: "list_all node_allowed (visit_order n)"
      using that(1) allowed visit_order_trans [of n "root_node t"] by (auto simp: list_all_iff)
    show "command_shape n"
      using that(1) assms(1) below by (auto simp: syntax_tree_def list_all_iff intro!: grammar_command_plain)
  qed (rule that(2))
  with plain have "list_all2 (\<lambda>n ws. parse_literal_command_from_node n = Some ws) (sort_key start_byte ?ns) cs"
    by (auto elim!: list.rel_mono_strong)
  then have "cs = List.map_filter parse_literal_command_from_node (sort_key start_byte ?ns)"
    by (simp add: map_filter_list_all2)
  moreover have "literal_walk [root_node t] [] = List.map_filter parse_literal_command_from_node ?ns"
    using assms(1) literal_walk_eq [of "[root_node t]" "[]"]
    by (simp del: literal_walk.simps add: syntax_tree_def literal_command_nodes)
  ultimately show ?thesis by (simp add: map_filter_mset)
qed

text \<open>C21. A shell script is split into plain commands only when every construct in it is on the list of
  harmless ones, and each word of each command, in the order of the source, is one that the shell passes
  on as written. The parser that looks for dangerous commands then finds exactly the same commands.\<close>

theorem plain_commands_literal:
  assumes grammar: "\<And>script t. B script = Some t \<Longrightarrow> syntax_tree t"
    and plain: "parse_shell_lc_plain_commands B command = Some cs"
  shows "\<exists>shell script t ls.
    extract_bash_command command = Some (shell, script) \<and> B script = Some t \<and>
    list_all node_allowed (visit_order (root_node t)) \<and>
    list_all2 (\<lambda>n ws. list_all2 literal_word (map word_node (named_children n)) ws)
      (sort_key start_byte (filter is_command_node (visit_order (root_node t)))) cs \<and>
    parse_shell_lc_literal_commands B command = Some ls \<and> mset ls = mset cs"
proof -
  from plain obtain shell script t where t: "extract_bash_command command = Some (shell, script)"
    "B script = Some t" "try_parse_word_only_commands_sequence t = Some cs"
    by (auto simp: parse_shell_lc_plain_commands_def parse_shell_script_into_commands_def Option.bind_eq_Some_conv)
  then have parsed: "\<not> has_error t" "list_all node_allowed (visit_order (root_node t))"
    "list_all2 (\<lambda>n ws. parse_plain_command_from_node n = Some ws)
       (sort_key start_byte (filter is_command_node (visit_order (root_node t)))) cs"
    by (simp_all add: word_only_commands)
  have "list_all node_allowed (visit_order n)" if "n \<in> set (visit_order (root_node t))" for n
    using that parsed(2) visit_order_trans [of n "root_node t"] by (auto simp: list_all_iff)
  with parsed(3) have words: "list_all2 (\<lambda>n ws. list_all2 literal_word (map word_node (named_children n)) ws)
      (sort_key start_byte (filter is_command_node (visit_order (root_node t)))) cs"
    by (auto elim!: list.rel_mono_strong intro: plain_command_words)
  from t parsed(1) have "parse_shell_lc_literal_commands B command = Some (literal_walk [root_node t] [])"
    by (simp add: parse_shell_lc_literal_commands_def)
  with t parsed words plain_sequence_literal [OF grammar [OF t(2)] t(3)] show ?thesis by blast
qed

end
