(* ===== verification/Command_Safety.thy ===== *)
theory Command_Safety
  imports Shell_Parse_Laws
begin

text \<open>
  \<^verbatim>\<open>codex-rs/shell-command/src/command_safety/is_dangerous_command.rs\<close> in a build for Unix: which commands
  are dangerous, looking through wrappers (\<^verbatim>\<open>sudo\<close>, \<^verbatim>\<open>env\<close>, \<^verbatim>\<open>trap\<close>, shell scripts). The reference is the relation
  \<open>runs\<close>: a command and a command it may start.
\<close>

section \<open>The check\<close>

datatype danger_match = ForcedRm | OtherDanger

definition MAX_DANGEROUS_COMMAND_WRAPPER_DEPTH :: nat where
  "MAX_DANGEROUS_COMMAND_WRAPPER_DEPTH = 8"

definition executable_name_lookup_key :: "ustr \<Rightarrow> ustr option" where
  "executable_name_lookup_key raw = file_name raw"

definition rm_args_include_force_option :: "ustr list \<Rightarrow> bool" where
  "rm_args_include_force_option args =
     list_ex (\<lambda>arg. arg = str ''--force'' \<or>
         (case strip_prefix (str ''-'') arg of
            Some flags \<Rightarrow> \<not> starts_with (str ''-'') flags \<and> contains_str (str ''f'') flags
          | None \<Rightarrow> False))
       (takeWhile (\<lambda>arg. arg \<noteq> str ''--'') args)"

definition is_env_argument :: "ustr \<Rightarrow> bool" where
  "is_env_argument argument \<longleftrightarrow>
     argument \<in> {str ''-i'', str ''--ignore-environment''} \<or>
     (case split_once 61 argument of
        Some (name, _) \<Rightarrow> name \<noteq> [] \<and> \<not> starts_with (str ''-'') name
      | None \<Rightarrow> False)"

text \<open>The arguments of \<^verbatim>\<open>env\<close> from the command on.\<close>

fun skip_env_arguments :: "ustr list \<Rightarrow> ustr list" where
  "skip_env_arguments [] = []"
| "skip_env_arguments (argument # rest) =
     (if argument = str ''--'' then rest
      else if is_env_argument argument then skip_env_arguments rest
      else argument # rest)"

text \<open>The script a \<^verbatim>\<open>trap\<close> stores, given the arguments of the command.\<close>

definition trap_action :: "ustr list \<Rightarrow> ustr option" where
  "trap_action args =
     (case (if args \<noteq> [] \<and> hd args = str ''--'' then tl args else args) of
        action # _ \<Rightarrow> if starts_with (str ''-'') action then None else Some action
      | [] \<Rightarrow> None)"

text \<open>What is left of the depth, with room for the three functions that call each other.\<close>

definition depth_left :: "nat \<Rightarrow> nat" where
  "depth_left d = 4 * (MAX_DANGEROUS_COMMAND_WRAPPER_DEPTH + 1 - d)"

function dangerous_command_match_with_depth :: "shell_parser \<Rightarrow> ustr list \<Rightarrow> nat \<Rightarrow> danger_match option"
  and dangerous_command_match_for_exec :: "shell_parser \<Rightarrow> ustr list \<Rightarrow> nat \<Rightarrow> danger_match option"
  and dangerous_command_match_for_env :: "shell_parser \<Rightarrow> ustr list \<Rightarrow> nat \<Rightarrow> danger_match option"
  and dangerous_command_match_for_trap :: "shell_parser \<Rightarrow> ustr list \<Rightarrow> nat \<Rightarrow> danger_match option" where
  "dangerous_command_match_with_depth B command wrapper_depth =
     (if wrapper_depth > MAX_DANGEROUS_COMMAND_WRAPPER_DEPTH then Some OtherDanger
      else
        (case dangerous_command_match_for_exec B command wrapper_depth of
           Some dangerous_match \<Rightarrow> Some dangerous_match
         | None \<Rightarrow>
             (case parse_shell_lc_literal_commands B command of
                Some commands \<Rightarrow>
                  find_map (\<lambda>command. dangerous_command_match_with_depth B command (wrapper_depth + 1)) commands
              | None \<Rightarrow> None)))"
| "dangerous_command_match_for_exec B command wrapper_depth =
     (case command of
        [] \<Rightarrow> None
      | program # args \<Rightarrow>
          let cmd0 = executable_name_lookup_key program in
          if cmd0 = Some (str ''rm'') \<and> rm_args_include_force_option args then Some ForcedRm
          else if cmd0 = Some (str ''sudo'') then dangerous_command_match_with_depth B args (wrapper_depth + 1)
          else if cmd0 = Some (str ''env'') then dangerous_command_match_for_env B command wrapper_depth
          else if cmd0 = Some (str ''trap'') then dangerous_command_match_for_trap B command wrapper_depth
          else None)"
| "dangerous_command_match_for_env B command wrapper_depth =
     dangerous_command_match_with_depth B (skip_env_arguments (drop 1 command)) (wrapper_depth + 1)"
| "dangerous_command_match_for_trap B command wrapper_depth =
     (case trap_action (drop 1 command) of
        None \<Rightarrow> None
      | Some action \<Rightarrow>
          dangerous_command_match_with_depth B [str ''sh'', str ''-c'', action] (wrapper_depth + 1))"
  by pat_completeness auto

termination
  by (relation "measure (\<lambda>x. case x of
        Inl (Inl (B, c, d)) \<Rightarrow> if d > MAX_DANGEROUS_COMMAND_WRAPPER_DEPTH then 0 else depth_left d + 4
      | Inl (Inr (B, c, d)) \<Rightarrow> depth_left d + 3
      | Inr (Inl (B, c, d)) \<Rightarrow> depth_left d + 2
      | Inr (Inr (B, c, d)) \<Rightarrow> depth_left d + 2)")
    (auto simp: depth_left_def MAX_DANGEROUS_COMMAND_WRAPPER_DEPTH_def)

definition dangerous_command_match :: "shell_parser \<Rightarrow> ustr list \<Rightarrow> danger_match option" where
  "dangerous_command_match B command = dangerous_command_match_with_depth B command 0"

declare dangerous_command_match_with_depth.simps [simp del] dangerous_command_match_for_exec.simps [simp del]
  dangerous_command_match_for_env.simps [simp del] dangerous_command_match_for_trap.simps [simp del]

section \<open>What a command runs\<close>

definition forced_rm :: "ustr list \<Rightarrow> bool" where
  "forced_rm command \<longleftrightarrow>
     (case command of
        program # args \<Rightarrow> executable_name_lookup_key program = Some (str ''rm'') \<and> rm_args_include_force_option args
      | [] \<Rightarrow> False)"

inductive runs :: "shell_parser \<Rightarrow> ustr list \<Rightarrow> ustr list \<Rightarrow> bool" for B where
  sudo: "executable_name_lookup_key program = Some (str ''sudo'') \<Longrightarrow> runs B (program # args) args"
| env: "executable_name_lookup_key program = Some (str ''env'') \<Longrightarrow> runs B (program # args) (skip_env_arguments args)"
| trap: "executable_name_lookup_key program = Some (str ''trap'') \<Longrightarrow> trap_action args = Some action \<Longrightarrow>
    runs B (program # args) [str ''sh'', str ''-c'', action]"
| script: "parse_shell_lc_literal_commands B command = Some commands \<Longrightarrow> command' \<in> set commands \<Longrightarrow>
    runs B command command'"

inductive_cases runsE: "runs B command command'"

lemma wrapper_names [simp]:
  "str ''sudo'' \<noteq> str ''rm''" "str ''env'' \<noteq> str ''rm''" "str ''trap'' \<noteq> str ''rm''"
  "str ''env'' \<noteq> str ''sudo''" "str ''trap'' \<noteq> str ''sudo''" "str ''trap'' \<noteq> str ''env''"
  by (simp_all add: str_def)

text \<open>One level of the check: the depth is exhausted, the command removes by force, or a command it runs
  is dangerous one level deeper.\<close>

lemma dangerous_step:
  "dangerous_command_match_with_depth B c d \<noteq> None \<longleftrightarrow>
     MAX_DANGEROUS_COMMAND_WRAPPER_DEPTH < d \<or> forced_rm c \<or>
     (\<exists>c'. runs B c c' \<and> dangerous_command_match_with_depth B c' (Suc d) \<noteq> None)"
proof -
  let ?deeper = "\<lambda>c'. dangerous_command_match_with_depth B c' (Suc d) \<noteq> None"
  have exec: "dangerous_command_match_for_exec B c d \<noteq> None \<longleftrightarrow>
      forced_rm c \<or> (\<exists>program args. c = program # args \<and>
        (executable_name_lookup_key program = Some (str ''sudo'') \<and> ?deeper args \<or>
         executable_name_lookup_key program = Some (str ''env'') \<and> ?deeper (skip_env_arguments args) \<or>
         executable_name_lookup_key program = Some (str ''trap'') \<and>
           (\<exists>action. trap_action args = Some action \<and> ?deeper [str ''sh'', str ''-c'', action])))"
    by (cases c)
      (auto simp: dangerous_command_match_for_exec.simps dangerous_command_match_for_env.simps
        dangerous_command_match_for_trap.simps forced_rm_def Let_def split: option.splits)
  have "dangerous_command_match_with_depth B c d \<noteq> None \<longleftrightarrow>
      MAX_DANGEROUS_COMMAND_WRAPPER_DEPTH < d \<or> dangerous_command_match_for_exec B c d \<noteq> None \<or>
      (\<exists>commands. parse_shell_lc_literal_commands B c = Some commands \<and> (\<exists>c' \<in> set commands. ?deeper c'))"
    by (cases "dangerous_command_match_for_exec B c d"; cases "parse_shell_lc_literal_commands B c")
      (simp_all del: not_None_eq add: dangerous_command_match_with_depth.simps [of B c d] find_map_None)
  with exec show ?thesis by (auto intro: runs.intros elim!: runsE)
qed

lemma dangerous_within:
  assumes "d \<le> 9"
  shows "dangerous_command_match_with_depth B c d \<noteq> None \<longleftrightarrow>
    (\<exists>n c'. d + n \<le> 8 \<and> (runs B ^^ n) c c' \<and> forced_rm c') \<or> (\<exists>c'. (runs B ^^ (9 - d)) c c')"
  using assms
proof (induction "9 - d" arbitrary: c d)
  case 0
  then have "d = 9" by simp
  then show ?case
    using dangerous_step [of B c 9] by (simp add: MAX_DANGEROUS_COMMAND_WRAPPER_DEPTH_def)
next
  case (Suc k)
  then have d: "d \<le> 8" and left: "9 - d = Suc (9 - Suc d)" by simp_all
  have deeper: "dangerous_command_match_with_depth B c' (Suc d) \<noteq> None \<longleftrightarrow>
      (\<exists>n c''. Suc d + n \<le> 8 \<and> (runs B ^^ n) c' c'' \<and> forced_rm c'') \<or>
      (\<exists>c''. (runs B ^^ (9 - Suc d)) c' c'')" for c'
    using Suc.hyps(1) [of "Suc d" c'] Suc.hyps(2) d by simp
  have first: "(\<exists>n c'. d + n \<le> 8 \<and> (runs B ^^ n) c c' \<and> forced_rm c') \<longleftrightarrow>
      forced_rm c \<or> (\<exists>n c' c''. Suc d + n \<le> 8 \<and> runs B c c' \<and> (runs B ^^ n) c' c'' \<and> forced_rm c'')"
    (is "?l \<longleftrightarrow> ?r")
  proof
    assume ?l
    then obtain n c' where n: "d + n \<le> 8" "(runs B ^^ n) c c'" "forced_rm c'" by blast
    show ?r
    proof (cases n)
      case (Suc m)
      with n(2) obtain b where "runs B c b" "(runs B ^^ m) b c'" using relpowp_Suc_D2 by metis
      with n Suc show ?r by (auto intro!: exI [of _ m])
    qed (use n in simp)
  next
    assume ?r
    then show ?l
    proof
      assume "forced_rm c"
      with d show ?l by (intro exI [of _ 0]) auto
    next
      assume "\<exists>n c' c''. Suc d + n \<le> 8 \<and> runs B c c' \<and> (runs B ^^ n) c' c'' \<and> forced_rm c''"
      then obtain n c' c'' where "Suc d + n \<le> 8" "runs B c c'" "(runs B ^^ n) c' c''" "forced_rm c''" by blast
      moreover from this have "(runs B ^^ Suc n) c c''" by (blast intro: relpowp_Suc_I2)
      ultimately show ?l by (intro exI [of _ "Suc n"] exI [of _ c'']) (simp del: relpowp.simps)
    qed
  qed
  have second: "(\<exists>c'. (runs B ^^ (9 - d)) c c') \<longleftrightarrow> (\<exists>c' c''. runs B c c' \<and> (runs B ^^ (9 - Suc d)) c' c'')"
    unfolding left by (meson relpowp_Suc_D2 relpowp_Suc_I2)
  from d have "\<not> MAX_DANGEROUS_COMMAND_WRAPPER_DEPTH < d" by (simp add: MAX_DANGEROUS_COMMAND_WRAPPER_DEPTH_def)
  then show ?case unfolding dangerous_step [of B c d] deeper first second by blast
qed

lemma relpowp_prefix: "(R ^^ (m + n)) x z \<Longrightarrow> \<exists>y. (R ^^ m) x y" for R :: "'a \<Rightarrow> 'a \<Rightarrow> bool"
  by (auto simp: relpowp_add)

lemma dangerous_iff_reaches:
  "dangerous_command_match B c \<noteq> None \<longleftrightarrow>
     (\<exists>c'. (runs B)\<^sup>*\<^sup>* c c' \<and> forced_rm c') \<or> (\<exists>c'. (runs B ^^ 9) c c')"
proof -
  have "(\<exists>c'. (runs B ^^ 9) c c')" if "(runs B ^^ n) c c'" "8 < n" for n c'
    using relpowp_prefix [of 9 "n - 9" "runs B" c c'] that by simp
  then have "(\<exists>c'. (runs B)\<^sup>*\<^sup>* c c' \<and> forced_rm c') \<or> (\<exists>c'. (runs B ^^ 9) c c') \<longleftrightarrow>
      (\<exists>n c'. n \<le> 8 \<and> (runs B ^^ n) c c' \<and> forced_rm c') \<or> (\<exists>c'. (runs B ^^ 9) c c')"
    unfolding rtranclp_power by (meson not_le)
  with dangerous_within [of 0 B c] show ?thesis by (simp add: dangerous_command_match_def)
qed

text \<open>C20. A command is dangerous exactly when a forced removal can be reached from it through any number
  of wrappers, or when it wraps commands more than eight levels deep. Deep nesting cannot hide a forced
  removal.\<close>

theorem dangerous_command_match_reaches:
  "dangerous_command_match B c \<noteq> None \<longleftrightarrow>
     (\<exists>c'. (runs B)\<^sup>*\<^sup>* c c' \<and> forced_rm c') \<or> (\<exists>c'. (runs B ^^ 9) c c')"
  by (rule dangerous_iff_reaches)

end
