(* ===== verification/Sandbox_Policy.thy ===== *)
theory Sandbox_Policy
  imports Utf8 "HOL-Library.Product_Lexorder"
begin

text \<open>
  The file system permissions of a command: \<^verbatim>\<open>codex-rs/protocol/src/permissions.rs\<close> and the profiles of
  \<^verbatim>\<open>models.rs\<close>. A policy is a list of entries that give access to a path, to a glob pattern or to a special
  place; the most specific entry decides. Path URIs (\<open>'p\<close>), absolute paths (\<open>'a\<close>) and compiled globs (\<open>'g\<close>)
  are type parameters, with the operations the code calls in the record \<open>sandbox_paths\<close>; the environment
  variable \<^verbatim>\<open>TMPDIR\<close>, the home directory and the build target are in it too.
\<close>

section \<open>Data\<close>

datatype network_sandbox_policy = NetworkRestricted | NetworkEnabled

datatype file_system_access_mode = Read | Write | Deny

text \<open>The derived order of the variants, by precedence in a conflict.\<close>

fun precedence :: "file_system_access_mode \<Rightarrow> nat" where
  "precedence Read = 0"
| "precedence Write = 1"
| "precedence Deny = 2"

lemma precedence_inject [simp]: "precedence a = precedence b \<longleftrightarrow> a = b"
  by (cases a; cases b) simp_all

instantiation file_system_access_mode :: linorder
begin

definition less_eq_file_system_access_mode :: "file_system_access_mode \<Rightarrow> file_system_access_mode \<Rightarrow> bool" where
  "a \<le> b \<longleftrightarrow> precedence a \<le> precedence b"

definition less_file_system_access_mode :: "file_system_access_mode \<Rightarrow> file_system_access_mode \<Rightarrow> bool" where
  "a < b \<longleftrightarrow> precedence a < precedence b"

instance
  by standard (auto simp: less_eq_file_system_access_mode_def less_file_system_access_mode_def)

end

definition can_read :: "file_system_access_mode \<Rightarrow> bool" where
  "can_read mode \<longleftrightarrow> mode \<noteq> Deny"

definition can_write :: "file_system_access_mode \<Rightarrow> bool" where
  "can_write mode \<longleftrightarrow> mode = Write"

datatype file_system_special_path =
    Root
  | Minimal
  | ProjectRoots "ustr option"
  | Tmpdir
  | SlashTmp
  | UnknownPath ustr "ustr option"

datatype 'p file_system_path =
    FsPath 'p
  | GlobPattern ustr
  | Special file_system_special_path

datatype missing_path_behavior = Skip

record 'p file_system_sandbox_entry =
  entry_path :: "'p file_system_path"
  access :: file_system_access_mode
  missing_behavior :: "missing_path_behavior option"

datatype file_system_sandbox_kind = Restricted | Unrestricted | ExternalSandbox

record 'p file_system_sandbox_policy =
  fs_kind :: file_system_sandbox_kind
  glob_scan_max_depth :: "nat option"
  entries :: "'p file_system_sandbox_entry list"

datatype path_convention = Posix | Windows

record ('p, 'a, 'g) sandbox_paths =
  infer_path_convention :: "'p \<Rightarrow> path_convention option"
  lexical_depth :: "'p \<Rightarrow> nat option"
  is_opaque :: "'p \<Rightarrow> bool"
  uri_starts_with :: "'p \<Rightarrow> 'p \<Rightarrow> bool"
  last_ancestor :: "'p \<Rightarrow> 'p"
  uri_join :: "'p \<Rightarrow> ustr \<Rightarrow> 'p option"
  join_descendant :: "'p \<Rightarrow> ustr \<Rightarrow> 'p option"
  inferred_native_path_string :: "'p \<Rightarrow> ustr"
  decoded_path_bytes :: "'p \<Rightarrow> nat list"
  path_segments :: "path_convention \<Rightarrow> ustr \<Rightarrow> ustr list"
  glob_build :: "bool \<Rightarrow> bool \<Rightarrow> ustr \<Rightarrow> ustr + 'g"
  glob_is_match :: "'g \<Rightarrow> nat list \<Rightarrow> bool"
  from_abs_path :: "'a \<Rightarrow> 'p"
  to_abs_path :: "'p \<Rightarrow> io_error + 'a"
  from_absolute_path :: "ustr \<Rightarrow> ustr + 'a"
  is_absolute_path :: "ustr \<Rightarrow> bool"
  abs_join :: "'a \<Rightarrow> ustr \<Rightarrow> 'a"
  abs_last_ancestor :: "'a \<Rightarrow> 'a"
  abs_parent :: "'a \<Rightarrow> 'a option"
  abs_is :: "'a \<Rightarrow> ustr \<Rightarrow> bool"
  abs_file_name :: "'a \<Rightarrow> ustr option"
  resolve_path_against_base :: "ustr \<Rightarrow> 'a \<Rightarrow> 'a"
  abs_text :: "'a \<Rightarrow> ustr"
  abs_is_dir :: "'a \<Rightarrow> bool"
  abs_is_file :: "'a \<Rightarrow> bool"
  abs_exists :: "'a \<Rightarrow> bool"
  abs_read_to_string :: "'a \<Rightarrow> ustr option"
  cfg_unix :: bool
  env_tmpdir :: "ustr option"
  home_dir :: "'p option"

record 'p policy_context =
  context_cwd :: 'p
  workspace_roots :: "'p list"
  user_home_dir :: "'p option"
  temporary_directories :: "'p list option"

definition entry_new :: "'p file_system_path \<Rightarrow> file_system_access_mode \<Rightarrow> 'p file_system_sandbox_entry" where
  "entry_new path mode = \<lparr>entry_path = path, access = mode, missing_behavior = None\<rparr>"

definition skip_missing_path :: "'p file_system_path \<Rightarrow> file_system_access_mode \<Rightarrow> 'p file_system_sandbox_entry" where
  "skip_missing_path path mode = \<lparr>entry_path = path, access = mode, missing_behavior = Some Skip\<rparr>"

definition skips_missing_path :: "'p file_system_sandbox_entry \<Rightarrow> bool" where
  "skips_missing_path e \<longleftrightarrow> missing_behavior e = Some Skip"

text \<open>\<^verbatim>\<open>Result::ok\<close>.\<close>

fun result_ok :: "'e + 'a \<Rightarrow> 'a option" where
  "result_ok (Inl _) = None"
| "result_ok (Inr a) = Some a"

section \<open>Policies\<close>

definition policy_unrestricted :: "'p file_system_sandbox_policy" where
  "policy_unrestricted = \<lparr>fs_kind = Unrestricted, glob_scan_max_depth = None, entries = []\<rparr>"

definition policy_external_sandbox :: "'p file_system_sandbox_policy" where
  "policy_external_sandbox = \<lparr>fs_kind = ExternalSandbox, glob_scan_max_depth = None, entries = []\<rparr>"

definition policy_restricted :: "'p file_system_sandbox_entry list \<Rightarrow> 'p file_system_sandbox_policy" where
  "policy_restricted es = \<lparr>fs_kind = Restricted, glob_scan_max_depth = None, entries = es\<rparr>"

definition policy_read_only :: "'p file_system_sandbox_policy" where
  "policy_read_only = policy_restricted [entry_new (Special Root) Read]"

definition remove_skip_missing_path_entries :: "'p file_system_sandbox_policy \<Rightarrow> 'p file_system_sandbox_policy" where
  "remove_skip_missing_path_entries p = p\<lparr>entries := filter (\<lambda>e. \<not> skips_missing_path e) (entries p)\<rparr>"

definition has_root_access :: "'p file_system_sandbox_policy \<Rightarrow> (file_system_access_mode \<Rightarrow> bool) \<Rightarrow> bool" where
  "has_root_access p predicate \<longleftrightarrow>
     fs_kind p = Restricted \<and>
     list_ex (\<lambda>e. entry_path e = Special Root \<and> predicate (access e)) (entries p)"

definition has_denied_read_restrictions :: "('p, 'a, 'g) sandbox_paths \<Rightarrow> 'p file_system_sandbox_policy \<Rightarrow> bool" where
  "has_denied_read_restrictions S p \<longleftrightarrow>
     fs_kind p = Restricted \<and>
     list_ex (\<lambda>e. access e = Deny \<and> \<not> (entry_path e = Special SlashTmp \<and> \<not> cfg_unix S)) (entries p)"

text \<open>The deny entries of another policy that are not there yet, appended in their order.\<close>

definition append_deny_entries ::
  "'p file_system_sandbox_policy \<Rightarrow> 'p file_system_sandbox_entry list \<Rightarrow> 'p file_system_sandbox_entry list" where
  "append_deny_entries existing es =
     foldl (\<lambda>es deny_entry. if deny_entry \<in> set es then es else es @ [deny_entry]) es
       (filter (\<lambda>e. access e = Deny) (entries existing))"

definition preserve_deny_read_restrictions_from ::
  "'p file_system_sandbox_policy \<Rightarrow> 'p file_system_sandbox_policy \<Rightarrow> 'p file_system_sandbox_policy" where
  "preserve_deny_read_restrictions_from existing p =
     (let has_deny_read_entries = list_ex (\<lambda>e. access e = Deny) (entries existing);
          p = (if fs_kind p = Unrestricted \<and> has_deny_read_entries
               then policy_restricted [entry_new (Special Root) Write] else p)
      in if fs_kind p \<noteq> Restricted then p
         else
           let p = (if glob_scan_max_depth p = None then p\<lparr>glob_scan_max_depth := glob_scan_max_depth existing\<rparr> else p)
           in p\<lparr>entries := append_deny_entries existing (entries p)\<rparr>)"

section \<open>Entries with the same target\<close>

fun special_paths_share_target :: "file_system_special_path \<Rightarrow> file_system_special_path \<Rightarrow> bool" where
  "special_paths_share_target Root Root = True"
| "special_paths_share_target Minimal Minimal = True"
| "special_paths_share_target Tmpdir Tmpdir = True"
| "special_paths_share_target SlashTmp SlashTmp = True"
| "special_paths_share_target (ProjectRoots l) (ProjectRoots r) = (l = r)"
| "special_paths_share_target (UnknownPath l ls) (UnknownPath r rs) = (l = r \<and> ls = rs)"
| "special_paths_share_target _ _ = False"

fun special_path_matches_absolute_path ::
  "('p, 'a, 'g) sandbox_paths \<Rightarrow> file_system_special_path \<Rightarrow> 'a \<Rightarrow> bool" where
  "special_path_matches_absolute_path S Root path = (abs_parent S path = None)"
| "special_path_matches_absolute_path S SlashTmp path = abs_is S path (str ''/tmp'')"
| "special_path_matches_absolute_path S _ path = False"

fun file_system_paths_share_target ::
  "('p, 'a, 'g) sandbox_paths \<Rightarrow> 'p file_system_path \<Rightarrow> 'p file_system_path \<Rightarrow> bool" where
  "file_system_paths_share_target S (FsPath l) (FsPath r) = (l = r)"
| "file_system_paths_share_target S (Special l) (Special r) = special_paths_share_target l r"
| "file_system_paths_share_target S (FsPath path) (Special v) =
     (case to_abs_path S path of Inr path \<Rightarrow> special_path_matches_absolute_path S v path | Inl _ \<Rightarrow> False)"
| "file_system_paths_share_target S (Special v) (FsPath path) =
     (case to_abs_path S path of Inr path \<Rightarrow> special_path_matches_absolute_path S v path | Inl _ \<Rightarrow> False)"
| "file_system_paths_share_target S (GlobPattern l) (GlobPattern r) = (l = r)"
| "file_system_paths_share_target S (GlobPattern _) _ = False"
| "file_system_paths_share_target S _ (GlobPattern _) = False"

definition has_same_target_write_override ::
  "('p, 'a, 'g) sandbox_paths \<Rightarrow> 'p file_system_sandbox_policy \<Rightarrow> 'p file_system_sandbox_entry \<Rightarrow> bool" where
  "has_same_target_write_override S p e \<longleftrightarrow>
     list_ex (\<lambda>candidate. can_write (access candidate) \<and> access candidate > access e \<and>
       file_system_paths_share_target S (entry_path candidate) (entry_path e)) (entries p)"

definition entry_narrows_write ::
  "('p, 'a, 'g) sandbox_paths \<Rightarrow> 'p file_system_sandbox_policy \<Rightarrow> 'p file_system_sandbox_entry \<Rightarrow> bool" where
  "entry_narrows_write S p e \<longleftrightarrow>
     \<not> can_write (access e) \<and>
     (case entry_path e of
        FsPath _ \<Rightarrow> \<not> has_same_target_write_override S p e
      | GlobPattern _ \<Rightarrow> True
      | Special v \<Rightarrow>
          (case v of
             Root \<Rightarrow> access e = Deny
           | SlashTmp \<Rightarrow> if \<not> cfg_unix S then False else \<not> has_same_target_write_override S p e
           | Minimal \<Rightarrow> False
           | UnknownPath _ _ \<Rightarrow> False
           | _ \<Rightarrow> \<not> has_same_target_write_override S p e))"

definition has_write_narrowing_entries :: "('p, 'a, 'g) sandbox_paths \<Rightarrow> 'p file_system_sandbox_policy \<Rightarrow> bool" where
  "has_write_narrowing_entries S p \<longleftrightarrow> fs_kind p = Restricted \<and> list_ex (entry_narrows_write S p) (entries p)"

definition has_full_disk_read_access :: "('p, 'a, 'g) sandbox_paths \<Rightarrow> 'p file_system_sandbox_policy \<Rightarrow> bool" where
  "has_full_disk_read_access S p \<longleftrightarrow>
     (case fs_kind p of
        Restricted \<Rightarrow> has_root_access p can_read \<and> \<not> has_denied_read_restrictions S p
      | _ \<Rightarrow> True)"

definition has_full_disk_write_access :: "('p, 'a, 'g) sandbox_paths \<Rightarrow> 'p file_system_sandbox_policy \<Rightarrow> bool" where
  "has_full_disk_write_access S p \<longleftrightarrow>
     (case fs_kind p of
        Restricted \<Rightarrow> has_root_access p can_write \<and> \<not> has_write_narrowing_entries S p
      | _ \<Rightarrow> True)"

definition include_platform_defaults :: "('p, 'a, 'g) sandbox_paths \<Rightarrow> 'p file_system_sandbox_policy \<Rightarrow> bool" where
  "include_platform_defaults S p \<longleftrightarrow>
     \<not> has_full_disk_read_access S p \<and> fs_kind p = Restricted \<and>
     list_ex (\<lambda>e. entry_path e = Special Minimal \<and> can_read (access e)) (entries p)"

section \<open>Access to a path\<close>

definition file_system_root :: "('p, 'a, 'g) sandbox_paths \<Rightarrow> 'p policy_context \<Rightarrow> 'p option" where
  "file_system_root S c =
     (case lexical_depth S (context_cwd c) of None \<Rightarrow> None | Some _ \<Rightarrow> Some (last_ancestor S (context_cwd c)))"

definition special_entry_paths ::
  "('p, 'a, 'g) sandbox_paths \<Rightarrow> 'p policy_context \<Rightarrow> file_system_special_path \<Rightarrow> 'p list" where
  "special_entry_paths S c v =
     (case v of
        Root \<Rightarrow> (case file_system_root S c of Some root \<Rightarrow> [root] | None \<Rightarrow> [])
      | ProjectRoots subpath \<Rightarrow>
          List.map_filter (\<lambda>root. case subpath of Some subpath \<Rightarrow> uri_join S root subpath | None \<Rightarrow> Some root)
            (workspace_roots c)
      | Tmpdir \<Rightarrow> (case temporary_directories c of Some dirs \<Rightarrow> dirs | None \<Rightarrow> [])
      | SlashTmp \<Rightarrow>
          if infer_path_convention S (context_cwd c) = Some Posix
          then (case uri_join S (context_cwd c) (str ''/tmp'') of Some path \<Rightarrow> [path] | None \<Rightarrow> [])
          else []
      | Minimal \<Rightarrow> []
      | UnknownPath _ _ \<Rightarrow> [])"

definition entry_paths ::
  "('p, 'a, 'g) sandbox_paths \<Rightarrow> 'p policy_context \<Rightarrow> 'p file_system_sandbox_entry \<Rightarrow> 'p list" where
  "entry_paths S c e =
     filter (\<lambda>path. infer_path_convention S path = infer_path_convention S (context_cwd c))
       (case entry_path e of
          FsPath path \<Rightarrow> [path]
        | GlobPattern _ \<Rightarrow> []
        | Special v \<Rightarrow> special_entry_paths S c v)"

definition resolved_entries ::
  "('p, 'a, 'g) sandbox_paths \<Rightarrow> 'p policy_context \<Rightarrow> 'p file_system_sandbox_policy \<Rightarrow>
     ('p \<times> file_system_access_mode) list" where
  "resolved_entries S c p = concat (map (\<lambda>e. map (\<lambda>path. (path, access e)) (entry_paths S c e)) (entries p))"

text \<open>Entries with the depth of their path. An opaque path is skipped; another path without a depth makes
  the whole policy unusable.\<close>

fun entry_depths ::
  "('p, 'a, 'g) sandbox_paths \<Rightarrow> ('p \<times> file_system_access_mode) list \<Rightarrow>
     ('p \<times> file_system_access_mode \<times> nat) list option" where
  "entry_depths S [] = Some []"
| "entry_depths S ((root, mode) # rest) =
     (case lexical_depth S root of
        Some depth \<Rightarrow> map_option (\<lambda>es. (root, mode, depth) # es) (entry_depths S rest)
      | None \<Rightarrow> if is_opaque S root then entry_depths S rest else None)"

definition comparable_path :: "('p, 'a, 'g) sandbox_paths \<Rightarrow> 'p policy_context \<Rightarrow> 'p \<Rightarrow> bool" where
  "comparable_path S c path \<longleftrightarrow>
     infer_path_convention S (context_cwd c) \<noteq> None \<and>
     infer_path_convention S path = infer_path_convention S (context_cwd c) \<and>
     lexical_depth S path \<noteq> None \<and> lexical_depth S (context_cwd c) \<noteq> None"

definition resolve_access ::
  "('p, 'a, 'g) sandbox_paths \<Rightarrow> 'p policy_context \<Rightarrow> 'p file_system_sandbox_policy \<Rightarrow> 'p \<Rightarrow>
     file_system_access_mode" where
  "resolve_access S c p path =
     (if fs_kind p \<noteq> Restricted then Write
      else if \<not> comparable_path S c path then Deny
      else
        (case entry_depths S (resolved_entries S c p) of
           None \<Rightarrow> Deny
         | Some es \<Rightarrow>
             (case max_by_key (\<lambda>(_, mode, depth). (depth, mode))
                     (filter (\<lambda>(root, _, _). uri_starts_with S path root) es) of
                Some (_, mode, _) \<Rightarrow> mode
              | None \<Rightarrow> Deny)))"

definition PROTECTED_METADATA_PATH_NAMES :: "ustr list" where
  "PROTECTED_METADATA_PATH_NAMES = [str ''.git'', str ''.agents'', str ''.codex'']"

definition is_protected_metadata_name :: "ustr \<Rightarrow> bool" where
  "is_protected_metadata_name name = list_ex (\<lambda>metadata_name. name = metadata_name) PROTECTED_METADATA_PATH_NAMES"

text \<open>The first protected directory of a writable root, in the order of the entries, that holds the path.\<close>

definition protected_ancestor ::
  "('p, 'a, 'g) sandbox_paths \<Rightarrow> ('p \<times> file_system_access_mode) list \<Rightarrow> 'p \<Rightarrow> ('p \<times> ustr) option" where
  "protected_ancestor S es path =
     find_map (\<lambda>(root, _).
       find_map (\<lambda>metadata_name.
         case join_descendant S root metadata_name of
           Some protected \<Rightarrow> if uri_starts_with S path protected then Some (protected, metadata_name) else None
         | None \<Rightarrow> None) PROTECTED_METADATA_PATH_NAMES)
       (filter (\<lambda>(_, mode). can_write mode) es)"

definition metadata_write_denial ::
  "('p, 'a, 'g) sandbox_paths \<Rightarrow> 'p policy_context \<Rightarrow> 'p file_system_sandbox_policy \<Rightarrow> 'p \<Rightarrow> ustr option" where
  "metadata_write_denial S c p path =
     (if fs_kind p \<noteq> Restricted then None
      else
        let es = resolved_entries S c p in
        case protected_ancestor S es path of
          None \<Rightarrow> None
        | Some (protected, metadata_name) \<Rightarrow>
            if list_ex (\<lambda>(root, mode). can_write mode \<and> uri_starts_with S path root \<and>
                 uri_starts_with S root protected) es
            then None else Some metadata_name)"

definition can_write_path ::
  "('p, 'a, 'g) sandbox_paths \<Rightarrow> 'p policy_context \<Rightarrow> 'p file_system_sandbox_policy \<Rightarrow> 'p \<Rightarrow> bool" where
  "can_write_path S c p path \<longleftrightarrow>
     can_write (resolve_access S c p path) \<and>
     (has_full_disk_write_access S p \<or> metadata_write_denial S c p path = None)"

subsection \<open>Paths of the local machine\<close>

definition resolve_candidate_path :: "('p, 'a, 'g) sandbox_paths \<Rightarrow> ustr \<Rightarrow> ustr \<Rightarrow> 'a option" where
  "resolve_candidate_path S path cwd =
     (if is_absolute_path S path then result_ok (from_absolute_path S path)
      else map_option (\<lambda>cwd. abs_join S cwd path) (result_ok (from_absolute_path S cwd)))"

definition local_temporary_directories :: "('p, 'a, 'g) sandbox_paths \<Rightarrow> 'p list" where
  "local_temporary_directories S =
     (case env_tmpdir S of
        None \<Rightarrow> []
      | Some tmpdir \<Rightarrow>
          if tmpdir = [] then []
          else (case result_ok (from_absolute_path S tmpdir) of Some dir \<Rightarrow> [from_abs_path S dir] | None \<Rightarrow> []))"

definition local_context :: "('p, 'a, 'g) sandbox_paths \<Rightarrow> 'a \<Rightarrow> 'p policy_context" where
  "local_context S cwd =
     \<lparr>context_cwd = from_abs_path S cwd, workspace_roots = [from_abs_path S cwd],
      user_home_dir = home_dir S, temporary_directories = Some (local_temporary_directories S)\<rparr>"

definition with_local_policy_context ::
  "('p, 'a, 'g) sandbox_paths \<Rightarrow> ustr \<Rightarrow> ustr \<Rightarrow> ('p \<Rightarrow> 'p policy_context \<Rightarrow> 't) \<Rightarrow> 't option" where
  "with_local_policy_context S path cwd evaluate =
     Option.bind (result_ok (from_absolute_path S cwd)) (\<lambda>cwd_abs.
     map_option (\<lambda>path. evaluate (from_abs_path S path) (local_context S cwd_abs))
       (resolve_candidate_path S path (abs_text S cwd_abs)))"

definition resolve_access_with_cwd ::
  "('p, 'a, 'g) sandbox_paths \<Rightarrow> 'p file_system_sandbox_policy \<Rightarrow> ustr \<Rightarrow> ustr \<Rightarrow> file_system_access_mode" where
  "resolve_access_with_cwd S p path cwd =
     (case with_local_policy_context S path cwd (\<lambda>path c. resolve_access S c p path) of
        Some mode \<Rightarrow> mode
      | None \<Rightarrow> Deny)"

definition can_read_path_with_cwd ::
  "('p, 'a, 'g) sandbox_paths \<Rightarrow> 'p file_system_sandbox_policy \<Rightarrow> ustr \<Rightarrow> ustr \<Rightarrow> bool" where
  "can_read_path_with_cwd S p path cwd \<longleftrightarrow> can_read (resolve_access_with_cwd S p path cwd)"

definition can_write_path_with_cwd ::
  "('p, 'a, 'g) sandbox_paths \<Rightarrow> 'p file_system_sandbox_policy \<Rightarrow> ustr \<Rightarrow> ustr \<Rightarrow> bool" where
  "can_write_path_with_cwd S p path cwd \<longleftrightarrow>
     with_local_policy_context S path cwd (\<lambda>path c. can_write_path S c p path) = Some True"

definition forbidden_agent_metadata_write ::
  "('p, 'a, 'g) sandbox_paths \<Rightarrow> ustr \<Rightarrow> ustr \<Rightarrow> 'p file_system_sandbox_policy \<Rightarrow> ustr option" where
  "forbidden_agent_metadata_write S path cwd p =
     (if fs_kind p \<noteq> Restricted then None
      else
        (case with_local_policy_context S path cwd (\<lambda>path c.
             case metadata_write_denial S c p path of
               Some name \<Rightarrow> if \<not> can_write_path S c p path then Some name else None
             | None \<Rightarrow> None) of
           Some denial \<Rightarrow> denial
         | None \<Rightarrow> None))"

section \<open>Denied reads\<close>

definition deny_read_glob :: "('p, 'a, 'g) sandbox_paths \<Rightarrow> 'p policy_context \<Rightarrow> ustr \<Rightarrow> ustr + ustr" where
  "deny_read_glob S c pattern =
     (let is_windows = (infer_path_convention S (context_cwd c) = Some Windows);
          home_relative =
            (case strip_prefix (str ''~/'') pattern of
               Some suffix \<Rightarrow> Some suffix
             | None \<Rightarrow> if is_windows then strip_prefix [126, 92] pattern else None);
          native = (\<lambda>root pattern.
            case uri_join S root pattern of
              Some path \<Rightarrow> Inr (inferred_native_path_string S path)
            | None \<Rightarrow> Inl (str ''unable to resolve deny-read glob pattern `'' @ pattern @ str ''`''))
      in case home_relative of
           Some suffix \<Rightarrow>
             (case user_home_dir c of
                Some home \<Rightarrow> native home (dropWhile (\<lambda>separator. separator = 47 \<or> is_windows \<and> separator = 92) suffix)
              | None \<Rightarrow> Inl (str ''unable to resolve deny-read glob pattern `'' @ pattern @
                  str ''` without executor home''))
         | None \<Rightarrow> native (context_cwd c) pattern)"

fun glob_of_path :: "'p file_system_path \<Rightarrow> ustr option" where
  "glob_of_path (GlobPattern pattern) = Some pattern"
| "glob_of_path _ = None"

definition deny_read_globs ::
  "('p, 'a, 'g) sandbox_paths \<Rightarrow> 'p policy_context \<Rightarrow> 'p file_system_sandbox_policy \<Rightarrow> ustr + ustr list" where
  "deny_read_globs S c p =
     try_map (deny_read_glob S c)
       (List.map_filter (\<lambda>e. glob_of_path (entry_path e)) (filter (\<lambda>e. access e = Deny) (entries p)))"

definition build_glob_matcher :: "('p, 'a, 'g) sandbox_paths \<Rightarrow> ustr \<Rightarrow> path_convention \<Rightarrow> ustr + 'g" where
  "build_glob_matcher S pattern convention =
     glob_build S (convention = Posix) (convention = Windows)
       (if convention = Windows then map (\<lambda>c. if c = 92 then 47 else c) pattern else pattern)"

datatype invalid_glob_behavior = FailClosed | ReturnError

fun build_glob_matchers ::
  "('p, 'a, 'g) sandbox_paths \<Rightarrow> path_convention \<Rightarrow> invalid_glob_behavior \<Rightarrow> ustr list \<Rightarrow> ustr + 'g list \<times> bool" where
  "build_glob_matchers S convention behavior [] = Inr ([], False)"
| "build_glob_matchers S convention behavior (pattern # patterns) =
     (case build_glob_matcher S pattern convention of
        Inr matcher \<Rightarrow>
          and_then (build_glob_matchers S convention behavior patterns) (\<lambda>(matchers, invalid_pattern).
            Inr (matcher # matchers, invalid_pattern))
      | Inl err \<Rightarrow>
          (case behavior of
             FailClosed \<Rightarrow>
               and_then (build_glob_matchers S convention behavior patterns) (\<lambda>(matchers, _). Inr (matchers, True))
           | ReturnError \<Rightarrow>
               Inl (str ''invalid deny-read glob pattern `'' @ pattern @ str ''`: '' @ err)))"

definition denied_roots_of ::
  "('p, 'a, 'g) sandbox_paths \<Rightarrow> 'p policy_context \<Rightarrow> 'p file_system_sandbox_policy \<Rightarrow> 'p list" where
  "denied_roots_of S c p =
     map fst (filter (\<lambda>(root, mode). mode = Deny \<and>
       \<not> (case file_system_root S c of
            Some top_path \<Rightarrow> uri_starts_with S root top_path \<and> uri_starts_with S top_path root
          | None \<Rightarrow> False)) (resolved_entries S c p))"

definition prepare_deny_read_matcher ::
  "('p, 'a, 'g) sandbox_paths \<Rightarrow> 'p policy_context \<Rightarrow> invalid_glob_behavior \<Rightarrow> 'p file_system_sandbox_policy \<Rightarrow>
     ustr + 'p list \<times> 'g list \<times> bool" where
  "prepare_deny_read_matcher S c behavior p =
     (let denied_roots = denied_roots_of S c p in
      case infer_path_convention S (context_cwd c) of
        None \<Rightarrow> Inr (denied_roots, [], True)
      | Some convention \<Rightarrow>
          (case deny_read_globs S c p of
             Inl err \<Rightarrow> (case behavior of FailClosed \<Rightarrow> Inr (denied_roots, [], True) | ReturnError \<Rightarrow> Inl err)
           | Inr patterns \<Rightarrow>
               and_then (build_glob_matchers S convention behavior patterns) (\<lambda>(matchers, invalid_pattern).
                 Inr (denied_roots, matchers, invalid_pattern))))"

definition glob_candidate :: "('p, 'a, 'g) sandbox_paths \<Rightarrow> path_convention \<Rightarrow> 'p \<Rightarrow> nat list" where
  "glob_candidate S convention path =
     (case convention of
        Posix \<Rightarrow> decoded_path_bytes S path
      | Windows \<Rightarrow> utf8_bytes (map (\<lambda>c. if c = 92 then 47 else c) (inferred_native_path_string S path)))"

definition matches_prepared_read_deny ::
  "('p, 'a, 'g) sandbox_paths \<Rightarrow> 'p policy_context \<Rightarrow> 'p list \<times> 'g list \<times> bool \<Rightarrow> 'p \<Rightarrow> bool" where
  "matches_prepared_read_deny S c prepared path =
     (case prepared of (denied_roots, deny_read_matchers, invalid_pattern) \<Rightarrow>
       (case infer_path_convention S (context_cwd c) of
          None \<Rightarrow> True
        | Some convention \<Rightarrow>
            \<not> comparable_path S c path \<or> invalid_pattern \<or>
            list_ex (\<lambda>root. uri_starts_with S path root) denied_roots \<or>
            list_ex (\<lambda>matcher. glob_is_match S matcher (glob_candidate S convention path)) deny_read_matchers))"

record ('p, 'a, 'g) read_deny_matcher =
  matcher_cwd :: 'a
  matcher_home :: "'p option"
  matcher_temporary :: "'p list"
  matcher_prepared :: "'p list \<times> 'g list \<times> bool"

definition read_deny_build ::
  "('p, 'a, 'g) sandbox_paths \<Rightarrow> 'p file_system_sandbox_policy \<Rightarrow> ustr \<Rightarrow> invalid_glob_behavior \<Rightarrow>
     ustr + ('p, 'a, 'g) read_deny_matcher option" where
  "read_deny_build S p cwd behavior =
     (if \<not> has_denied_read_restrictions S p then Inr None
      else
        (case from_absolute_path S cwd of
           Inl err \<Rightarrow> Inl (str ''invalid read-deny cwd: '' @ err)
         | Inr cwd \<Rightarrow>
             and_then (prepare_deny_read_matcher S (local_context S cwd) behavior p) (\<lambda>prepared.
               Inr (Some \<lparr>matcher_cwd = cwd, matcher_home = home_dir S,
                 matcher_temporary = local_temporary_directories S, matcher_prepared = prepared\<rparr>))))"

text \<open>\<open>None\<close> is the panic of \<^verbatim>\<open>unreachable!\<close>.\<close>

definition read_deny_new ::
  "('p, 'a, 'g) sandbox_paths \<Rightarrow> 'p file_system_sandbox_policy \<Rightarrow> ustr \<Rightarrow> ('p, 'a, 'g) read_deny_matcher option option" where
  "read_deny_new S p cwd =
     (case read_deny_build S p cwd FailClosed of Inr matcher \<Rightarrow> Some matcher | Inl _ \<Rightarrow> None)"

definition matcher_context :: "('p, 'a, 'g) sandbox_paths \<Rightarrow> ('p, 'a, 'g) read_deny_matcher \<Rightarrow> 'p policy_context" where
  "matcher_context S m =
     \<lparr>context_cwd = from_abs_path S (matcher_cwd m), workspace_roots = [from_abs_path S (matcher_cwd m)],
      user_home_dir = matcher_home m, temporary_directories = Some (matcher_temporary m)\<rparr>"

definition is_read_denied :: "('p, 'a, 'g) sandbox_paths \<Rightarrow> ('p, 'a, 'g) read_deny_matcher \<Rightarrow> ustr \<Rightarrow> bool" where
  "is_read_denied S m path =
     (case resolve_candidate_path S path (abs_text S (matcher_cwd m)) of
        None \<Rightarrow> True
      | Some path \<Rightarrow>
          matches_prepared_read_deny S (matcher_context S m) (matcher_prepared m) (from_abs_path S path))"

definition is_read_denied_with_canonical_path ::
  "('p, 'a, 'g) sandbox_paths \<Rightarrow> ('p, 'a, 'g) read_deny_matcher \<Rightarrow> ustr \<Rightarrow> ustr \<Rightarrow> bool" where
  "is_read_denied_with_canonical_path S m path canonical_path \<longleftrightarrow>
     is_read_denied S m path \<or> is_read_denied S m canonical_path"

end
