(* ===== verification/Sandbox_Policy_Laws.thy ===== *)
theory Sandbox_Policy_Laws
  imports Sandbox_Policy
begin

text \<open>
  What the permissions promise: the most specific entry decides, a policy that reports full write access
  really gives it, and the read-deny matcher denies what some deny entry denies, failing closed.
\<close>

section \<open>The entry that decides\<close>

lemma entry_depths_Some:
  assumes "entry_depths S es = Some ds"
  shows "set ds = {(root, mode, depth). (root, mode) \<in> set es \<and> lexical_depth S root = Some depth}"
  using assms
  by (induction S es arbitrary: ds rule: entry_depths.induct) (auto split: option.splits if_splits)

text \<open>The entries that cover a path, with their depth.\<close>

definition covers ::
  "('p, 'a, 'g) sandbox_paths \<Rightarrow> 'p policy_context \<Rightarrow> 'p file_system_sandbox_policy \<Rightarrow> 'p \<Rightarrow>
     (nat \<times> file_system_access_mode) set" where
  "covers S c p path =
     {(depth, mode) | depth mode root. (root, mode) \<in> set (resolved_entries S c p) \<and>
        lexical_depth S root = Some depth \<and> uri_starts_with S path root}"

lemma resolve_access_cases:
  assumes "fs_kind p = Restricted" "comparable_path S c path" "entry_depths S (resolved_entries S c p) \<noteq> None"
  shows "covers S c p path = {} \<and> resolve_access S c p path = Deny \<or>
    (\<exists>depth. (depth, resolve_access S c p path) \<in> covers S c p path \<and>
       (\<forall>k \<in> covers S c p path. k \<le> (depth, resolve_access S c p path)))"
proof -
  from assms(3) obtain ds where ds: "entry_depths S (resolved_entries S c p) = Some ds" by blast
  let ?key = "\<lambda>(_, mode, depth). (depth, mode)" and ?at = "filter (\<lambda>(root, _, _). uri_starts_with S path root) ds"
  have covers: "covers S c p path = ?key ` set ?at"
    by (force simp: covers_def entry_depths_Some [OF ds])
  have access: "resolve_access S c p path =
      (case max_by_key ?key ?at of Some (_, mode, _) \<Rightarrow> mode | None \<Rightarrow> Deny)"
    using assms ds by (simp add: resolve_access_def)
  show ?thesis
  proof (cases "max_by_key ?key ?at")
    case None
    then have "?at = []" by (simp add: max_by_key_None)
    with covers access show ?thesis by simp
  next
    case (Some m)
    obtain root mode depth where m: "m = (root, mode, depth)" by (cases m)
    with Some access have "resolve_access S c p path = mode" by simp
    with covers m max_by_key_Some [OF Some] show ?thesis
      by (intro disjI2 exI [of _ depth]) (force simp: m)
  qed
qed

lemma resolve_accessI:
  assumes "fs_kind p = Restricted" "comparable_path S c path" "entry_depths S (resolved_entries S c p) \<noteq> None"
    and "(depth, mode) \<in> covers S c p path" "\<And>d m. (d, m) \<in> covers S c p path \<Longrightarrow> (d, m) \<le> (depth, mode)"
  shows "resolve_access S c p path = mode"
proof -
  from resolve_access_cases [OF assms(1-3)] assms(4) obtain d where
    d: "(d, resolve_access S c p path) \<in> covers S c p path"
      "\<forall>k \<in> covers S c p path. k \<le> (d, resolve_access S c p path)"
    by auto
  from assms(5) [OF d(1)] d(2) assms(4) have "(d, resolve_access S c p path) = (depth, mode)"
    by (meson order_antisym)
  then show ?thesis by simp
qed

section \<open>Full write access\<close>

text \<open>What the paths of a Unix machine satisfy: there is one root, it is above every path, and \<^verbatim>\<open>/\<close> and
  \<^verbatim>\<open>/tmp\<close> have one spelling.\<close>

definition unix_path_laws :: "('p, 'a, 'g) sandbox_paths \<Rightarrow> 'p policy_context \<Rightarrow> bool" where
  "unix_path_laws S c \<longleftrightarrow>
     (let root = last_ancestor S (context_cwd c) in
      cfg_unix S \<and> infer_path_convention S (context_cwd c) = Some Posix \<and>
      infer_path_convention S root = Some Posix \<and> lexical_depth S root \<noteq> None \<and>
      (\<forall>path. comparable_path S c path \<longrightarrow> uri_starts_with S path root) \<and>
      (\<forall>path a. to_abs_path S path = Inr a \<and> abs_parent S a = None \<longrightarrow> path = root) \<and>
      (\<forall>path a. to_abs_path S path = Inr a \<and> abs_is S a (str ''/tmp'') \<longrightarrow>
         uri_join S (context_cwd c) (str ''/tmp'') = Some path))"

lemma resolved_entries_iff:
  "(path, mode) \<in> set (resolved_entries S c p) \<longleftrightarrow>
   (\<exists>e \<in> set (entries p). access e = mode \<and> path \<in> set (entry_paths S c e))"
  by (auto simp: resolved_entries_def)

lemma resolved_entriesI:
  "e \<in> set (entries p) \<Longrightarrow> path \<in> set (entry_paths S c e) \<Longrightarrow> (path, access e) \<in> set (resolved_entries S c p)"
  by (auto simp: resolved_entries_iff)

lemma special_share_eq: "special_paths_share_target l r \<Longrightarrow> l = r"
  by (cases "(l, r)" rule: special_paths_share_target.cases) auto

lemma special_matches_cases:
  assumes "special_path_matches_absolute_path S v a"
  obtains "v = Root" "abs_parent S a = None" | "v = SlashTmp" "abs_is S a (str ''/tmp'')"
  using assms by (cases v) auto

text \<open>Entries with the same target stand for the same paths.\<close>

lemma share_target_paths:
  assumes laws: "unix_path_laws S c" and cwd: "lexical_depth S (context_cwd c) \<noteq> None"
    and share: "file_system_paths_share_target S (entry_path e) (entry_path e')"
  shows "entry_paths S c e = entry_paths S c e'"
proof -
  have root: "file_system_root S c = Some (last_ancestor S (context_cwd c))"
    using cwd by (auto simp: file_system_root_def)
  have mixed: "special_entry_paths S c v = [path]"
    if "to_abs_path S path = Inr a" "special_path_matches_absolute_path S v a" for path a v
    using that(2)
  proof (cases rule: special_matches_cases)
    case 1
    with laws that(1) have "path = last_ancestor S (context_cwd c)"
      by (simp add: unix_path_laws_def Let_def)
    with 1 root show ?thesis by (simp add: special_entry_paths_def)
  next
    case 2
    with laws that(1) have "uri_join S (context_cwd c) (str ''/tmp'') = Some path"
      "infer_path_convention S (context_cwd c) = Some Posix"
      by (simp_all add: unix_path_laws_def Let_def)
    with 2 show ?thesis by (simp add: special_entry_paths_def)
  qed
  show ?thesis
    using share
    by (cases "(S, entry_path e, entry_path e')" rule: file_system_paths_share_target.cases)
      (auto simp: entry_paths_def mixed dest!: special_share_eq split: sum.splits)
qed

lemma full_write_shadows:
  assumes laws: "unix_path_laws S c" and cwd: "lexical_depth S (context_cwd c) \<noteq> None"
    and p: "fs_kind p = Restricted" "has_full_disk_write_access S p"
    and at: "(path, mode) \<in> set (resolved_entries S c p)" "mode \<noteq> Write"
  shows "mode = Read \<and> (path, Write) \<in> set (resolved_entries S c p)"
proof -
  obtain e where e: "e \<in> set (entries p)" "path \<in> set (entry_paths S c e)" "mode = access e"
    using at(1) by (auto simp: resolved_entries_iff)
  have narrows: "\<not> entry_narrows_write S p e"
    using p e(1) by (auto simp: has_full_disk_write_access_def has_write_narrowing_entries_def list_ex_iff)
  have override: "mode = Read \<and> (path, Write) \<in> set (resolved_entries S c p)"
    if over: "has_same_target_write_override S p e"
  proof -
    from over obtain e' where e': "e' \<in> set (entries p)" "access e' = Write" "Write > access e"
      "file_system_paths_share_target S (entry_path e') (entry_path e)"
      by (auto simp: has_same_target_write_override_def list_ex_iff can_write_def)
    then have "path \<in> set (entry_paths S c e')" using e(2) share_target_paths [OF laws cwd] by metis
    moreover have "mode = Read" using e' e(3) by (cases mode) (auto simp: less_file_system_access_mode_def)
    ultimately show ?thesis using e'(1,2) resolved_entriesI by metis
  qed
  consider "has_same_target_write_override S p e" | "entry_path e = Special Root" "mode = Read" | "entry_paths S c e = []"
    using narrows at(2) e(3) laws
    by (cases "entry_path e"; cases mode)
      (auto simp: entry_narrows_write_def can_write_def entry_paths_def special_entry_paths_def
        unix_path_laws_def Let_def split: file_system_special_path.splits if_splits)
  then show ?thesis
  proof cases
    case 1
    then show ?thesis by (rule override)
  next
    case 2
    from p obtain e' where e': "e' \<in> set (entries p)" "entry_path e' = Special Root" "access e' = Write"
      by (auto simp: has_full_disk_write_access_def has_root_access_def list_ex_iff can_write_def)
    with e(2) 2 have "path \<in> set (entry_paths S c e')" by (simp add: entry_paths_def)
    with 2 e' resolved_entriesI show ?thesis by metis
  next
    case 3
    with e(2) show ?thesis by simp
  qed
qed


section \<open>Denied reads\<close>

text \<open>What one deny entry denies: the paths under its directories, apart from the root of the file system,
  and the paths its glob matches; a glob that cannot be resolved or compiled denies everything.\<close>

definition is_file_system_root :: "('p, 'a, 'g) sandbox_paths \<Rightarrow> 'p policy_context \<Rightarrow> 'p \<Rightarrow> bool" where
  "is_file_system_root S c root \<longleftrightarrow>
     (case file_system_root S c of
        Some top_path \<Rightarrow> uri_starts_with S root top_path \<and> uri_starts_with S top_path root
      | None \<Rightarrow> False)"

definition root_denies ::
  "('p, 'a, 'g) sandbox_paths \<Rightarrow> 'p policy_context \<Rightarrow> 'p file_system_sandbox_entry \<Rightarrow> 'p \<Rightarrow> bool" where
  "root_denies S c e path \<longleftrightarrow>
     (\<exists>root \<in> set (entry_paths S c e). uri_starts_with S path root \<and> \<not> is_file_system_root S c root)"

definition glob_denies ::
  "('p, 'a, 'g) sandbox_paths \<Rightarrow> 'p policy_context \<Rightarrow> path_convention \<Rightarrow> ustr \<Rightarrow> 'p \<Rightarrow> bool" where
  "glob_denies S c convention pattern path \<longleftrightarrow>
     (case and_then (deny_read_glob S c pattern) (\<lambda>native. build_glob_matcher S native convention) of
        Inl _ \<Rightarrow> True
      | Inr matcher \<Rightarrow> glob_is_match S matcher (glob_candidate S convention path))"

definition entry_denies_read ::
  "('p, 'a, 'g) sandbox_paths \<Rightarrow> 'p policy_context \<Rightarrow> path_convention \<Rightarrow> 'p file_system_sandbox_entry \<Rightarrow> 'p \<Rightarrow> bool" where
  "entry_denies_read S c convention e path \<longleftrightarrow>
     access e = Deny \<and>
     (root_denies S c e path \<or>
      (\<exists>pattern. entry_path e = GlobPattern pattern \<and> glob_denies S c convention pattern path))"

lemma build_glob_matchers_FailClosed:
  "\<exists>matchers invalid. build_glob_matchers S convention FailClosed patterns = Inr (matchers, invalid) \<and>
     set matchers = {m. \<exists>pattern \<in> set patterns. build_glob_matcher S pattern convention = Inr m} \<and>
     (invalid \<longleftrightarrow> (\<exists>pattern \<in> set patterns. \<exists>err. build_glob_matcher S pattern convention = Inl err))"
proof (induction patterns)
  case (Cons pattern patterns)
  then obtain matchers invalid where "build_glob_matchers S convention FailClosed patterns = Inr (matchers, invalid)"
    "set matchers = {m. \<exists>pattern \<in> set patterns. build_glob_matcher S pattern convention = Inr m}"
    "invalid \<longleftrightarrow> (\<exists>pattern \<in> set patterns. \<exists>err. build_glob_matcher S pattern convention = Inl err)" by blast
  then show ?case by (cases "build_glob_matcher S pattern convention") auto
qed auto

definition deny_globs :: "'p file_system_sandbox_policy \<Rightarrow> ustr set" where
  "deny_globs p = {pattern. \<exists>e \<in> set (entries p). access e = Deny \<and> entry_path e = GlobPattern pattern}"

lemma glob_of_path_Some: "glob_of_path path = Some pattern \<longleftrightarrow> path = GlobPattern pattern"
  by (cases path) auto

lemma deny_read_globs_list:
  "set (List.map_filter (\<lambda>e. glob_of_path (entry_path e)) (filter (\<lambda>e. access e = Deny) (entries p))) = deny_globs p"
  by (auto simp: map_filter_set deny_globs_def glob_of_path_Some)

lemma denied_roots_cover:
  "list_ex (\<lambda>root. uri_starts_with S path root) (denied_roots_of S c p) \<longleftrightarrow>
   (\<exists>e \<in> set (entries p). access e = Deny \<and> root_denies S c e path)"
proof -
  have "denied_roots_of S c p =
      map fst (filter (\<lambda>(root, mode). mode = Deny \<and> \<not> is_file_system_root S c root) (resolved_entries S c p))"
    by (simp add: denied_roots_of_def is_file_system_root_def)
  then have "list_ex (\<lambda>root. uri_starts_with S path root) (denied_roots_of S c p) \<longleftrightarrow>
      (\<exists>root. (root, Deny) \<in> set (resolved_entries S c p) \<and> \<not> is_file_system_root S c root \<and> uri_starts_with S path root)"
    by (auto simp: list_ex_iff)
  also have "\<dots> \<longleftrightarrow> (\<exists>e \<in> set (entries p). access e = Deny \<and> root_denies S c e path)"
    unfolding root_denies_def resolved_entries_iff by blast
  finally show ?thesis .
qed

lemma entry_denies_split:
  "(\<exists>e \<in> set (entries p). entry_denies_read S c convention e path) \<longleftrightarrow>
   list_ex (\<lambda>root. uri_starts_with S path root) (denied_roots_of S c p) \<or>
   (\<exists>pattern \<in> deny_globs p. glob_denies S c convention pattern path)"
  unfolding denied_roots_cover entry_denies_read_def deny_globs_def by blast

lemma resolved_globs:
  assumes "deny_read_globs S c p = Inr natives"
  shows "pattern \<in> deny_globs p \<Longrightarrow> \<exists>native \<in> set natives. deny_read_glob S c pattern = Inr native"
    and "native \<in> set natives \<Longrightarrow> \<exists>pattern \<in> deny_globs p. deny_read_glob S c pattern = Inr native"
proof -
  let ?ps = "List.map_filter (\<lambda>e. glob_of_path (entry_path e)) (filter (\<lambda>e. access e = Deny) (entries p))"
  from assms have "list_all2 (\<lambda>pattern native. deny_read_glob S c pattern = Inr native) ?ps natives"
    by (simp add: deny_read_globs_def try_map_Inr)
  then have l: "length ?ps = length natives"
    and i: "\<And>i. i < length natives \<Longrightarrow> deny_read_glob S c (?ps ! i) = Inr (natives ! i)"
    by (simp_all add: list_all2_conv_all_nth)
  show "\<exists>native \<in> set natives. deny_read_glob S c pattern = Inr native" if "pattern \<in> deny_globs p"
  proof -
    from that obtain k where "k < length ?ps" "pattern = ?ps ! k"
      unfolding deny_read_globs_list [symmetric] in_set_conv_nth by blast
    with l i [of k] show ?thesis by (intro bexI [of _ "natives ! k"]) simp_all
  qed
  show "\<exists>pattern \<in> deny_globs p. deny_read_glob S c pattern = Inr native" if "native \<in> set natives"
  proof -
    from that obtain k where "k < length natives" "native = natives ! k"
      unfolding in_set_conv_nth by blast
    with l i [of k] have "?ps ! k \<in> set ?ps" "deny_read_glob S c (?ps ! k) = Inr native" by simp_all
    then show ?thesis unfolding deny_read_globs_list by (rule bexI [rotated])
  qed
qed

lemma glob_denies_matchers:
  assumes "deny_read_globs S c p = Inr natives"
    and "set matchers = {m. \<exists>native \<in> set natives. build_glob_matcher S native convention = Inr m}"
    and "invalid \<longleftrightarrow> (\<exists>native \<in> set natives. \<exists>err. build_glob_matcher S native convention = Inl err)"
  shows "(\<exists>pattern \<in> deny_globs p. glob_denies S c convention pattern path) \<longleftrightarrow>
    invalid \<or> list_ex (\<lambda>matcher. glob_is_match S matcher (glob_candidate S convention path)) matchers"
proof
  assume "\<exists>pattern \<in> deny_globs p. glob_denies S c convention pattern path"
  then obtain pattern native where "glob_denies S c convention pattern path"
    "native \<in> set natives" "deny_read_glob S c pattern = Inr native"
    using resolved_globs(1) [OF assms(1)] by blast
  then show "invalid \<or> list_ex (\<lambda>matcher. glob_is_match S matcher (glob_candidate S convention path)) matchers"
    using assms(2,3) by (cases "build_glob_matcher S native convention") (auto simp: glob_denies_def list_ex_iff)
next
  assume "invalid \<or> list_ex (\<lambda>matcher. glob_is_match S matcher (glob_candidate S convention path)) matchers"
  then obtain native where native: "native \<in> set natives" "case build_glob_matcher S native convention of
      Inl _ \<Rightarrow> True | Inr matcher \<Rightarrow> glob_is_match S matcher (glob_candidate S convention path)"
    using assms(2,3) by (force simp: list_ex_iff)
  with resolved_globs(2) [OF assms(1)] obtain pattern where
    "pattern \<in> deny_globs p" "deny_read_glob S c pattern = Inr native" by blast
  with native(2) show "\<exists>pattern \<in> deny_globs p. glob_denies S c convention pattern path"
    by (intro bexI [of _ pattern]) (simp_all add: glob_denies_def)
qed

text \<open>The matcher that fails closed denies a path when the path cannot be compared, or when some entry
  denies it.\<close>

lemma read_denied_iff:
  assumes "infer_path_convention S (context_cwd c) = Some convention"
  shows "\<exists>prepared. prepare_deny_read_matcher S c FailClosed p = Inr prepared \<and>
    (\<forall>path. matches_prepared_read_deny S c prepared path \<longleftrightarrow>
       \<not> comparable_path S c path \<or> (\<exists>e \<in> set (entries p). entry_denies_read S c convention e path))"
proof (cases "deny_read_globs S c p")
  case (Inl err)
  then obtain pattern where pattern: "pattern \<in> deny_globs p" "deny_read_glob S c pattern = Inl err"
    unfolding deny_read_globs_def deny_read_globs_list [symmetric] by (auto dest!: try_map_Inl)
  then have "\<exists>pattern \<in> deny_globs p. glob_denies S c convention pattern path" for path
    by (intro bexI [of _ pattern]) (simp_all add: glob_denies_def)
  then have "\<exists>e \<in> set (entries p). entry_denies_read S c convention e path" for path
    unfolding entry_denies_split by blast
  with Inl assms show ?thesis
    by (simp add: prepare_deny_read_matcher_def matches_prepared_read_deny_def)
next
  case (Inr natives)
  obtain matchers invalid where built: "build_glob_matchers S convention FailClosed natives = Inr (matchers, invalid)"
    "set matchers = {m. \<exists>native \<in> set natives. build_glob_matcher S native convention = Inr m}"
    "invalid \<longleftrightarrow> (\<exists>native \<in> set natives. \<exists>err. build_glob_matcher S native convention = Inl err)"
    using build_glob_matchers_FailClosed [of S convention natives] by (elim exE conjE) (rule that)
  have "prepare_deny_read_matcher S c FailClosed p = Inr (denied_roots_of S c p, matchers, invalid)"
    using Inr assms built(1) by (simp add: prepare_deny_read_matcher_def)
  moreover have "matches_prepared_read_deny S c (denied_roots_of S c p, matchers, invalid) path \<longleftrightarrow>
      \<not> comparable_path S c path \<or> (\<exists>e \<in> set (entries p). entry_denies_read S c convention e path)" for path
    unfolding entry_denies_split glob_denies_matchers [OF Inr built(2,3)]
    using assms by (auto simp: matches_prepared_read_deny_def)
  ultimately show ?thesis by blast
qed

lemma foldl_new_keeps: "set es \<union> set ds \<subseteq> set (foldl (\<lambda>es d. if d \<in> set es then es else es @ [d]) es ds)"
proof (induction ds arbitrary: es)
  case (Cons d ds)
  from Cons [of "if d \<in> set es then es else es @ [d]"] show ?case by (auto split: if_splits)
qed simp

lemma append_deny_adds: "{e \<in> set (entries existing). access e = Deny} \<subseteq> set (append_deny_entries existing es)"
  using foldl_new_keeps [of es "filter (\<lambda>e. access e = Deny) (entries existing)"] by (auto simp: append_deny_entries_def)

lemma preserve_keeps_deny:
  assumes "fs_kind p \<noteq> ExternalSandbox" "e \<in> set (entries existing)" "access e = Deny"
  shows "fs_kind (preserve_deny_read_restrictions_from existing p) = Restricted \<and>
    e \<in> set (entries (preserve_deny_read_restrictions_from existing p))"
proof -
  have "list_ex (\<lambda>e. access e = Deny) (entries existing)" using assms(2,3) by (auto simp: list_ex_iff)
  moreover have "e \<in> set (append_deny_entries existing es)" for es using append_deny_adds assms(2,3) by blast
  ultimately show ?thesis
    using assms(1) by (cases "fs_kind p") (simp_all add: preserve_deny_read_restrictions_from_def policy_restricted_def Let_def)
qed

text \<open>More deny entries deny more.\<close>

lemma denied_reads_grow:
  assumes "infer_path_convention S (context_cwd c) \<noteq> None"
    and "\<And>e. e \<in> set (entries p) \<Longrightarrow> access e = Deny \<Longrightarrow> e \<in> set (entries q)"
    and "prepare_deny_read_matcher S c FailClosed p = Inr old" "matches_prepared_read_deny S c old path"
  shows "\<exists>new. prepare_deny_read_matcher S c FailClosed q = Inr new \<and> matches_prepared_read_deny S c new path"
proof -
  from assms(1) obtain convention where cwd: "infer_path_convention S (context_cwd c) = Some convention" by blast
  from read_denied_iff [OF cwd, of p] assms(3,4)
  have "\<not> comparable_path S c path \<or> (\<exists>e \<in> set (entries p). entry_denies_read S c convention e path)" by auto
  then have "\<not> comparable_path S c path \<or> (\<exists>e \<in> set (entries q). entry_denies_read S c convention e path)"
    using assms(2) by (auto simp: entry_denies_read_def)
  with read_denied_iff [OF cwd, of q] show ?thesis by auto
qed


section \<open>Protected metadata\<close>

lemma protected_ancestor_Some:
  assumes "protected_ancestor S es path = Some (protected, name)"
  shows "\<exists>root mode. (root, mode) \<in> set es \<and> can_write mode \<and> name \<in> set PROTECTED_METADATA_PATH_NAMES \<and>
    join_descendant S root name = Some protected \<and> uri_starts_with S path protected"
  using assms unfolding protected_ancestor_def
  by (fastforce dest!: find_map_Some split: option.splits if_splits)

lemma protected_ancestor_found:
  assumes "(root, Write) \<in> set es" "name \<in> set PROTECTED_METADATA_PATH_NAMES"
    "join_descendant S root name = Some protected" "uri_starts_with S path protected"
  shows "protected_ancestor S es path \<noteq> None"
proof -
  let ?name = "\<lambda>root n. case join_descendant S root n of
      Some protected \<Rightarrow> if uri_starts_with S path protected then Some (protected, n) else None | None \<Rightarrow> None"
  have "?name root name \<noteq> None" using assms(3,4) by simp
  then have "find_map (?name root) PROTECTED_METADATA_PATH_NAMES \<noteq> None" using assms(2) by (rule find_map_hit [rotated])
  then show ?thesis
    unfolding protected_ancestor_def using assms(1)
    by (intro find_map_hit [of "(root, Write)"]) (simp_all add: can_write_def)
qed


end
