(* ===== verification/Sandbox_Roots.thy ===== *)
theory Sandbox_Roots
  imports Sandbox_Policy_Laws
begin

text \<open>
  Building and rewriting file system policies: the workspace policy and its protected subpaths, the
  conversions from and to the older sandbox policies, and the replacement of symbolic workspace roots
  (\<^verbatim>\<open>codex-rs/protocol/src/permissions.rs\<close>, \<^verbatim>\<open>protocol.rs\<close>), and the permission profiles of \<^verbatim>\<open>models.rs\<close>.
\<close>

section \<open>Protected subpaths of a writable root\<close>

definition is_git_pointer_file :: "('p, 'a, 'g) sandbox_paths \<Rightarrow> 'a \<Rightarrow> bool" where
  "is_git_pointer_file S path \<longleftrightarrow> abs_is_file S path \<and> abs_file_name S path = Some (str ''.git'')"

definition resolve_gitdir_from_file :: "('p, 'a, 'g) sandbox_paths \<Rightarrow> 'a \<Rightarrow> 'a option" where
  "resolve_gitdir_from_file S dot_git =
     (case abs_read_to_string S dot_git of
        None \<Rightarrow> None
      | Some contents \<Rightarrow>
          (case split_once 58 (trim contents) of
             None \<Rightarrow> None
           | Some (prefix, gitdir_raw) \<Rightarrow>
               if trim prefix \<noteq> str ''gitdir'' then None
               else if trim gitdir_raw = [] then None
               else
                 (case abs_parent S dot_git of
                    None \<Rightarrow> None
                  | Some base \<Rightarrow>
                      let gitdir_path = resolve_path_against_base S (trim gitdir_raw) base in
                      if \<not> abs_exists S gitdir_path then None else Some gitdir_path)))"

text \<open>Without normalization, removing duplicates keeps the first of equal paths.\<close>

definition dedup_absolute_paths :: "'a list \<Rightarrow> 'a list" where
  "dedup_absolute_paths paths = foldl (\<lambda>deduped path. if path \<in> set deduped then deduped else deduped @ [path]) [] paths"

definition default_read_only_subpaths_for_writable_root ::
  "('p, 'a, 'g) sandbox_paths \<Rightarrow> 'a \<Rightarrow> bool \<Rightarrow> 'a list" where
  "default_read_only_subpaths_for_writable_root S writable_root protect_missing_dot_codex =
     (let top_level_git = abs_join S writable_root (str ''.git'');
          top_level_git_is_file = abs_is_file S top_level_git;
          top_level_git_is_dir = abs_is_dir S top_level_git;
          git = (if top_level_git_is_dir \<or> top_level_git_is_file then
              (if top_level_git_is_file \<and> is_git_pointer_file S top_level_git
               then (case resolve_gitdir_from_file S top_level_git of Some gitdir \<Rightarrow> [gitdir] | None \<Rightarrow> []) else []) @
              [top_level_git] else []);
          top_level_agents = abs_join S writable_root (str ''.agents'');
          agents = (if abs_is_dir S top_level_agents then [top_level_agents] else []);
          top_level_codex = abs_join S writable_root (str ''.codex'');
          codex = (if protect_missing_dot_codex \<or> abs_is_dir S top_level_codex then [top_level_codex] else [])
      in dedup_absolute_paths (git @ agents @ codex))"

definition append_default_read_only_entry_if_no_explicit_rule ::
  "('p, 'a, 'g) sandbox_paths \<Rightarrow> 'p file_system_path \<Rightarrow> 'p file_system_sandbox_entry list \<Rightarrow>
     'p file_system_sandbox_entry list" where
  "append_default_read_only_entry_if_no_explicit_rule S path es =
     (if list_ex (\<lambda>e. file_system_paths_share_target S (entry_path e) path) es then es
      else es @ [skip_missing_path path Read])"

definition append_default_read_only_paths ::
  "('p, 'a, 'g) sandbox_paths \<Rightarrow> 'a list \<Rightarrow> 'p file_system_sandbox_entry list \<Rightarrow> 'p file_system_sandbox_entry list" where
  "append_default_read_only_paths S paths es =
     fold (\<lambda>path. append_default_read_only_entry_if_no_explicit_rule S (FsPath (from_abs_path S path))) paths es"

definition protect_writable_roots ::
  "('p, 'a, 'g) sandbox_paths \<Rightarrow> 'a list \<Rightarrow> 'p file_system_sandbox_entry list \<Rightarrow> 'p file_system_sandbox_entry list" where
  "protect_writable_roots S roots es =
     fold (\<lambda>root. append_default_read_only_paths S (default_read_only_subpaths_for_writable_root S root False)) roots es"

section \<open>The workspace policy\<close>

definition workspace_entries ::
  "('p, 'a, 'g) sandbox_paths \<Rightarrow> 'a list \<Rightarrow> bool \<Rightarrow> bool \<Rightarrow> 'p file_system_sandbox_entry list" where
  "workspace_entries S writable_roots exclude_tmpdir_env_var exclude_slash_tmp =
     [entry_new (Special Root) Read, entry_new (Special (ProjectRoots None)) Write] @
     (if \<not> exclude_slash_tmp then [entry_new (Special SlashTmp) Write] else []) @
     (if \<not> exclude_tmpdir_env_var then [entry_new (Special Tmpdir) Write] else []) @
     map (\<lambda>path. entry_new (FsPath (from_abs_path S path)) Write) writable_roots"

definition workspace_write ::
  "('p, 'a, 'g) sandbox_paths \<Rightarrow> 'a list \<Rightarrow> bool \<Rightarrow> bool \<Rightarrow> 'p file_system_sandbox_policy" where
  "workspace_write S writable_roots exclude_tmpdir_env_var exclude_slash_tmp =
     policy_restricted (protect_writable_roots S writable_roots
       (fold (\<lambda>name. append_default_read_only_entry_if_no_explicit_rule S (Special (ProjectRoots (Some name))))
          [str ''.git'', str ''.agents'', str ''.codex'']
          (workspace_entries S writable_roots exclude_tmpdir_env_var exclude_slash_tmp)))"

section \<open>Older sandbox policies\<close>

datatype network_access = AccessRestricted | AccessEnabled

datatype 'a sandbox_policy =
    DangerFullAccess
  | ReadOnly bool
  | ExternalSandboxPolicy network_access
  | WorkspaceWrite "'a list" bool bool bool

fun has_full_network_access :: "'a sandbox_policy \<Rightarrow> bool" where
  "has_full_network_access DangerFullAccess = True"
| "has_full_network_access (ExternalSandboxPolicy network_access) = (network_access = AccessEnabled)"
| "has_full_network_access (ReadOnly network_access) = network_access"
| "has_full_network_access (WorkspaceWrite roots network_access exclude_tmpdir exclude_slash_tmp) = network_access"

definition network_from_sandbox_policy :: "'a sandbox_policy \<Rightarrow> network_sandbox_policy" where
  "network_from_sandbox_policy v = (if has_full_network_access v then NetworkEnabled else NetworkRestricted)"

fun from_sandbox_policy :: "('p, 'a, 'g) sandbox_paths \<Rightarrow> 'a sandbox_policy \<Rightarrow> 'p file_system_sandbox_policy" where
  "from_sandbox_policy S DangerFullAccess = policy_unrestricted"
| "from_sandbox_policy S (ExternalSandboxPolicy _) = policy_external_sandbox"
| "from_sandbox_policy S (ReadOnly _) = policy_restricted [entry_new (Special Root) Read]"
| "from_sandbox_policy S (WorkspaceWrite roots _ exclude_tmpdir exclude_slash_tmp) =
     workspace_write S roots exclude_tmpdir exclude_slash_tmp"

definition from_legacy_sandbox_policy_for_cwd ::
  "('p, 'a, 'g) sandbox_paths \<Rightarrow> 'a sandbox_policy \<Rightarrow> ustr \<Rightarrow> 'p file_system_sandbox_policy" where
  "from_legacy_sandbox_policy_for_cwd S v cwd =
     (let p = from_sandbox_policy S v in
      case v of
        WorkspaceWrite writable_roots _ _ _ \<Rightarrow>
          p\<lparr>entries := protect_writable_roots S writable_roots
            (case from_absolute_path S cwd of
               Inr cwd_root \<Rightarrow>
                 append_default_read_only_paths S
                   (default_read_only_subpaths_for_writable_root S cwd_root True) (entries p)
             | Inl _ \<Rightarrow> entries p)\<rparr>
      | _ \<Rightarrow> p)"

definition from_legacy_sandbox_policy_preserving_deny_entries ::
  "('p, 'a, 'g) sandbox_paths \<Rightarrow> 'a sandbox_policy \<Rightarrow> ustr \<Rightarrow> 'p file_system_sandbox_policy \<Rightarrow>
     'p file_system_sandbox_policy" where
  "from_legacy_sandbox_policy_preserving_deny_entries S v cwd existing =
     (let rebuilt = from_legacy_sandbox_policy_for_cwd S v cwd in
      if fs_kind rebuilt \<noteq> Restricted then rebuilt
      else rebuilt\<lparr>glob_scan_max_depth := glob_scan_max_depth existing,
             entries := append_deny_entries existing (entries rebuilt)\<rparr>)"

definition legacy_runtime_file_system_policy_for_cwd ::
  "('p, 'a, 'g) sandbox_paths \<Rightarrow> 'a sandbox_policy \<Rightarrow> ustr \<Rightarrow> 'p file_system_sandbox_policy" where
  "legacy_runtime_file_system_policy_for_cwd S v cwd =
     (case v of
        WorkspaceWrite writable_roots _ exclude_tmpdir exclude_slash_tmp \<Rightarrow>
          policy_restricted (protect_writable_roots S writable_roots
            (let es = workspace_entries S writable_roots exclude_tmpdir exclude_slash_tmp in
             case from_absolute_path S cwd of
               Inr cwd_root \<Rightarrow>
                 append_default_read_only_paths S (default_read_only_subpaths_for_writable_root S cwd_root True) es
             | Inl _ \<Rightarrow> es))
      | _ \<Rightarrow> from_sandbox_policy S v)"

text \<open>\<^verbatim>\<open>/tmp\<close> is absolute, so that reading it as an absolute path does not fail.\<close>

definition resolve_file_system_special_path ::
  "('p, 'a, 'g) sandbox_paths \<Rightarrow> file_system_special_path \<Rightarrow> 'a option \<Rightarrow> 'a option" where
  "resolve_file_system_special_path S v cwd =
     (case v of
        ProjectRoots subpath \<Rightarrow>
          map_option (\<lambda>cwd. case subpath of Some subpath \<Rightarrow> resolve_path_against_base S subpath cwd | None \<Rightarrow> cwd) cwd
      | Tmpdir \<Rightarrow>
          (case env_tmpdir S of
             Some tmpdir \<Rightarrow> if tmpdir = [] then None else result_ok (from_absolute_path S tmpdir)
           | None \<Rightarrow> None)
      | SlashTmp \<Rightarrow>
          if \<not> cfg_unix S then None
          else (case from_absolute_path S (str ''/tmp'') of
                  Inr slash_tmp \<Rightarrow> if abs_is_dir S slash_tmp then Some slash_tmp else None
                | Inl _ \<Rightarrow> None)
      | _ \<Rightarrow> None)"

fun resolve_file_system_path ::
  "('p, 'a, 'g) sandbox_paths \<Rightarrow> 'p file_system_path \<Rightarrow> 'a option \<Rightarrow> 'a option" where
  "resolve_file_system_path S (FsPath path) cwd = result_ok (to_abs_path S path)"
| "resolve_file_system_path S (GlobPattern _) cwd = None"
| "resolve_file_system_path S (Special v) cwd = resolve_file_system_special_path S v cwd"

definition resolve_entry_path ::
  "('p, 'a, 'g) sandbox_paths \<Rightarrow> 'p file_system_path \<Rightarrow> 'a option \<Rightarrow> 'a option" where
  "resolve_entry_path S path cwd =
     (if path = Special Root then map_option (abs_last_ancestor S) cwd else resolve_file_system_path S path cwd)"

definition has_explicit_non_write_entry_for_path_with_cwd ::
  "('p, 'a, 'g) sandbox_paths \<Rightarrow> 'p file_system_sandbox_policy \<Rightarrow> ustr \<Rightarrow> ustr \<Rightarrow> bool" where
  "has_explicit_non_write_entry_for_path_with_cwd S p path cwd \<longleftrightarrow>
     (case resolve_candidate_path S path cwd of
        None \<Rightarrow> False
      | Some path \<Rightarrow>
          list_ex (\<lambda>e. \<not> skips_missing_path e \<and> \<not> can_write (access e) \<and>
            resolve_entry_path S (entry_path e) (result_ok (from_absolute_path S cwd)) = Some path) (entries p))"

text \<open>What the entries of a restricted policy ask for, in the terms of the older policies.\<close>

record 'a legacy_writes =
  workspace_root_writable :: bool
  legacy_writable_roots :: "'a list"
  tmpdir_writable :: bool
  slash_tmp_writable :: bool
  unbridgeable_root_write :: bool

definition legacy_step ::
  "('p, 'a, 'g) sandbox_paths \<Rightarrow> 'a option \<Rightarrow> 'a legacy_writes \<Rightarrow> 'p file_system_sandbox_entry \<Rightarrow>
     'a legacy_writes \<times> (io_error + unit)" where
  "legacy_step S cwd w e =
     (case entry_path e of
        GlobPattern _ \<Rightarrow> (w, Inr ())
      | FsPath path \<Rightarrow>
          if \<not> can_write (access e) then (w, Inr ())
          else
            (case to_abs_path S path of
               Inl err \<Rightarrow> (w, Inl err)
             | Inr path \<Rightarrow>
                 if cwd = Some path then (w\<lparr>workspace_root_writable := True\<rparr>, Inr ())
                 else (w\<lparr>legacy_writable_roots := legacy_writable_roots w @ [path]\<rparr>, Inr ()))
      | Special v \<Rightarrow>
          (if \<not> can_write (access e) then w
           else
             (case v of
                Root \<Rightarrow> w\<lparr>unbridgeable_root_write := True\<rparr>
              | ProjectRoots subpath \<Rightarrow>
                  if subpath = None then w\<lparr>workspace_root_writable := True\<rparr>
                  else
                    (case resolve_file_system_special_path S v cwd of
                       Some path \<Rightarrow> w\<lparr>legacy_writable_roots := legacy_writable_roots w @ [path]\<rparr>
                     | None \<Rightarrow> w)
              | Tmpdir \<Rightarrow> w\<lparr>tmpdir_writable := True\<rparr>
              | SlashTmp \<Rightarrow> w\<lparr>slash_tmp_writable := True\<rparr>
              | _ \<Rightarrow> w), Inr ()))"

definition full_access_policy :: "network_sandbox_policy \<Rightarrow> 'a sandbox_policy" where
  "full_access_policy network_policy =
     (if network_policy = NetworkEnabled then DangerFullAccess else ExternalSandboxPolicy AccessRestricted)"

definition to_legacy_sandbox_policy ::
  "('p, 'a, 'g) sandbox_paths \<Rightarrow> 'p file_system_sandbox_policy \<Rightarrow> network_sandbox_policy \<Rightarrow> ustr \<Rightarrow>
     io_error + 'a sandbox_policy" where
  "to_legacy_sandbox_policy S p network_policy cwd =
     (let network = (network_policy = NetworkEnabled) in
      case fs_kind p of
        ExternalSandbox \<Rightarrow> Inr (ExternalSandboxPolicy (if network then AccessEnabled else AccessRestricted))
      | Unrestricted \<Rightarrow> Inr (full_access_policy network_policy)
      | Restricted \<Rightarrow>
          (case try_fold (legacy_step S (result_ok (from_absolute_path S cwd)))
                  \<lparr>workspace_root_writable = False, legacy_writable_roots = [], tmpdir_writable = False,
                   slash_tmp_writable = False, unbridgeable_root_write = False\<rparr> (entries p) of
             (_, Inl err) \<Rightarrow> Inl err
           | (w, Inr _) \<Rightarrow>
               if has_full_disk_write_access S p then Inr (full_access_policy network_policy)
               else if workspace_root_writable w then
                 Inr (WorkspaceWrite (dedup_absolute_paths (legacy_writable_roots w)) network
                   (\<not> tmpdir_writable w) (\<not> slash_tmp_writable w))
               else if unbridgeable_root_write w \<or> legacy_writable_roots w \<noteq> [] \<or> tmpdir_writable w \<or>
                 cfg_unix S \<and> slash_tmp_writable w
               then Inl (IoErr InvalidInput (str ''permissions profile requests filesystem writes outside the workspace root, which is not supported until the runtime enforces FileSystemSandboxPolicy directly''))
               else Inr (ReadOnly network)))"

section \<open>Workspace roots\<close>

definition PROJECT_ROOTS_GLOB_PATTERN_PREFIX :: ustr where
  "PROJECT_ROOTS_GLOB_PATTERN_PREFIX = str ''codex-project-roots://''"

definition parse_project_roots_glob_pattern :: "ustr \<Rightarrow> ustr option" where
  "parse_project_roots_glob_pattern pattern = strip_prefix PROJECT_ROOTS_GLOB_PATTERN_PREFIX pattern"

definition resolve_project_roots_glob_pattern :: "('p, 'a, 'g) sandbox_paths \<Rightarrow> ustr \<Rightarrow> 'a \<Rightarrow> ustr" where
  "resolve_project_roots_glob_pattern S subpath root = abs_text S (resolve_path_against_base S subpath root)"

definition materialize_project_roots_with_cwd ::
  "('p, 'a, 'g) sandbox_paths \<Rightarrow> ustr \<Rightarrow> 'p file_system_sandbox_policy \<Rightarrow> 'p file_system_sandbox_policy" where
  "materialize_project_roots_with_cwd S cwd p =
     (let cwd = result_ok (from_absolute_path S cwd) in
      p\<lparr>entries := map (\<lambda>e.
         case entry_path e of
           Special (ProjectRoots _) \<Rightarrow>
             (case resolve_file_system_path S (entry_path e) cwd of
                Some path \<Rightarrow> e\<lparr>entry_path := FsPath (from_abs_path S path)\<rparr>
              | None \<Rightarrow> e)
         | GlobPattern pattern \<Rightarrow>
             (case (cwd, parse_project_roots_glob_pattern pattern) of
                (Some cwd, Some subpath) \<Rightarrow> e\<lparr>entry_path := GlobPattern (resolve_project_roots_glob_pattern S subpath cwd)\<rparr>
              | _ \<Rightarrow> e)
         | _ \<Rightarrow> e) (entries p)\<rparr>)"

definition materialized_entries ::
  "('p, 'a, 'g) sandbox_paths \<Rightarrow> 'a list \<Rightarrow> 'p file_system_sandbox_entry \<Rightarrow> 'p file_system_sandbox_entry list" where
  "materialized_entries S roots e =
     (case entry_path e of
        Special (ProjectRoots subpath) \<Rightarrow>
          map (\<lambda>root. e\<lparr>entry_path := FsPath (from_abs_path S
            (case subpath of Some subpath \<Rightarrow> resolve_path_against_base S subpath root | None \<Rightarrow> root))\<rparr>) roots
      | GlobPattern pattern \<Rightarrow>
          (case parse_project_roots_glob_pattern pattern of
             Some subpath \<Rightarrow>
               map (\<lambda>root. e\<lparr>entry_path := GlobPattern (resolve_project_roots_glob_pattern S subpath root)\<rparr>) roots
           | None \<Rightarrow> [e])
      | _ \<Rightarrow> [e])"

definition materialize_project_roots_with_workspace_roots ::
  "('p, 'a, 'g) sandbox_paths \<Rightarrow> 'a list \<Rightarrow> 'p file_system_sandbox_policy \<Rightarrow> 'p file_system_sandbox_policy" where
  "materialize_project_roots_with_workspace_roots S roots p =
     p\<lparr>entries := concat (map (materialized_entries S roots) (entries p))\<rparr>"

definition with_materialized_project_roots_for_workspace_roots ::
  "('p, 'a, 'g) sandbox_paths \<Rightarrow> 'a list \<Rightarrow> 'p file_system_sandbox_policy \<Rightarrow> 'p file_system_sandbox_policy" where
  "with_materialized_project_roots_for_workspace_roots S roots p =
     p\<lparr>entries := foldl (\<lambda>es e. if e \<in> set es then es else es @ [e]) (entries p)
       (entries (materialize_project_roots_with_workspace_roots S roots p))\<rparr>"

definition resolve_scoped_workspace_path :: "('p, 'a, 'g) sandbox_paths \<Rightarrow> 'p \<Rightarrow> ustr \<Rightarrow> 'p option" where
  "resolve_scoped_workspace_path S root subpath =
     Option.bind (infer_path_convention S root) (\<lambda>convention.
       if starts_with (str ''/'') subpath \<or> convention = Windows \<and> starts_with [92] subpath \<or>
          list_ex (\<lambda>segment. segment = str ''.'' \<or> segment = str ''..'') (path_segments S convention subpath) \<or>
          convention = Windows \<and> list_ex (\<lambda>segment. 58 \<in> set segment) (path_segments S convention subpath)
       then None
       else Option.bind (uri_join S root subpath) (\<lambda>path. if uri_starts_with S path root then Some path else None))"

definition scoped_entry ::
  "('p, 'a, 'g) sandbox_paths \<Rightarrow> 'p file_system_sandbox_entry \<Rightarrow> ustr option \<Rightarrow> bool \<Rightarrow> 'p \<Rightarrow>
     'p file_system_sandbox_entry option" where
  "scoped_entry S e subpath is_glob root =
     (case (case subpath of None \<Rightarrow> Some root | Some subpath \<Rightarrow> resolve_scoped_workspace_path S root subpath) of
        Some path \<Rightarrow>
          if is_glob then Some (e\<lparr>entry_path := GlobPattern (inferred_native_path_string S path)\<rparr>)
          else Some (e\<lparr>entry_path := FsPath path\<rparr>)
      | None \<Rightarrow>
          if \<not> can_write (access e) then Some (e\<lparr>entry_path := FsPath root, access := Deny\<rparr>) else None)"

definition materialize_project_roots_with_path_uris ::
  "('p, 'a, 'g) sandbox_paths \<Rightarrow> 'p list \<Rightarrow> 'p file_system_sandbox_policy \<Rightarrow> 'p file_system_sandbox_policy" where
  "materialize_project_roots_with_path_uris S roots p =
     (case try_map (to_abs_path S) roots of
        Inr native_workspace_roots \<Rightarrow> materialize_project_roots_with_workspace_roots S native_workspace_roots p
      | Inl _ \<Rightarrow>
          p\<lparr>entries := concat (map (\<lambda>e.
             case entry_path e of
               Special (ProjectRoots subpath) \<Rightarrow> List.map_filter (scoped_entry S e subpath False) roots
             | GlobPattern pattern \<Rightarrow>
                 (case strip_prefix PROJECT_ROOTS_GLOB_PATTERN_PREFIX pattern of
                    Some subpath \<Rightarrow> List.map_filter (scoped_entry S e (Some subpath) True) roots
                  | None \<Rightarrow> [e])
             | _ \<Rightarrow> [e]) (entries p))\<rparr>)"

section \<open>Additional roots\<close>

definition with_additional_readable_roots ::
  "('p, 'a, 'g) sandbox_paths \<Rightarrow> ustr \<Rightarrow> 'a list \<Rightarrow> 'p file_system_sandbox_policy \<Rightarrow> 'p file_system_sandbox_policy" where
  "with_additional_readable_roots S cwd roots p =
     (if has_full_disk_read_access S p then p
      else fold (\<lambda>path p.
        if can_read_path_with_cwd S p (abs_text S path) cwd then p
        else p\<lparr>entries := entries p @ [entry_new (FsPath (from_abs_path S path)) Read]\<rparr>) roots p)"

definition with_additional_writable_roots ::
  "('p, 'a, 'g) sandbox_paths \<Rightarrow> ustr \<Rightarrow> 'a list \<Rightarrow> 'p file_system_sandbox_policy \<Rightarrow> 'p file_system_sandbox_policy" where
  "with_additional_writable_roots S cwd roots p =
     fold (\<lambda>path p.
       if can_write_path_with_cwd S p (abs_text S path) cwd then p
       else p\<lparr>entries := entries p @ [entry_new (FsPath (from_abs_path S path)) Write]\<rparr>) roots p"

definition with_additional_legacy_workspace_writable_roots ::
  "('p, 'a, 'g) sandbox_paths \<Rightarrow> 'a list \<Rightarrow> 'p file_system_sandbox_policy \<Rightarrow> 'p file_system_sandbox_policy" where
  "with_additional_legacy_workspace_writable_roots S roots p =
     (if fs_kind p \<noteq> Restricted then p
      else p\<lparr>entries := fold (\<lambda>path es.
        append_default_read_only_paths S (default_read_only_subpaths_for_writable_root S path False)
          (if list_ex (\<lambda>e. can_write (access e) \<and> entry_path e = FsPath (from_abs_path S path)) es then es
           else es @ [entry_new (FsPath (from_abs_path S path)) Write])) roots (entries p)\<rparr>)"

section \<open>Profiles\<close>

text \<open>The depth limit is a \<^verbatim>\<open>NonZeroUsize\<close>.\<close>

datatype 'p managed_file_system_permissions =
    ManagedRestricted "'p file_system_sandbox_entry list" "nat option"
  | ManagedUnrestricted

datatype 'p permission_profile =
    Managed "'p managed_file_system_permissions" network_sandbox_policy
  | Disabled
  | External network_sandbox_policy

datatype sandbox_enforcement = ManagedEnforcement | DisabledEnforcement | ExternalEnforcement

fun to_sandbox_policy :: "'p managed_file_system_permissions \<Rightarrow> 'p file_system_sandbox_policy" where
  "to_sandbox_policy (ManagedRestricted es depth) =
     \<lparr>fs_kind = Restricted, glob_scan_max_depth = depth, entries = es\<rparr>"
| "to_sandbox_policy ManagedUnrestricted = policy_unrestricted"

text \<open>\<open>None\<close> is the panic of \<^verbatim>\<open>unreachable!\<close>.\<close>

definition managed_from_sandbox_policy ::
  "'p file_system_sandbox_policy \<Rightarrow> 'p managed_file_system_permissions option" where
  "managed_from_sandbox_policy p =
     (case fs_kind p of
        Restricted \<Rightarrow>
          Some (ManagedRestricted (entries p) (if glob_scan_max_depth p = Some 0 then None else glob_scan_max_depth p))
      | Unrestricted \<Rightarrow> Some ManagedUnrestricted
      | ExternalSandbox \<Rightarrow> None)"

fun enforcement :: "'p permission_profile \<Rightarrow> sandbox_enforcement" where
  "enforcement (Managed _ _) = ManagedEnforcement"
| "enforcement Disabled = DisabledEnforcement"
| "enforcement (External _) = ExternalEnforcement"

fun file_system_sandbox_policy_of :: "'p permission_profile \<Rightarrow> 'p file_system_sandbox_policy" where
  "file_system_sandbox_policy_of (Managed file_system _) = to_sandbox_policy file_system"
| "file_system_sandbox_policy_of Disabled = policy_unrestricted"
| "file_system_sandbox_policy_of (External _) = policy_external_sandbox"

fun network_sandbox_policy_of :: "'p permission_profile \<Rightarrow> network_sandbox_policy" where
  "network_sandbox_policy_of (Managed _ network) = network"
| "network_sandbox_policy_of (External network) = network"
| "network_sandbox_policy_of Disabled = NetworkEnabled"

definition from_runtime_permissions_with_enforcement ::
  "sandbox_enforcement \<Rightarrow> 'p file_system_sandbox_policy \<Rightarrow> network_sandbox_policy \<Rightarrow> 'p permission_profile option" where
  "from_runtime_permissions_with_enforcement enf p network =
     (if fs_kind p = ExternalSandbox then Some (External network)
      else if fs_kind p = Unrestricted \<and> enf = DisabledEnforcement then Some Disabled
      else map_option (\<lambda>file_system. Managed file_system network) (managed_from_sandbox_policy p))"

definition from_runtime_permissions ::
  "'p file_system_sandbox_policy \<Rightarrow> network_sandbox_policy \<Rightarrow> 'p permission_profile option" where
  "from_runtime_permissions p network =
     from_runtime_permissions_with_enforcement
       (if fs_kind p = ExternalSandbox then ExternalEnforcement else ManagedEnforcement) p network"

section \<open>Round trips\<close>

text \<open>The default rules only add entries that do not write.\<close>

lemma append_default_reads:
  "\<exists>rs. append_default_read_only_entry_if_no_explicit_rule S path es = es @ rs \<and> list_all (\<lambda>e. access e = Read) rs"
  by (auto simp: append_default_read_only_entry_if_no_explicit_rule_def skip_missing_path_def)

definition adds_reads :: "('p file_system_sandbox_entry list \<Rightarrow> 'p file_system_sandbox_entry list) \<Rightarrow> bool" where
  "adds_reads f \<longleftrightarrow> (\<forall>es. \<exists>rs. f es = es @ rs \<and> list_all (\<lambda>e. access e = Read) rs)"

lemma adds_readsE:
  assumes "adds_reads f" obtains rs where "f es = es @ rs" "list_all (\<lambda>e. access e = Read) rs"
  using assms unfolding adds_reads_def by blast

lemma adds_reads_fold: "(\<And>x. adds_reads (f x)) \<Longrightarrow> adds_reads (fold f xs)"
proof (induction xs)
  case (Cons x xs)
  show ?case
    unfolding adds_reads_def
  proof
    fix es
    obtain rs where "f x es = es @ rs" "list_all (\<lambda>e. access e = Read) rs" by (rule adds_readsE [OF Cons(2)])
    moreover obtain rs' where "fold f xs (es @ rs) = (es @ rs) @ rs'" "list_all (\<lambda>e. access e = Read) rs'"
      by (rule adds_readsE [OF Cons(1) [OF Cons(2)]])
    ultimately show "\<exists>rs. fold f (x # xs) es = es @ rs \<and> list_all (\<lambda>e. access e = Read) rs" by auto
  qed
qed (simp add: adds_reads_def)

lemma adds_reads_default [intro]: "adds_reads (append_default_read_only_entry_if_no_explicit_rule S path)"
  by (simp add: adds_reads_def append_default_reads)

lemma adds_reads_paths [intro]: "adds_reads (append_default_read_only_paths S paths)"
  unfolding append_default_read_only_paths_def by (rule adds_reads_fold) auto

lemma adds_reads_protect [intro]: "adds_reads (protect_writable_roots S roots)"
  unfolding protect_writable_roots_def by (rule adds_reads_fold) auto

lemma workspace_write_entries:
  obtains rs where "entries (workspace_write S roots tmp slash) = workspace_entries S roots tmp slash @ rs"
    "list_all (\<lambda>e. access e = Read) rs" "fs_kind (workspace_write S roots tmp slash) = Restricted"
proof -
  let ?names = "fold (\<lambda>name. append_default_read_only_entry_if_no_explicit_rule S (Special (ProjectRoots (Some name))))
    [str ''.git'', str ''.agents'', str ''.codex'']"
  have "adds_reads ?names" by (rule adds_reads_fold) auto
  then obtain rs where "?names (workspace_entries S roots tmp slash) = workspace_entries S roots tmp slash @ rs"
    "list_all (\<lambda>e. access e = Read) rs" by (rule adds_readsE)
  moreover obtain rs' where "protect_writable_roots S roots (workspace_entries S roots tmp slash @ rs) =
      (workspace_entries S roots tmp slash @ rs) @ rs'" "list_all (\<lambda>e. access e = Read) rs'"
    by (rule adds_readsE [OF adds_reads_protect])
  ultimately show thesis
    by (intro that [of "rs @ rs'"]) (simp_all add: workspace_write_def policy_restricted_def del: fold_simps)
qed

lemma legacy_step_read: "access e = Read \<Longrightarrow> legacy_step S cwd w e = (w, Inr ())"
  by (simp add: legacy_step_def can_write_def split: file_system_path.split)

lemma legacy_reads: "list_all (\<lambda>e. access e = Read) rs \<Longrightarrow> try_fold (legacy_step S cwd) w rs = (w, Inr ())"
  by (induction rs) (simp_all add: legacy_step_read)

lemma legacy_specials:
  "legacy_step S cwd w (entry_new (Special Root) Read) = (w, Inr ())"
  "legacy_step S cwd w (entry_new (Special (ProjectRoots None)) Write) = (w\<lparr>workspace_root_writable := True\<rparr>, Inr ())"
  "legacy_step S cwd w (entry_new (Special SlashTmp) Write) = (w\<lparr>slash_tmp_writable := True\<rparr>, Inr ())"
  "legacy_step S cwd w (entry_new (Special Tmpdir) Write) = (w\<lparr>tmpdir_writable := True\<rparr>, Inr ())"
  by (simp_all add: legacy_step_def entry_new_def can_write_def)

lemma legacy_roots:
  assumes "\<And>a. to_abs_path S (from_abs_path S a) = Inr a" "\<forall>a \<in> set roots. cwd \<noteq> Some a"
  shows "try_fold (legacy_step S cwd) w (map (\<lambda>path. entry_new (FsPath (from_abs_path S path)) Write) roots) =
    (w\<lparr>legacy_writable_roots := legacy_writable_roots w @ roots\<rparr>, Inr ())"
  using assms(2)
  by (induction roots arbitrary: w) (simp_all add: legacy_step_def entry_new_def can_write_def assms(1))

lemma dedup_distinct: "distinct xs \<Longrightarrow> dedup_absolute_paths xs = xs"
proof -
  have "distinct (acc @ xs) \<Longrightarrow>
    foldl (\<lambda>deduped path. if path \<in> set deduped then deduped else deduped @ [path]) acc xs = acc @ xs" for acc
    by (induction xs arbitrary: acc) (auto simp: disjoint_iff)
  from this [of "[]"] show "distinct xs \<Longrightarrow> dedup_absolute_paths xs = xs" by (simp add: dedup_absolute_paths_def)
qed


text \<open>A profile is rebuilt from its own parts.\<close>

lemma profile_round_trip:
  assumes "case q of Managed (ManagedRestricted _ depth) _ \<Rightarrow> depth \<noteq> Some 0 | _ \<Rightarrow> True"
  shows "from_runtime_permissions_with_enforcement (enforcement q) (file_system_sandbox_policy_of q)
    (network_sandbox_policy_of q) = Some q"
  using assms
  by (cases q rule: enforcement.cases)
    (auto simp: from_runtime_permissions_with_enforcement_def managed_from_sandbox_policy_def
      policy_unrestricted_def policy_external_sandbox_def split: managed_file_system_permissions.splits)

section \<open>Additions keep denials\<close>

text \<open>The contract of the operations that add to a policy: no deny entry is lost. What could not be read
  before cannot be read after.\<close>

locale denials_kept =
  fixes extend :: "'p file_system_sandbox_policy \<Rightarrow> 'p file_system_sandbox_policy"
  assumes keeps: "e \<in> set (entries p) \<Longrightarrow> access e = Deny \<Longrightarrow> e \<in> set (entries (extend p))"
begin

lemma still_denied:
  assumes "infer_path_convention S (context_cwd c) \<noteq> None"
    "prepare_deny_read_matcher S c FailClosed p = Inr old" "matches_prepared_read_deny S c old path"
  shows "\<exists>new. prepare_deny_read_matcher S c FailClosed (extend p) = Inr new \<and> matches_prepared_read_deny S c new path"
  using denied_reads_grow [OF assms(1) keeps assms(2,3)] .

end

lemma fold_grows:
  assumes "\<And>x a. g a \<subseteq> g (f x a)" shows "g a \<subseteq> g (fold f xs a)"
proof (induction xs arbitrary: a)
  case (Cons x xs)
  from assms [of a x] Cons [of "f x a"] show ?case by auto
qed simp

interpretation readable_roots: denials_kept "with_additional_readable_roots S cwd roots"
proof
  have "set (entries p) \<subseteq> set (entries (with_additional_readable_roots S cwd roots p))" for p
    by (auto simp: with_additional_readable_roots_def intro!: subsetD [OF fold_grows [where g = "\<lambda>p. set (entries p)"]])
  then show "e \<in> set (entries (with_additional_readable_roots S cwd roots p))" if "e \<in> set (entries p)" for e p
    using that by blast
qed

interpretation writable_roots: denials_kept "with_additional_writable_roots S cwd roots"
proof
  have "set (entries p) \<subseteq> set (entries (with_additional_writable_roots S cwd roots p))" for p
    by (auto simp: with_additional_writable_roots_def intro!: subsetD [OF fold_grows [where g = "\<lambda>p. set (entries p)"]])
  then show "e \<in> set (entries (with_additional_writable_roots S cwd roots p))" if "e \<in> set (entries p)" for e p
    using that by blast
qed

interpretation project_roots: denials_kept "with_materialized_project_roots_for_workspace_roots S roots"
  by unfold_locales
    (auto simp: with_materialized_project_roots_for_workspace_roots_def intro!: subsetD [OF foldl_new_keeps])

lemma appended_defaults_keep: "set es \<subseteq> set (append_default_read_only_paths S paths es)"
  using adds_reads_paths [of S paths] by (auto elim!: adds_readsE [of _ es])

interpretation legacy_writable_roots: denials_kept "with_additional_legacy_workspace_writable_roots S roots"
proof
  let ?add = "\<lambda>path es. append_default_read_only_paths S (default_read_only_subpaths_for_writable_root S path False)
    (if list_ex (\<lambda>e. can_write (access e) \<and> entry_path e = FsPath (from_abs_path S path)) es then es
     else es @ [entry_new (FsPath (from_abs_path S path)) Write])"
  have "set es \<subseteq> set (?add path es)" for path es
    by (rule subset_trans [OF _ appended_defaults_keep]) auto
  then have "set es \<subseteq> set (fold ?add roots es)" for es by (rule fold_grows)
  then show "e \<in> set (entries (with_additional_legacy_workspace_writable_roots S roots p))" if "e \<in> set (entries p)" for e p
    using that by (auto simp: with_additional_legacy_workspace_writable_roots_def)
qed

text \<open>Whatever roots are added, in this order or another, what could not be read still cannot be read.\<close>

lemma additions_keep_denials:
  assumes "infer_path_convention S (context_cwd c) \<noteq> None"
    "prepare_deny_read_matcher S c FailClosed p = Inr old" "matches_prepared_read_deny S c old path"
  shows "\<exists>new. prepare_deny_read_matcher S c FailClosed
      (with_additional_readable_roots S cwd reads (with_additional_writable_roots S cwd writes
        (with_additional_legacy_workspace_writable_roots S legacy
          (with_materialized_project_roots_for_workspace_roots S roots p)))) = Inr new \<and>
    matches_prepared_read_deny S c new path"
proof -
  note still = project_roots.still_denied legacy_writable_roots.still_denied writable_roots.still_denied
    readable_roots.still_denied
  obtain a where a: "prepare_deny_read_matcher S c FailClosed
      (with_materialized_project_roots_for_workspace_roots S roots p) = Inr a" "matches_prepared_read_deny S c a path"
    using still(1) [OF assms] by blast
  obtain b where b: "prepare_deny_read_matcher S c FailClosed (with_additional_legacy_workspace_writable_roots S legacy
      (with_materialized_project_roots_for_workspace_roots S roots p)) = Inr b" "matches_prepared_read_deny S c b path"
    using still(2) [OF assms(1) a] by blast
  from still(3) [OF assms(1) b] show ?thesis using still(4) [OF assms(1)] by blast
qed

end
