(* ===== verification/Exec_Approval.thy ===== *)
theory Exec_Approval
  imports Exec_Parser Exec_Amend Command_Safety Sandbox_Roots
begin

text \<open>
  Whether a command may run: \<^verbatim>\<open>codex-rs/core/src/exec_policy.rs\<close> with its parts \<^verbatim>\<open>model_policy.rs\<close> and
  \<^verbatim>\<open>executable_identity.rs\<close>, and the approval types of \<^verbatim>\<open>core/src/tools/sandboxing.rs\<close> and
  \<^verbatim>\<open>codex-rs/protocol\<close>, in a build for Unix. The manager holds the current policy; its updates hold a
  semaphore, so they are steps one after the other. The tree-sitter parser is the argument \<open>B\<close>, the policy
  language the argument \<open>L\<close>.
\<close>

section \<open>Approval policies\<close>

record granular_approval_config =
  sandbox_approval :: bool
  rules_approval :: bool
  skill_approval :: bool
  request_permissions :: bool
  mcp_elicitations :: bool

datatype ask_for_approval = UnlessTrusted | OnRequest | Granular granular_approval_config | Never

datatype sandbox_permissions = UseDefault | RequireEscalated | WithAdditionalPermissions

definition requests_sandbox_override :: "sandbox_permissions \<Rightarrow> bool" where
  "requests_sandbox_override s \<longleftrightarrow> s \<noteq> UseDefault"

definition requires_escalated_permissions :: "sandbox_permissions \<Rightarrow> bool" where
  "requires_escalated_permissions s \<longleftrightarrow> s = RequireEscalated"

type_synonym exec_policy_amendment = "ustr list"

datatype exec_approval_requirement =
    SkipApproval bool "exec_policy_amendment option"
  | NeedsApproval "ustr option" "exec_policy_amendment option"
  | ForbiddenApproval ustr

definition PROMPT_CONFLICT_REASON :: ustr where
  "PROMPT_CONFLICT_REASON = str ''approval required by policy, but AskForApproval is set to Never''"

definition REJECT_SANDBOX_APPROVAL_REASON :: ustr where
  "REJECT_SANDBOX_APPROVAL_REASON =
     str ''approval required by policy, but AskForApproval::Granular.sandbox_approval is false''"

definition REJECT_RULES_APPROVAL_REASON :: ustr where
  "REJECT_RULES_APPROVAL_REASON =
     str ''approval required by policy rule, but AskForApproval::Granular.rules is false''"

fun is_policy_match :: "'a rule_match \<Rightarrow> bool" where
  "is_policy_match (PrefixRuleMatch _ _ _ _) = True"
| "is_policy_match (HeuristicsRuleMatch _ _) = False"

fun prompt_is_rejected_by_policy :: "ask_for_approval \<Rightarrow> bool \<Rightarrow> ustr option" where
  "prompt_is_rejected_by_policy Never prompt_is_rule = Some PROMPT_CONFLICT_REASON"
| "prompt_is_rejected_by_policy OnRequest prompt_is_rule = None"
| "prompt_is_rejected_by_policy UnlessTrusted prompt_is_rule = None"
| "prompt_is_rejected_by_policy (Granular g) prompt_is_rule =
     (if prompt_is_rule then (if \<not> rules_approval g then Some REJECT_RULES_APPROVAL_REASON else None)
      else if \<not> sandbox_approval g then Some REJECT_SANDBOX_APPROVAL_REASON else None)"

definition default_exec_approval_requirement ::
  "ask_for_approval \<Rightarrow> 'p file_system_sandbox_policy \<Rightarrow> exec_approval_requirement" where
  "default_exec_approval_requirement policy fs =
     (let needs_approval =
            (case policy of
               Never \<Rightarrow> False
             | UnlessTrusted \<Rightarrow> True
             | _ \<Rightarrow> fs_kind fs = Restricted)
      in if needs_approval \<and> (case policy of Granular g \<Rightarrow> \<not> sandbox_approval g | _ \<Rightarrow> False)
         then ForbiddenApproval (str ''approval policy disallowed sandbox approval prompt'')
         else if needs_approval then NeedsApproval None None
         else SkipApproval False None)"

section \<open>The first attempt\<close>

datatype sandbox_override = NoOverride | BypassSandboxFirstAttempt

definition unsandboxed_execution_allowed :: "('p, 'b, 'g) sandbox_paths \<Rightarrow> 'p file_system_sandbox_policy \<Rightarrow> bool" where
  "unsandboxed_execution_allowed S fs \<longleftrightarrow> \<not> has_denied_read_restrictions S fs"

definition sandbox_override_for_first_attempt ::
  "('p, 'b, 'g) sandbox_paths \<Rightarrow> sandbox_permissions \<Rightarrow> exec_approval_requirement \<Rightarrow>
     'p file_system_sandbox_policy \<Rightarrow> sandbox_override" where
  "sandbox_override_for_first_attempt S permissions requirement fs =
     (if \<not> unsandboxed_execution_allowed S fs then NoOverride
      else
        (case requirement of
           SkipApproval True _ \<Rightarrow> BypassSandboxFirstAttempt
         | _ \<Rightarrow> if requires_escalated_permissions permissions then BypassSandboxFirstAttempt else NoOverride))"

definition sandbox_permissions_preserving_denied_reads ::
  "('p, 'b, 'g) sandbox_paths \<Rightarrow> sandbox_permissions \<Rightarrow> 'p file_system_sandbox_policy \<Rightarrow> sandbox_permissions" where
  "sandbox_permissions_preserving_denied_reads S permissions fs =
     (if requires_escalated_permissions permissions \<and> \<not> unsandboxed_execution_allowed S fs then UseDefault
      else permissions)"

section \<open>Unmatched commands\<close>

record 'p unmatched_command_context =
  ctx_approval_policy :: ask_for_approval
  ctx_permission_profile :: "'p permission_profile"
  ctx_sandbox_permissions :: sandbox_permissions

definition render_decision_for_unmatched_command ::
  "shell_parser \<Rightarrow> 'p unmatched_command_context \<Rightarrow> ustr list \<Rightarrow> decision" where
  "render_decision_for_unmatched_command B ctx command =
     (let fs = file_system_sandbox_policy_of (ctx_permission_profile ctx);
          in_sandbox =
            (case fs_kind fs of
               Restricted \<Rightarrow> if requests_sandbox_override (ctx_sandbox_permissions ctx) then Prompt else Allow
             | _ \<Rightarrow> Allow)
      in if dangerous_command_match B command \<noteq> None then
           (case ctx_approval_policy ctx of Never \<Rightarrow> Forbidden | _ \<Rightarrow> Prompt)
         else
           (case ctx_approval_policy ctx of
              Never \<Rightarrow> Allow
            | UnlessTrusted \<Rightarrow> Prompt
            | OnRequest \<Rightarrow> in_sandbox
            | Granular _ \<Rightarrow> in_sandbox))"

definition commands_for_exec_policy :: "shell_parser \<Rightarrow> ustr list \<Rightarrow> ustr list list" where
  "commands_for_exec_policy B command =
     (case parse_shell_lc_plain_commands B command of
        Some commands \<Rightarrow> if commands \<noteq> [] then commands else [command]
      | None \<Rightarrow> [command])"

definition dangerous_command_match_for_heuristics ::
  "shell_parser \<Rightarrow> 'a evaluation \<Rightarrow> decision \<Rightarrow> danger_match option" where
  "dangerous_command_match_for_heuristics B evaluation d =
     find_map (\<lambda>m. case m of
         HeuristicsRuleMatch command matched_decision \<Rightarrow>
           if matched_decision = d then dangerous_command_match B command else None
       | _ \<Rightarrow> None) (matched_rules evaluation)"

section \<open>Proposed amendments\<close>

definition BANNED_PREFIX_SUGGESTIONS :: "ustr list list" where
  "BANNED_PREFIX_SUGGESTIONS = [
     [str ''/bin/bash''], [str ''/bin/bash'', str ''-c''], [str ''/bin/bash'', str ''-lc''], [str ''/bin/sh''],
     [str ''/bin/sh'', str ''-c''], [str ''/bin/sh'', str ''-lc''], [str ''/bin/zsh''],
     [str ''/bin/zsh'', str ''-c''], [str ''/bin/zsh'', str ''-lc''], [str ''Rscript''], [str ''bash''],
     [str ''bash'', str ''-c''], [str ''bash'', str ''-lc''], [str ''bun''], [str ''bun'', str ''-e''],
     [str ''bun'', str ''run''], [str ''cmd''], [str ''cmd'', str ''/c''], [str ''cmd'', str ''/k''],
     [str ''cmd.exe''], [str ''cmd.exe'', str ''/c''], [str ''cmd.exe'', str ''/k''], [str ''dash''],
     [str ''dash'', str ''-c''], [str ''deno''], [str ''deno'', str ''eval''], [str ''env''], [str ''fish''],
     [str ''fish'', str ''-c''], [str ''git''], [str ''julia''], [str ''julia'', str ''-e''], [str ''ksh''],
     [str ''ksh'', str ''-c''], [str ''lua''], [str ''lua'', str ''-e''], [str ''node''],
     [str ''node'', str ''-e''], [str ''nodejs''], [str ''nodejs'', str ''-e''], [str ''npm'', str ''run''],
     [str ''osascript''], [str ''perl''], [str ''perl'', str ''-e''], [str ''php''], [str ''php'', str ''-r''],
     [str ''pnpm'', str ''run''], [str ''powershell''], [str ''powershell'', str ''-Command''],
     [str ''powershell'', str ''-EncodedCommand''], [str ''powershell'', str ''-File''],
     [str ''powershell'', str ''-c''], [str ''powershell.exe''], [str ''powershell.exe'', str ''-Command''],
     [str ''powershell.exe'', str ''-EncodedCommand''], [str ''powershell.exe'', str ''-File''],
     [str ''powershell.exe'', str ''-c''], [str ''pwsh''], [str ''pwsh'', str ''-Command''],
     [str ''pwsh'', str ''-EncodedCommand''], [str ''pwsh'', str ''-File''], [str ''pwsh'', str ''-c''],
     [str ''pwsh'', str ''-e''], [str ''pwsh'', str ''-ec''], [str ''pwsh'', str ''-f''], [str ''py''],
     [str ''py'', str ''-3''], [str ''pypy''], [str ''pypy3''], [str ''python''], [str ''python'', str ''-''],
     [str ''python'', str ''-c''], [str ''python3''], [str ''python3'', str ''-''],
     [str ''python3'', str ''-c''], [str ''pythonw''], [str ''pyw''], [str ''rm''], [str ''ruby''],
     [str ''ruby'', str ''-e''], [str ''sh''], [str ''sh'', str ''-c''], [str ''sh'', str ''-lc''],
     [str ''sudo''], [str ''yarn'', str ''run''], [str ''zsh''], [str ''zsh'', str ''-c''],
     [str ''zsh'', str ''-lc'']]"

definition prompt_rule :: "'a rule_match \<Rightarrow> bool" where
  "prompt_rule m \<longleftrightarrow> is_policy_match m \<and> match_decision m = Prompt"

definition heuristics_command :: "decision \<Rightarrow> 'a rule_match \<Rightarrow> ustr list option" where
  "heuristics_command d m =
     (case m of
        HeuristicsRuleMatch command matched_decision \<Rightarrow> if matched_decision = d then Some command else None
      | _ \<Rightarrow> None)"

definition try_derive_execpolicy_amendment_for_prompt_rules :: "'a rule_match list \<Rightarrow> exec_policy_amendment option" where
  "try_derive_execpolicy_amendment_for_prompt_rules ms =
     (if list_ex prompt_rule ms then None else find_map (heuristics_command Prompt) ms)"

definition try_derive_execpolicy_amendment_for_allow_rules :: "'a rule_match list \<Rightarrow> exec_policy_amendment option" where
  "try_derive_execpolicy_amendment_for_allow_rules ms =
     (if list_ex is_policy_match ms then None else find_map (heuristics_command Allow) ms)"

text \<open>A panic of the evaluation is \<open>None\<close>.\<close>

definition prefix_rule_would_approve_all_commands ::
  "'a host_paths \<Rightarrow> 'a policy \<Rightarrow> ustr list \<Rightarrow> ustr list list \<Rightarrow> (ustr list \<Rightarrow> decision) \<Rightarrow> match_options \<Rightarrow> bool" where
  "prefix_rule_would_approve_all_commands H p prefix commands fallback options =
     (case add_prefix_rule prefix Allow p of
        Inl _ \<Rightarrow> False
      | Inr p' \<Rightarrow>
          list_all (\<lambda>command. map_option eval_decision (check_with_options H p' command fallback options) = Some Allow)
            commands)"

definition derive_requested_execpolicy_amendment_from_prefix_rule ::
  "'a host_paths \<Rightarrow> ustr list option \<Rightarrow> 'a rule_match list \<Rightarrow> 'a policy \<Rightarrow> ustr list list \<Rightarrow>
     (ustr list \<Rightarrow> decision) \<Rightarrow> match_options \<Rightarrow> exec_policy_amendment option" where
  "derive_requested_execpolicy_amendment_from_prefix_rule H prefix_rule ms p commands fallback options =
     (case prefix_rule of
        None \<Rightarrow> None
      | Some prefix \<Rightarrow>
          if prefix = [] then None
          else if list_ex (\<lambda>banned. prefix = banned) BANNED_PREFIX_SUGGESTIONS then None
          else if list_ex is_policy_match ms then None
          else if prefix_rule_would_approve_all_commands H p prefix commands fallback options then Some prefix
          else None)"

section \<open>Reasons\<close>

definition render_shlex_command :: "'a policy_language \<Rightarrow> ustr list \<Rightarrow> ustr" where
  "render_shlex_command L args = (case shlex_try_join L args of Some s \<Rightarrow> s | None \<Rightarrow> join (str '' '') args)"

definition most_specific_match :: "decision \<Rightarrow> 'a rule_match list \<Rightarrow> (ustr list \<times> ustr option) option" where
  "most_specific_match d ms =
     max_by_key (\<lambda>(matched_prefix, _). length matched_prefix)
       (List.map_filter (\<lambda>m. case m of
            PrefixRuleMatch matched_prefix matched_decision _ j \<Rightarrow>
              if matched_decision = d then Some (matched_prefix, j) else None
          | _ \<Rightarrow> None) ms)"

definition derive_prompt_reason :: "'a policy_language \<Rightarrow> ustr list \<Rightarrow> 'a evaluation \<Rightarrow> ustr option" where
  "derive_prompt_reason L command_args evaluation =
     (let command = str ''`'' @ render_shlex_command L command_args @ str ''` requires approval'' in
      case most_specific_match Prompt (matched_rules evaluation) of
        Some (_, Some j) \<Rightarrow> Some (command @ str '': '' @ j)
      | Some (_, None) \<Rightarrow> Some (command @ str '' by policy'')
      | None \<Rightarrow> None)"

fun dangerous_command_rejection_reason :: "danger_match \<Rightarrow> ustr" where
  "dangerous_command_rejection_reason ForcedRm = str ''rm -f style commands are not permitted. Use a safer approach''"
| "dangerous_command_rejection_reason OtherDanger = str ''blocked by policy''"

definition derive_forbidden_reason ::
  "'a policy_language \<Rightarrow> ustr list \<Rightarrow> 'a evaluation \<Rightarrow> danger_match option \<Rightarrow> ustr" where
  "derive_forbidden_reason L command_args evaluation danger =
     (let command = str ''`'' @ render_shlex_command L command_args @ str ''` rejected: '' in
      case most_specific_match Forbidden (matched_rules evaluation) of
        Some (_, Some j) \<Rightarrow> command @ j
      | Some (matched_prefix, None) \<Rightarrow>
          command @ str ''policy forbids commands starting with `'' @ render_shlex_command L matched_prefix @ str ''`''
      | None \<Rightarrow>
          (case danger of
             Some danger \<Rightarrow> command @ dangerous_command_rejection_reason danger
           | None \<Rightarrow> command @ str ''blocked by policy''))"

definition derive_rejected_prompt_reason :: "ustr \<Rightarrow> danger_match option \<Rightarrow> ustr" where
  "derive_rejected_prompt_reason fallback_reason danger =
     (if danger = Some ForcedRm then dangerous_command_rejection_reason ForcedRm else fallback_reason)"

section \<open>The manager\<close>

datatype allow_prefix_rules = Honor | IgnoreForCyberModel

record 'a exec_policy_manager =
  manager_policy :: "'a policy"

record ('a, 'p) exec_approval_request =
  req_command :: "ustr list"
  req_approval_policy :: ask_for_approval
  req_permission_profile :: "'p permission_profile"
  req_environment_policy :: "'a policy option"
  req_sandbox_permissions :: sandbox_permissions
  req_prefix_rule :: "ustr list option"
  req_allow_prefix_rules :: allow_prefix_rules

definition current_for_prefix_rules :: "'a exec_policy_manager \<Rightarrow> allow_prefix_rules \<Rightarrow> 'a policy" where
  "current_for_prefix_rules mgr allow =
     (let p = manager_policy mgr in
      if allow = Honor then p
      else
        policy_from_parts
          (fold (\<lambda>(program, rule). mm_insert program rule)
             (concat (map (\<lambda>(program, rs). map (Pair program) (filter (\<lambda>r. rule_decision r \<noteq> Allow) rs))
                (rules_by_program p))) [])
          (network_rules p) (host_executables_by_name p))"

definition current_for_environment ::
  "'a exec_policy_manager \<Rightarrow> 'a policy option \<Rightarrow> allow_prefix_rules \<Rightarrow> 'a policy" where
  "current_for_environment mgr environment_policy allow =
     (let p = current_for_prefix_rules mgr allow in
      case environment_policy of Some e \<Rightarrow> merge_overlay p e | None \<Rightarrow> p)"

definition exec_policy_fallback ::
  "shell_parser \<Rightarrow> ('a, 'p) exec_approval_request \<Rightarrow> ustr list \<Rightarrow> decision" where
  "exec_policy_fallback B req =
     render_decision_for_unmatched_command B
       \<lparr>ctx_approval_policy = req_approval_policy req, ctx_permission_profile = req_permission_profile req,
        ctx_sandbox_permissions = req_sandbox_permissions req\<rparr>"

definition approval_options :: match_options where
  "approval_options = \<lparr>resolve_host_executables = True\<rparr>"

definition requested_amendment ::
  "'a policy_language \<Rightarrow> shell_parser \<Rightarrow> 'a policy \<Rightarrow> ('a, 'p) exec_approval_request \<Rightarrow> ustr list list \<Rightarrow>
     'a evaluation \<Rightarrow> exec_policy_amendment option" where
  "requested_amendment L B p req commands evaluation =
     (if req_allow_prefix_rules req = Honor then
        derive_requested_execpolicy_amendment_from_prefix_rule (hosts L) (req_prefix_rule req)
          (matched_rules evaluation) p commands (exec_policy_fallback B req) approval_options
      else None)"

definition explicitly_allowed :: "'a host_paths \<Rightarrow> 'a policy \<Rightarrow> ustr list \<Rightarrow> bool" where
  "explicitly_allowed H p command \<longleftrightarrow>
     list_ex (\<lambda>m. is_policy_match m \<and> match_decision m = Allow)
       (matches_for_command_with_options H p command None approval_options)"

text \<open>The requirement that follows from an evaluation.\<close>

definition approval_requirement ::
  "'a policy_language \<Rightarrow> shell_parser \<Rightarrow> 'a policy \<Rightarrow> ('a, 'p) exec_approval_request \<Rightarrow> ustr list list \<Rightarrow>
     'a evaluation \<Rightarrow> exec_approval_requirement" where
  "approval_requirement L B exec_policy req commands evaluation =
     (let auto_amendment_allowed = (req_allow_prefix_rules req = Honor);
          ms = matched_rules evaluation
      in case eval_decision evaluation of
           Forbidden \<Rightarrow>
             ForbiddenApproval (derive_forbidden_reason L (req_command req) evaluation
               (dangerous_command_match_for_heuristics B evaluation Forbidden))
         | Prompt \<Rightarrow>
             (let prompt_is_rule = list_ex prompt_rule ms in
              case prompt_is_rejected_by_policy (req_approval_policy req) prompt_is_rule of
                Some reason \<Rightarrow>
                  if prompt_is_rule then ForbiddenApproval reason
                  else ForbiddenApproval (derive_rejected_prompt_reason reason
                    (dangerous_command_match_for_heuristics B evaluation Prompt))
              | None \<Rightarrow>
                  NeedsApproval (derive_prompt_reason L (req_command req) evaluation)
                    (case requested_amendment L B exec_policy req commands evaluation of
                       Some amendment \<Rightarrow> Some amendment
                     | None \<Rightarrow>
                         if auto_amendment_allowed then try_derive_execpolicy_amendment_for_prompt_rules ms else None))
         | Allow \<Rightarrow>
             SkipApproval (list_all (explicitly_allowed (hosts L) exec_policy) commands)
               (if auto_amendment_allowed then try_derive_execpolicy_amendment_for_allow_rules ms else None))"

definition create_exec_approval_requirement_for_parsed_commands ::
  "'a policy_language \<Rightarrow> shell_parser \<Rightarrow> 'a exec_policy_manager \<Rightarrow> ('a, 'p) exec_approval_request \<Rightarrow>
     ustr list list \<Rightarrow> exec_approval_requirement option" where
  "create_exec_approval_requirement_for_parsed_commands L B mgr req commands =
     (let exec_policy = current_for_environment mgr (req_environment_policy req) (req_allow_prefix_rules req)
      in map_option (approval_requirement L B exec_policy req commands)
           (check_multiple_with_options (hosts L) exec_policy commands (exec_policy_fallback B req) approval_options))"

definition create_exec_approval_requirement_for_command ::
  "'a policy_language \<Rightarrow> shell_parser \<Rightarrow> 'a exec_policy_manager \<Rightarrow> ('a, 'p) exec_approval_request \<Rightarrow>
     exec_approval_requirement option" where
  "create_exec_approval_requirement_for_command L B mgr req =
     create_exec_approval_requirement_for_parsed_commands L B mgr req (commands_for_exec_policy B (req_command req))"

section \<open>The identity of the shell\<close>

datatype unified_exec_shell_mode = DirectShell | ZshFork

definition shell_approval_command :: "ustr list \<Rightarrow> ustr \<Rightarrow> unified_exec_shell_mode \<Rightarrow> ustr list" where
  "shell_approval_command command configured_shell_path shell_mode =
     (case command of
        [] \<Rightarrow> command
      | executable # _ \<Rightarrow>
          let is_system_shell =
                (case parent_components executable of
                   Some parent \<Rightarrow> parent = components (str ''/bin'') \<or> parent = components (str ''/usr/bin'')
                 | None \<Rightarrow> False);
              is_configured_shell = path_eq executable configured_shell_path
          in if is_configured_shell \<or> is_system_shell \<or> shell_mode = ZshFork then command else [executable])"

definition create_exec_approval_requirement_for_shell ::
  "'a policy_language \<Rightarrow> shell_parser \<Rightarrow> 'a exec_policy_manager \<Rightarrow> ('a, 'p) exec_approval_request \<Rightarrow>
     ustr \<Rightarrow> unified_exec_shell_mode \<Rightarrow> exec_approval_requirement option" where
  "create_exec_approval_requirement_for_shell L B mgr req configured_shell_path shell_mode =
     (let command = req_command req;
          executable = shell_approval_command command configured_shell_path shell_mode
      in if length executable = length command then create_exec_approval_requirement_for_command L B mgr req
         else create_exec_approval_requirement_for_parsed_commands L B mgr (req\<lparr>req_command := executable\<rparr>)
           (executable # commands_for_exec_policy B command))"

section \<open>Updates\<close>

datatype 'p exec_policy_update_error =
    AppendRule 'p "'p amend_error"
  | JoinBlockingTask ustr
  | AddRule policy_error

definition default_policy_path :: "('w, 'p) policy_files \<Rightarrow> 'p \<Rightarrow> 'p" where
  "default_policy_path F codex_home = home_join F (home_join F codex_home (str ''rules'')) (str ''default.rules'')"

text \<open>The blocking task does not panic, so that joining it succeeds. An outer \<open>None\<close> is a panic of the
  evaluation.\<close>

definition append_amendment_and_update ::
  "'a policy_language \<Rightarrow> json_codec \<Rightarrow> ('w, 'p) policy_files \<Rightarrow> 'p \<Rightarrow> exec_policy_amendment \<Rightarrow>
     'a exec_policy_manager \<Rightarrow> 'w \<Rightarrow> ('w \<times> 'a exec_policy_manager \<times> ('p exec_policy_update_error + unit)) option" where
  "append_amendment_and_update L J F codex_home amendment mgr w =
     (let policy_path = default_policy_path F codex_home in
      case blocking_append_allow_prefix_rule J F policy_path amendment w of
        (w', Inl source) \<Rightarrow> Some (w', mgr, Inl (AppendRule policy_path source))
      | (w', Inr _) \<Rightarrow>
          map_option (\<lambda>existing_evaluation.
            let already_allowed =
                  (eval_decision existing_evaluation = Allow \<and>
                   list_ex (\<lambda>m. is_policy_match m \<and> match_decision m = Allow) (matched_rules existing_evaluation))
            in if already_allowed then (w', mgr, Inr ())
               else
                 (case add_prefix_rule amendment Allow (manager_policy mgr) of
                    Inl source \<Rightarrow> (w', mgr, Inl (AddRule source))
                  | Inr updated_policy \<Rightarrow> (w', mgr\<lparr>manager_policy := updated_policy\<rparr>, Inr ())))
            (check_multiple_with_options (hosts L) (manager_policy mgr) [amendment] (\<lambda>_. Forbidden) approval_options))"

definition append_network_rule_and_update ::
  "json_codec \<Rightarrow> ('w, 'p) policy_files \<Rightarrow> 'p \<Rightarrow> ustr \<Rightarrow> network_rule_protocol \<Rightarrow> decision \<Rightarrow> ustr option \<Rightarrow>
     'a exec_policy_manager \<Rightarrow> 'w \<Rightarrow> 'w \<times> 'a exec_policy_manager \<times> ('p exec_policy_update_error + unit)" where
  "append_network_rule_and_update J F codex_home h proto d j mgr w =
     (let policy_path = default_policy_path F codex_home in
      case blocking_append_network_rule J F policy_path h proto d j w of
        (w', Inl source) \<Rightarrow> (w', mgr, Inl (AppendRule policy_path source))
      | (w', Inr _) \<Rightarrow>
          (case policy_add_network_rule h proto d j (manager_policy mgr) of
             Inl source \<Rightarrow> (w', mgr, Inl (AddRule source))
           | Inr updated_policy \<Rightarrow> (w', mgr\<lparr>manager_policy := updated_policy\<rparr>, Inr ())))"

section \<open>Loading\<close>

datatype config_layer_source = UserLayer | ProjectLayer | OtherLayer

record ('a, 'p) config_layer_stack =
  layers_low_to_high :: "(config_layer_source \<times> 'p option) list"
  ignore_user_and_project_exec_policy_rules :: bool
  requirements_exec_policy :: "'a policy option"

text \<open>An entry of a directory: reading it may fail, and so may asking for its type.\<close>

record 'p rule_files =
  read_dir :: "'p \<Rightarrow> io_error + (io_error + 'p \<times> (io_error + bool)) list"
  path_extension :: "'p \<Rightarrow> ustr option"
  rules_join :: "'p \<Rightarrow> ustr \<Rightarrow> 'p"
  read_rules :: "'p \<Rightarrow> io_error + ustr"
  path_lossy :: "'p \<Rightarrow> ustr"

datatype 'p exec_policy_error =
    ReadDir 'p io_error
  | ReadFile 'p io_error
  | ParsePolicy ustr policy_error

definition dir_entry :: "'p rule_files \<Rightarrow> 'p \<Rightarrow> io_error + 'p \<times> (io_error + bool) \<Rightarrow> 'p exec_policy_error + 'p list" where
  "dir_entry R dir e =
     (case e of
        Inl source \<Rightarrow> Inl (ReadDir dir source)
      | Inr (path, file_type) \<Rightarrow>
          (case file_type of
             Inl source \<Rightarrow> Inl (ReadDir dir source)
           | Inr is_file \<Rightarrow> Inr (if path_extension R path = Some (str ''rules'') \<and> is_file then [path] else [])))"

definition collect_policy_files :: "'p::linorder rule_files \<Rightarrow> 'p \<Rightarrow> 'p exec_policy_error + 'p list" where
  "collect_policy_files R dir =
     (case read_dir R dir of
        Inl (IoErr kind msg) \<Rightarrow> if kind = NotFound then Inr [] else Inl (ReadDir dir (IoErr kind msg))
      | Inr es \<Rightarrow> and_then (try_map (dir_entry R dir) es) (\<lambda>paths. Inr (sort (concat paths))))"

definition layer_policy_files ::
  "'p::linorder rule_files \<Rightarrow> bool \<Rightarrow> config_layer_source \<times> 'p option \<Rightarrow> 'p exec_policy_error + 'p list" where
  "layer_policy_files R ignore layer =
     (case layer of (source, config_folder) \<Rightarrow>
       if ignore \<and> source \<in> {UserLayer, ProjectLayer} then Inr []
       else
         (case config_folder of
            None \<Rightarrow> Inr []
          | Some folder \<Rightarrow> collect_policy_files R (rules_join R folder (str ''rules''))))"

fun parse_policy_files ::
  "'a policy_language \<Rightarrow> 'p rule_files \<Rightarrow> 'p list \<Rightarrow> 'a policy_builder \<Rightarrow>
     ('p exec_policy_error + 'a policy_builder) option" where
  "parse_policy_files L R [] b = Some (Inr b)"
| "parse_policy_files L R (policy_path # paths) b =
     (case read_rules R policy_path of
        Inl source \<Rightarrow> Some (Inl (ReadFile policy_path source))
      | Inr contents \<Rightarrow>
          (let identifier = path_lossy R policy_path in
           case parse_policy L identifier contents b of
             (_, None) \<Rightarrow> None
           | (_, Some (Inl source)) \<Rightarrow> Some (Inl (ParsePolicy identifier source))
           | (b', Some (Inr _)) \<Rightarrow> parse_policy_files L R paths b'))"

definition load_exec_policy ::
  "'a policy_language \<Rightarrow> 'p::linorder rule_files \<Rightarrow> ('a, 'p) config_layer_stack \<Rightarrow>
     ('p exec_policy_error + 'a policy) option" where
  "load_exec_policy L R stack =
     (case try_map (layer_policy_files R (ignore_user_and_project_exec_policy_rules stack)) (layers_low_to_high stack) of
        Inl e \<Rightarrow> Some (Inl e)
      | Inr policy_paths \<Rightarrow>
          map_option (\<lambda>r. and_then r (\<lambda>b.
              let p = builder_build b in
              case requirements_exec_policy stack of
                None \<Rightarrow> Inr p
              | Some requirements_policy \<Rightarrow> Inr (merge_overlay p requirements_policy)))
            (parse_policy_files L R (concat policy_paths) builder_new))"

definition load_exec_policy_with_warning ::
  "'a policy_language \<Rightarrow> 'p::linorder rule_files \<Rightarrow> ('a, 'p) config_layer_stack \<Rightarrow>
     ('p exec_policy_error + 'a policy \<times> 'p exec_policy_error option) option" where
  "load_exec_policy_with_warning L R stack =
     map_option (\<lambda>r. case r of
         Inr p \<Rightarrow> Inr (p, None)
       | Inl err \<Rightarrow>
           (case err of
              ParsePolicy _ _ \<Rightarrow>
                Inr (case requirements_exec_policy stack of Some p \<Rightarrow> p | None \<Rightarrow> policy_empty, Some err)
            | _ \<Rightarrow> Inl err)) (load_exec_policy L R stack)"

end
