(* ===== verification/Exec_Approval_Laws.thy ===== *)
theory Exec_Approval_Laws
  imports Exec_Approval
begin

text \<open>
  What the approval decision promises: a command runs without a question only when every part of it is
  allowed, prompts appear only where the user permits them, a rule the user approved is not asked for again,
  and the rules of the requirements stay in force.
\<close>

abbreviation request_policy :: "'a exec_policy_manager \<Rightarrow> ('a, 'p) exec_approval_request \<Rightarrow> 'a policy" where
  "request_policy mgr req \<equiv> current_for_environment mgr (req_environment_policy req) (req_allow_prefix_rules req)"

abbreviation request_matches ::
  "'a policy_language \<Rightarrow> shell_parser \<Rightarrow> 'a exec_policy_manager \<Rightarrow> ('a, 'p) exec_approval_request \<Rightarrow> ustr list \<Rightarrow>
     'a rule_match list" where
  "request_matches L B mgr req cmd \<equiv>
     matches_for_command_with_options (hosts L) (request_policy mgr req) cmd (Some (exec_policy_fallback B req)) approval_options"

section \<open>The evaluation behind a requirement\<close>

lemma check_multiple_Some:
  assumes "check_multiple_with_options H p commands h options = Some e"
  shows "matched_rules e = concat (map (\<lambda>cmd. matches_for_command_with_options H p cmd (Some h) options) commands)"
    and "commands \<noteq> []" and "m \<in> set (matched_rules e) \<Longrightarrow> match_decision m \<le> eval_decision e"
    and "\<exists>m \<in> set (matched_rules e). match_decision m = eval_decision e"
proof -
  let ?ms = "concat (map (\<lambda>cmd. matches_for_command_with_options H p cmd (Some h) options) commands)"
  from assms have e: "?ms \<noteq> []" "e = \<lparr>eval_decision = Max (match_decision ` set ?ms), matched_rules = ?ms\<rparr>"
    by (simp_all only: check_multiple_with_options_def from_matches_eq split: if_splits) auto
  then show "matched_rules e = ?ms" "commands \<noteq> []" by auto
  show "match_decision m \<le> eval_decision e" if "m \<in> set (matched_rules e)"
    using that e by (auto intro!: Max_ge)
  have "Max (match_decision ` set ?ms) \<in> match_decision ` set ?ms" using e(1) by (intro Max_in) auto
  then obtain m where "Max (match_decision ` set ?ms) = match_decision m" "m \<in> set ?ms" by (rule imageE)
  then show "\<exists>m \<in> set (matched_rules e). match_decision m = eval_decision e"
    unfolding e(2) by (intro bexI [of _ m]) (simp_all del: set_concat set_map)
qed

lemma fallback_match:
  assumes "matches_for_command_with_options H p cmd None options = []"
  shows "matches_for_command_with_options H p cmd (Some h) options = [HeuristicsRuleMatch cmd (h cmd)]"
  using assms by (auto simp: matches_for_command_with_options_def Let_def split: if_splits)

lemma rules_before_fallback:
  assumes "matches_for_command_with_options H p cmd None options \<noteq> []"
  shows "matches_for_command_with_options H p cmd (Some h) options =
    matches_for_command_with_options H p cmd None options"
  using assms by (auto simp: matches_for_command_with_options_def Let_def split: if_splits)

section \<open>Running without a question\<close>

lemma Allow_least [simp]: "d \<le> Allow \<longleftrightarrow> d = Allow"
  by (cases d) (simp_all add: less_eq_decision_def)

lemma requirement_evaluation:
  assumes "create_exec_approval_requirement_for_parsed_commands L B mgr req commands = Some r"
  obtains e where
    "check_multiple_with_options (hosts L) (request_policy mgr req) commands (exec_policy_fallback B req) approval_options = Some e"
    "r = approval_requirement L B (request_policy mgr req) req commands e"
  using assms by (auto simp: create_exec_approval_requirement_for_parsed_commands_def Let_def)

lemma approval_requirement_Skip:
  assumes "approval_requirement L B p req commands e = SkipApproval bypass am"
  shows "eval_decision e = Allow" "bypass = list_all (explicitly_allowed (hosts L) p) commands"
  using assms by (cases "eval_decision e"; simp add: approval_requirement_def Let_def split: option.splits if_splits)+

lemma approval_requirement_Needs:
  assumes "approval_requirement L B p req commands e = NeedsApproval reason am"
  shows "eval_decision e = Prompt"
    "prompt_is_rejected_by_policy (req_approval_policy req) (list_ex prompt_rule (matched_rules e)) = None"
  using assms by (cases "eval_decision e"; simp add: approval_requirement_def Let_def split: option.splits if_splits)+

lemma skip_matches_allow:
  assumes "create_exec_approval_requirement_for_parsed_commands L B mgr req commands = Some (SkipApproval bypass am)"
    "cmd \<in> set commands" "m \<in> set (request_matches L B mgr req cmd)"
  shows "match_decision m = Allow"
proof -
  obtain e where e: "check_multiple_with_options (hosts L) (request_policy mgr req) commands (exec_policy_fallback B req) approval_options = Some e"
    "eval_decision e = Allow"
    by (rule requirement_evaluation [OF assms(1)]) (metis approval_requirement_Skip(1))
  have "m \<in> set (matched_rules e)" using assms(2,3) by (auto simp: check_multiple_Some(1) [OF e(1)])
  from check_multiple_Some(3) [OF e(1) this] e(2) show ?thesis by simp
qed

lemma fallback_allows_safe:
  assumes "exec_policy_fallback B req cmd = Allow"
  shows "dangerous_command_match B cmd = None" "req_approval_policy req \<noteq> UnlessTrusted"
  using assms
  by (auto simp: exec_policy_fallback_def render_decision_for_unmatched_command_def Let_def
      split: if_splits ask_for_approval.splits)

text \<open>C17. A command that runs without asking is allowed in every part: all matches of every command of the
  script allow it. A part that no rule mentions cannot reach a forced removal through any wrappers, and the
  sandbox is left out only when a rule allows every part.\<close>

theorem skipped_approval_is_safe:
  assumes run: "create_exec_approval_requirement_for_command L B mgr req = Some (SkipApproval bypass am)"
    and cmd: "cmd \<in> set (commands_for_exec_policy B (req_command req))"
  shows "(\<forall>m \<in> set (request_matches L B mgr req cmd). match_decision m = Allow) \<and>
    (matches_for_command_with_options (hosts L) (request_policy mgr req) cmd None approval_options = [] \<longrightarrow>
       req_approval_policy req \<noteq> UnlessTrusted \<and> \<not> (\<exists>c'. (runs B)\<^sup>*\<^sup>* cmd c' \<and> forced_rm c')) \<and>
    (bypass \<longrightarrow> (\<exists>m \<in> set (matches_for_command_with_options (hosts L) (request_policy mgr req) cmd None approval_options).
       is_policy_match m \<and> match_decision m = Allow))"
proof (intro conjI impI ballI)
  note run' = run [unfolded create_exec_approval_requirement_for_command_def]
  show "match_decision m = Allow" if "m \<in> set (request_matches L B mgr req cmd)" for m
    by (rule skip_matches_allow [OF run' cmd that])
  show "req_approval_policy req \<noteq> UnlessTrusted" "\<not> (\<exists>c'. (runs B)\<^sup>*\<^sup>* cmd c' \<and> forced_rm c')"
    if "matches_for_command_with_options (hosts L) (request_policy mgr req) cmd None approval_options = []"
  proof -
    have "exec_policy_fallback B req cmd = Allow"
      using skip_matches_allow [OF run' cmd] fallback_match [OF that, of "exec_policy_fallback B req"] by fastforce
    note safe = fallback_allows_safe [OF this]
    from safe(2) show "req_approval_policy req \<noteq> UnlessTrusted" .
    from safe(1) show "\<not> (\<exists>c'. (runs B)\<^sup>*\<^sup>* cmd c' \<and> forced_rm c')" using dangerous_iff_reaches [of B cmd] by blast
  qed
  show "\<exists>m \<in> set (matches_for_command_with_options (hosts L) (request_policy mgr req) cmd None approval_options).
      is_policy_match m \<and> match_decision m = Allow" if bypass
  proof -
    from requirement_evaluation [OF run'] obtain e where
      "approval_requirement L B (request_policy mgr req) req (commands_for_exec_policy B (req_command req)) e = SkipApproval bypass am"
      by metis
    from approval_requirement_Skip(2) [OF this] that cmd show ?thesis
      by (auto simp: list_all_iff explicitly_allowed_def list_ex_iff)
  qed
qed

text \<open>C25. The user is asked only where their settings permit it: never under the policy that never asks, and under
  granular settings only for the kinds of prompts they enabled.\<close>

theorem prompts_are_permitted:
  assumes "create_exec_approval_requirement_for_parsed_commands L B mgr req commands = Some (NeedsApproval reason am)"
  shows "req_approval_policy req \<noteq> Never \<and>
    (\<forall>g. req_approval_policy req = Granular g \<longrightarrow>
      (if \<exists>cmd \<in> set commands. \<exists>m \<in> set (request_matches L B mgr req cmd). prompt_rule m then rules_approval g
       else sandbox_approval g))"
proof -
  obtain e where e: "check_multiple_with_options (hosts L) (request_policy mgr req) commands (exec_policy_fallback B req) approval_options = Some e"
    "prompt_is_rejected_by_policy (req_approval_policy req) (list_ex prompt_rule (matched_rules e)) = None"
    by (rule requirement_evaluation [OF assms]) (metis approval_requirement_Needs(2))
  have "list_ex prompt_rule (matched_rules e) \<longleftrightarrow>
      (\<exists>cmd \<in> set commands. \<exists>m \<in> set (request_matches L B mgr req cmd). prompt_rule m)"
    by (auto simp: check_multiple_Some(1) [OF e(1)] list_ex_iff)
  with e(2) show ?thesis by (cases "req_approval_policy req") (auto split: if_splits)
qed

section \<open>Approved prefixes\<close>

abbreviation exact_matches :: "'a policy \<Rightarrow> ustr list \<Rightarrow> 'a rule_match list" where
  "exact_matches p cmd \<equiv> unwrap_or_default (match_exact_rules p cmd)"

lemma map_filter_empty: "List.map_filter f xs = [] \<longleftrightarrow> (\<forall>x \<in> set xs. f x = None)"
  by (induction xs) (auto simp: List.map_filter_simps split: option.split)

lemma rule_matches_extend:
  assumes "rule_matches r cmd = Some m" shows "\<exists>m'. rule_matches r (cmd @ tail) = Some m'"
proof -
  from assms obtain pre where "matches_prefix (pattern r) cmd = Some pre" by (auto simp: rule_matches_def)
  then have "matches_prefix (pattern r) (cmd @ tail) = Some pre" by (auto simp: matches_prefix_Some)
  then show ?thesis by (simp add: rule_matches_def)
qed

lemma exact_matches_nonempty:
  "exact_matches p cmd \<noteq> [] \<longleftrightarrow>
   (\<exists>w ws r. cmd = w # ws \<and> r \<in> set (unwrap_or_default (mm_get_vec (rules_by_program p) w)) \<and>
      (\<exists>m :: 'a rule_match. rule_matches r cmd = Some m))" for p :: "'a policy"
  by (cases cmd) (auto simp: match_exact_rules_eq map_filter_empty)

lemma exact_matches_extend: "exact_matches p cmd \<noteq> [] \<Longrightarrow> exact_matches p (cmd @ tail) \<noteq> []"
  unfolding exact_matches_nonempty using rule_matches_extend by fastforce

text \<open>The program of a command as a host executable: its name in the policy, and whether its path is listed.\<close>

definition host_name :: "'a host_paths \<Rightarrow> 'a policy \<Rightarrow> ustr \<Rightarrow> ustr option" where
  "host_name H p w =
     (case absolute_path H w of
        None \<Rightarrow> None
      | Some program \<Rightarrow>
          (case executable_path_lookup_key H program of
             None \<Rightarrow> None
           | Some name \<Rightarrow>
               (case map_of (host_executables_by_name p) name of
                  Some paths \<Rightarrow> if list_ex (\<lambda>path. path = program) paths then Some name else None
                | None \<Rightarrow> Some name)))"

lemma unwrap_values: "unwrap_or_default None = []" "unwrap_or_default (Some xs) = xs"
  by (simp_all add: unwrap_or_default_def)

lemma host_matches_nonempty:
  "match_host_executable_rules H p cmd \<noteq> [] \<longleftrightarrow>
   (\<exists>w args name. cmd = w # args \<and> host_name H p w = Some name \<and> exact_matches p (name # args) \<noteq> [])"
proof (cases cmd)
  case (Cons w args)
  show ?thesis
  proof (cases "absolute_path H w")
    case (Some program)
    show ?thesis
    proof (cases "executable_path_lookup_key H program")
      case (Some name)
      with \<open>absolute_path H w = Some program\<close> Cons show ?thesis
        by (cases "mm_get_vec (rules_by_program p) name"; cases "map_of (host_executables_by_name p) name")
          (auto simp: match_host_executable_rules_def host_name_def match_exact_rules_eq unwrap_values
            List.map_filter_simps)
    qed (use Some Cons in \<open>simp add: match_host_executable_rules_def host_name_def\<close>)
  qed (use Cons in \<open>simp add: match_host_executable_rules_def host_name_def\<close>)
qed (simp add: match_host_executable_rules_def)

lemma matches_nonempty:
  "matches_for_command_with_options H p cmd None approval_options \<noteq> [] \<longleftrightarrow>
   exact_matches p cmd \<noteq> [] \<or> match_host_executable_rules H p cmd \<noteq> []"
  by (simp add: matches_for_command_with_options_def approval_options_def Let_def)

lemma add_prefix_rule_parts:
  assumes "add_prefix_rule prefix Allow p = Inr p'"
  shows "prefix \<noteq> []" "host_executables_by_name p' = host_executables_by_name p"
    "exact_matches p' cmd \<noteq> [] \<longleftrightarrow> exact_matches p cmd \<noteq> [] \<or> take (length prefix) cmd = prefix"
proof -
  from assms show "prefix \<noteq> []" "host_executables_by_name p' = host_executables_by_name p"
    by (auto simp: add_prefix_rule_def Let_def split: list.splits)
  from add_prefix_rule_matches [where prefix = prefix and d = Allow and p = p and cmd = cmd] assms
  show "exact_matches p' cmd \<noteq> [] \<longleftrightarrow> exact_matches p cmd \<noteq> [] \<or> take (length prefix) cmd = prefix" by auto
qed

lemma host_name_cong: "host_executables_by_name p' = host_executables_by_name p \<Longrightarrow> host_name H p' w = host_name H p w"
  by (simp add: host_name_def split: option.split)

text \<open>The name of a program is not an absolute path.\<close>

definition names_relative :: "'a host_paths \<Rightarrow> bool" where
  "names_relative H \<longleftrightarrow> (\<forall>program name. executable_path_lookup_key H program = Some name \<longrightarrow> absolute_path H name = None)"

text \<open>If the rule for a prefix is what makes a command match, no rule was there that matches the prefix.\<close>

lemma new_rule_needed:
  assumes names: "names_relative H" and p': "add_prefix_rule prefix Allow p = Inr p'"
    and before: "matches_for_command_with_options H p cmd None approval_options = []"
    and after: "matches_for_command_with_options H p' cmd None approval_options \<noteq> []"
  shows "matches_for_command_with_options H p prefix None approval_options = []"
proof -
  note parts = add_prefix_rule_parts [OF p']
  from before have none: "exact_matches p cmd = []" "match_host_executable_rules H p cmd = []"
    using matches_nonempty by blast+
  obtain w0 ts where prefix: "prefix = w0 # ts" using parts(1) by (cases prefix) auto
  consider "take (length prefix) cmd = prefix"
    | w args name where "cmd = w # args" "host_name H p w = Some name" "exact_matches p (name # args) = []"
      "take (length prefix) (name # args) = prefix"
  proof (cases "exact_matches p' cmd = []")
    case False
    with none(1) parts(3) [of cmd] show thesis by (intro that(1)) simp
  next
    case True
    with after have "match_host_executable_rules H p' cmd \<noteq> []" using matches_nonempty by blast
    then obtain w args name where host: "cmd = w # args" "host_name H p w = Some name" "exact_matches p' (name # args) \<noteq> []"
      unfolding host_matches_nonempty host_name_cong [OF parts(2)] by blast
    moreover have "exact_matches p (name # args) = []"
      using none(2) host(1,2) host_matches_nonempty [of H p cmd] by blast
    ultimately show thesis using parts(3) [of "name # args"] by (intro that(2)) simp_all
  qed
  then show ?thesis
  proof cases
    case 1
    then obtain tail where cmd: "cmd = prefix @ tail" by (metis append_take_drop_id)
    have "exact_matches p prefix = []" using none(1) exact_matches_extend [of p prefix tail] cmd by blast
    moreover have "match_host_executable_rules H p prefix = []"
    proof (rule ccontr)
      assume "match_host_executable_rules H p prefix \<noteq> []"
      then obtain name where "host_name H p w0 = Some name" "exact_matches p (name # ts) \<noteq> []"
        unfolding host_matches_nonempty prefix by auto
      then have "match_host_executable_rules H p cmd \<noteq> []"
        unfolding host_matches_nonempty cmd prefix using exact_matches_extend [of p "name # ts" tail] by auto
      with none(2) show False by simp
    qed
    ultimately show ?thesis using matches_nonempty by blast
  next
    case 2
    then obtain tail where cmd: "name # args = prefix @ tail" by (metis append_take_drop_id)
    have "exact_matches p prefix = []" using 2(3) exact_matches_extend [of p prefix tail] cmd by fastforce
    moreover have "absolute_path H w0 = None"
      using names 2(2) cmd prefix by (auto simp: names_relative_def host_name_def split: option.splits if_splits)
    then have "match_host_executable_rules H p prefix = []"
      by (simp add: match_host_executable_rules_def prefix)
    ultimately show ?thesis using matches_nonempty by blast
  qed
qed

lemma heuristic_matches_only:
  assumes "\<not> list_ex is_policy_match (matches_for_command_with_options H p cmd (Some h) options)"
  shows "matches_for_command_with_options H p cmd None options = []"
proof (rule ccontr)
  assume ne: "matches_for_command_with_options H p cmd None options \<noteq> []"
  have "m \<in> set (matches_for_command_with_options H p cmd None options) \<Longrightarrow> is_policy_match m" for m
    by (auto simp: matches_for_command_with_options_def match_exact_rules_eq Let_def map_filter_set rule_matches_def
        match_host_executable_rules_def split: if_splits list.splits option.splits)
  with ne assms show False by (auto simp: rules_before_fallback list_ex_iff neq_Nil_conv)
qed

lemma check_with_options_Allow:
  "map_option eval_decision (check_with_options H p cmd h options) = Some Allow \<longleftrightarrow>
   (\<forall>m \<in> set (matches_for_command_with_options H p cmd (Some h) options). match_decision m = Allow)"
proof -
  let ?ms = "matches_for_command_with_options H p cmd (Some h) options"
  have "?ms \<noteq> []" by (rule matches_with_fallback)
  then have "map_option eval_decision (check_with_options H p cmd h options) = Some Allow \<longleftrightarrow>
      Max (match_decision ` set ?ms) \<le> Allow"
    by (simp add: check_with_options_def from_matches_eq)
  also have "\<dots> \<longleftrightarrow> (\<forall>m \<in> set ?ms. match_decision m \<le> Allow)"
    using \<open>?ms \<noteq> []\<close> by (subst Max_le_iff) auto
  finally show ?thesis by simp
qed

lemma all_allowed_skips:
  assumes "commands \<noteq> []" "\<forall>cmd \<in> set commands. map_option eval_decision
      (check_with_options (hosts L) (request_policy mgr req) cmd (exec_policy_fallback B req) approval_options) = Some Allow"
  shows "\<exists>bypass am. create_exec_approval_requirement_for_parsed_commands L B mgr req commands = Some (SkipApproval bypass am)"
proof -
  obtain e where e: "check_multiple_with_options (hosts L) (request_policy mgr req) commands (exec_policy_fallback B req) approval_options = Some e"
    using assms(1) check_multiple_strictest [of "hosts L" "request_policy mgr req" commands] by simp
  from check_multiple_Some(4) [OF e] assms(2) [unfolded check_with_options_Allow] have "eval_decision e = Allow"
    by (fastforce simp: check_multiple_Some(1) [OF e])
  with e show ?thesis
    by (simp add: create_exec_approval_requirement_for_parsed_commands_def Let_def approval_requirement_def)
qed


section \<open>Requirements\<close>

lemma mm_get_pairs:
  "unwrap_or_default (mm_get_vec (fold (\<lambda>(k, v). mm_insert k v) prs m) q) =
   unwrap_or_default (mm_get_vec m q) @ map snd (filter (\<lambda>pr. fst pr = q) prs)"
  by (induction prs arbitrary: m) (auto simp: mm_get_insert)

lemma mm_get_member: "v \<in> set (unwrap_or_default (mm_get_vec m q)) \<Longrightarrow> \<exists>vs. (q, vs) \<in> set m \<and> v \<in> set vs"
  by (cases "map_of m q") (auto simp: mm_get_vec_def unwrap_or_default_def dest: map_of_SomeD)

lemma rule_matches_decision: "rule_matches r cmd = Some m \<Longrightarrow> match_decision m = rule_decision r"
  by (auto simp: rule_matches_def)

text \<open>Leaving out the allowing rules keeps every other match.\<close>

lemma restricted_rules_keep:
  assumes "m \<in> set (exact_matches (manager_policy mgr) cmd)" "match_decision m \<noteq> Allow"
  shows "m \<in> set (exact_matches (current_for_prefix_rules mgr allow) cmd)"
proof (cases "allow = Honor")
  case False
  from assms(1) obtain w ws r where cmd: "cmd = w # ws"
    and r: "r \<in> set (unwrap_or_default (mm_get_vec (rules_by_program (manager_policy mgr)) w))" "rule_matches r cmd = Some m"
    by (cases cmd) (auto simp: match_exact_rules_eq map_filter_set)
  from mm_get_member [OF r(1)] obtain rs where "(w, rs) \<in> set (rules_by_program (manager_policy mgr))" "r \<in> set rs" by blast
  moreover have "rule_decision r \<noteq> Allow" using r(2) assms(2) by (auto dest: rule_matches_decision)
  ultimately have "r \<in> set (unwrap_or_default (mm_get_vec (rules_by_program (current_for_prefix_rules mgr allow)) w))"
    using False
    by (auto simp: current_for_prefix_rules_def policy_from_parts_def mm_get_pairs Let_def image_iff unwrap_values
        intro!: bexI [of _ "(w, rs)"] rev_image_eqI [of "(w, r)"])
  with r(2) cmd show ?thesis by (auto simp: match_exact_rules_eq map_filter_set)
qed (use assms in \<open>simp add: current_for_prefix_rules_def\<close>)

lemma environment_keeps:
  assumes "m \<in> set (exact_matches (manager_policy mgr) cmd)" "match_decision m \<noteq> Allow"
    "case env of Some e \<Rightarrow> policy_wf e | None \<Rightarrow> True"
  shows "m \<in> set (exact_matches (current_for_environment mgr env allow) cmd)"
  using restricted_rules_keep [OF assms(1,2), of allow] assms(3)
  by (cases env) (auto simp: current_for_environment_def Let_def merge_overlay_exact)

lemma loaded_keeps_requirements:
  assumes "load_exec_policy_with_warning L R stack = Some (Inr (p, warning))"
    "requirements_exec_policy stack = Some r" "policy_wf r" "m \<in> set (exact_matches r cmd)"
  shows "m \<in> set (exact_matches p cmd)"
proof -
  from assms(1) obtain res where res: "load_exec_policy L R stack = Some res"
    and p: "(case res of Inr p \<Rightarrow> Inr (p, None) | Inl err \<Rightarrow> (case err of ParsePolicy _ _ \<Rightarrow>
        Inr (case requirements_exec_policy stack of Some p \<Rightarrow> p | None \<Rightarrow> policy_empty, Some err) | _ \<Rightarrow> Inl err)) =
      Inr (p, warning)"
    unfolding load_exec_policy_with_warning_def by auto
  show ?thesis
  proof (cases res)
    case (Inl err)
    with p assms(2) have "p = r" by (cases err) auto
    with assms(4) show ?thesis by simp
  next
    case (Inr q)
    with res assms(2) obtain base where "q = merge_overlay base r"
      by (auto simp: load_exec_policy_def and_then_eq_Inr Let_def split: sum.splits)
    moreover from p Inr have "p = q" by simp
    ultimately show ?thesis using assms(3,4) by (simp add: merge_overlay_exact)
  qed
qed


end
