(* ===== verification/Approval_Examples.thy ===== *)
theory Approval_Examples
  imports Exec_Approval_Laws Exec_Examples Sandbox_Policy_Laws Shell_Parse_Laws
begin

text \<open>
  Instances of the parameters of the command checks: paths as lists of their segments on a Unix machine
  without files, the syntax tree of one script, and requests for the policies of \<^verbatim>\<open>Exec_Examples\<close>. The
  hypotheses of the theorems on permissions and approval can hold, and this is what they say there.
\<close>

section \<open>Permissions\<close>

definition segments :: "ustr \<Rightarrow> ustr list" where
  "segments path = filter (\<lambda>s. s \<noteq> []) (split_on 47 path)"

definition segments_text :: "ustr list \<Rightarrow> ustr" where
  "segments_text path = (if path = [] then [47] else concat (map (\<lambda>s. 47 # s) path))"

definition join_segments :: "ustr list \<Rightarrow> ustr \<Rightarrow> ustr list" where
  "join_segments base path = (if starts_with [47] path then segments path else base @ segments path)"

text \<open>The globs here have no wildcard: they match their own text.\<close>

definition demo_paths :: "(ustr list, ustr list, ustr) sandbox_paths" where
  "demo_paths = \<lparr>
     infer_path_convention = (\<lambda>_. Some Posix),
     lexical_depth = (\<lambda>path. Some (length path)),
     is_opaque = (\<lambda>_. False),
     uri_starts_with = (\<lambda>path root. take (length root) path = root),
     last_ancestor = (\<lambda>_. []),
     uri_join = (\<lambda>base path. Some (join_segments base path)),
     join_descendant = (\<lambda>base name. Some (base @ [name])),
     inferred_native_path_string = segments_text,
     decoded_path_bytes = segments_text,
     path_segments = (\<lambda>_. segments),
     glob_build = (\<lambda>_ _. Inr),
     glob_is_match = (=),
     from_abs_path = id,
     to_abs_path = Inr,
     from_absolute_path = (\<lambda>path. Inr (segments path)),
     is_absolute_path = starts_with [47],
     abs_join = join_segments,
     abs_last_ancestor = (\<lambda>_. []),
     abs_parent = (\<lambda>path. if path = [] then None else Some (butlast path)),
     abs_is = (\<lambda>path name. path = segments name),
     abs_file_name = (\<lambda>path. if path = [] then None else Some (last path)),
     resolve_path_against_base = (\<lambda>path base. join_segments base path),
     abs_text = segments_text,
     abs_is_dir = (\<lambda>_. False),
     abs_is_file = (\<lambda>_. False),
     abs_exists = (\<lambda>_. False),
     abs_read_to_string = (\<lambda>_. None),
     cfg_unix = True,
     env_tmpdir = None,
     home_dir = None\<rparr>"

definition work :: "ustr list" where
  "work = [str ''work'']"

definition work_context :: "ustr list policy_context" where
  "work_context = local_context demo_paths work"

definition fs_entry :: "ustr list \<Rightarrow> file_system_access_mode \<Rightarrow> ustr list file_system_sandbox_entry" where
  "fs_entry path = entry_new (FsPath path)"

text \<open>Write access everywhere: the read entry is overridden by a write entry for the same directory.\<close>

definition open_policy :: "ustr list file_system_sandbox_policy" where
  "open_policy = policy_restricted
     [entry_new (Special Root) Write, fs_entry [str ''etc''] Read, fs_entry [str ''etc''] Write]"


text \<open>Deny entries outlive a change to an unrestricted policy.\<close>

definition secret_policy :: "ustr list file_system_sandbox_policy" where
  "secret_policy = policy_restricted
     [entry_new (Special Root) Read, fs_entry [str ''secret''] Deny, entry_new (GlobPattern (str ''/work/.env'')) Deny]"

definition secret_matcher :: "ustr list list \<times> ustr list \<times> bool" where
  "secret_matcher = ([[str ''secret'']], [str ''/work/.env''], False)"


definition work_policy :: "ustr list file_system_sandbox_policy" where
  "work_policy = policy_restricted [entry_new (Special Root) Read, fs_entry work Write]"


text \<open>Only the first protected directory that holds a path is checked for a writable directory inside it. With a
  second writable root inside the first one's metadata, the metadata of the second is writable, unless the
  entries are listed the other way round.\<close>

definition nested_roots :: "ustr list file_system_sandbox_entry list" where
  "nested_roots = [fs_entry work Write, fs_entry (work @ [str ''.codex'', str ''clone'']) Write]"

lemma nested_metadata_writable:
  "can_write_path demo_paths work_context (policy_restricted nested_roots)
     (work @ [str ''.codex'', str ''clone'', str ''.git'', str ''config'']) \<and>
   \<not> can_write_path demo_paths work_context (policy_restricted (rev nested_roots))
     (work @ [str ''.codex'', str ''clone'', str ''.git'', str ''config''])"
  by code_simp


section \<open>A script\<close>

definition word_at :: "nat \<Rightarrow> ustr \<Rightarrow> node" where
  "word_at pos w = Node (str ''word'') True pos (Some w) []"

definition command_at :: "nat \<Rightarrow> ustr \<Rightarrow> node \<Rightarrow> node" where
  "command_at pos name arg =
     Node (str ''command'') True pos None [Node (str ''command_name'') True pos None [word_at pos name], arg]"

text \<open>\<^verbatim>\<open>ls -l && echo 'a b'\<close>\<close>

definition demo_script :: ustr where
  "demo_script = str ''ls -l && echo '' @ [39] @ str ''a b'' @ [39]"

definition demo_tree :: tree where
  "demo_tree = \<lparr>root_node = Node (str ''program'') True 0 (Some demo_script)
     [Node (str ''list'') True 0 (Some demo_script)
       [command_at 0 (str ''ls'') (word_at 3 (str ''-l'')),
        Node (str ''&&'') False 6 (Some (str ''&&'')) [],
        command_at 9 (str ''echo'') (Node (str ''raw_string'') True 14 (Some ([39] @ str ''a b'' @ [39])) [])]],
     has_error = False\<rparr>"

definition demo_shell :: shell_parser where
  "demo_shell script = (if script = demo_script then Some demo_tree else None)"

definition script_command :: "ustr list" where
  "script_command = [str ''bash'', str ''-lc'', demo_script]"

definition ls_command :: "ustr list" where
  "ls_command = [str ''ls'', str ''-l'']"

definition echo_command :: "ustr list" where
  "echo_command = [str ''echo'', str ''a b'']"

theorem plain_commands_literal_witness:
  "\<exists>shell script t ls.
    extract_bash_command script_command = Some (shell, script) \<and> demo_shell script = Some t \<and>
    list_all node_allowed (visit_order (root_node t)) \<and>
    list_all2 (\<lambda>n ws. list_all2 literal_word (map word_node (named_children n)) ws)
      (sort_key start_byte (filter is_command_node (visit_order (root_node t)))) [ls_command, echo_command] \<and>
    parse_shell_lc_literal_commands demo_shell script_command = Some ls \<and> mset ls = mset [ls_command, echo_command]"
proof (rule plain_commands_literal)
  have "syntax_tree demo_tree" by code_simp
  then show "syntax_tree t" if "demo_shell script = Some t" for script t
    using that by (simp add: demo_shell_def split: if_splits)
  show "parse_shell_lc_plain_commands demo_shell script_command = Some [ls_command, echo_command]" by code_simp
qed

section \<open>Requests\<close>

definition demo_request :: "ustr list \<Rightarrow> ask_for_approval \<Rightarrow> (ustr, ustr list) exec_approval_request" where
  "demo_request command approval = \<lparr>
     req_command = command,
     req_approval_policy = approval,
     req_permission_profile = Managed (ManagedRestricted [fs_entry work Write] None) NetworkRestricted,
     req_environment_policy = None,
     req_sandbox_permissions = UseDefault,
     req_prefix_rule = None,
     req_allow_prefix_rules = Honor\<rparr>"

definition base_manager :: "ustr exec_policy_manager" where
  "base_manager = \<lparr>manager_policy = base_policy\<rparr>"

text \<open>A rule allows the first command of the script; the second one runs in the sandbox.\<close>

theorem skipped_approval_is_safe_witness:
  "req_approval_policy (demo_request script_command OnRequest) \<noteq> UnlessTrusted \<and>
   \<not> (\<exists>c'. (runs demo_shell)\<^sup>*\<^sup>* echo_command c' \<and> forced_rm c')"
proof -
  let ?req = "demo_request script_command OnRequest"
  have run: "create_exec_approval_requirement_for_command demo_language demo_shell base_manager ?req =
      Some (SkipApproval False None)" by code_simp
  have cmd: "echo_command \<in> set (commands_for_exec_policy demo_shell (req_command ?req))" by code_simp
  have "matches_for_command_with_options (hosts demo_language) (request_policy base_manager ?req)
      echo_command None approval_options = []" by code_simp
  with skipped_approval_is_safe [OF run cmd] show ?thesis by blast
qed

definition rules_only :: granular_approval_config where
  "rules_only = \<lparr>sandbox_approval = False, rules_approval = True, skill_approval = False,
     request_permissions = False, mcp_elicitations = False\<rparr>"

theorem prompts_are_permitted_witness:
  "create_exec_approval_requirement_for_parsed_commands demo_language demo_shell base_manager
     (demo_request git_status (Granular rules_only)) [git_status] =
     Some (NeedsApproval (Some (str ''`git status` requires approval by policy'')) None) \<and>
   req_approval_policy (demo_request git_status (Granular rules_only)) \<noteq> Never"
proof
  show asked: "create_exec_approval_requirement_for_parsed_commands demo_language demo_shell base_manager
      (demo_request git_status (Granular rules_only)) [git_status] =
      Some (NeedsApproval (Some (str ''`git status` requires approval by policy'')) None)" by code_simp
  show "req_approval_policy (demo_request git_status (Granular rules_only)) \<noteq> Never"
    using prompts_are_permitted [OF asked] by (rule conjunct1)
qed

text \<open>The proposed prefix of a command that no rule mentions, written to the rules file and to the policy.\<close>

definition cargo_test :: "ustr list" where
  "cargo_test = [str ''cargo'', str ''test'', str ''--all'']"

definition cargo_prefix :: "ustr list" where
  "cargo_prefix = [str ''cargo'', str ''test'']"

definition cargo_request :: "(ustr, ustr list) exec_approval_request" where
  "cargo_request = (demo_request cargo_test UnlessTrusted)\<lparr>req_prefix_rule := Some cargo_prefix\<rparr>"

definition codex_home :: ustr where
  "codex_home = str ''/h''"

definition approved :: "file_world \<times> ustr exec_policy_manager \<times> (ustr exec_policy_update_error + unit)" where
  "approved = (case append_amendment_and_update demo_language plain_json world_files codex_home cargo_prefix
     base_manager demo_world of Some r \<Rightarrow> r | None \<Rightarrow> (demo_world, base_manager, Inl (JoinBlockingTask [])))"

lemma demo_names_relative: "names_relative (hosts demo_language)"
proof -
  have "\<not> starts_with (str ''/'') (last (split_on 47 s))" for s :: ustr
    using split_on_pieces [of "last (split_on 47 s)" 47 s] by (auto simp: starts_with_def str_def dest: in_set_takeD)
  then show ?thesis
    by (auto simp: names_relative_def executable_path_lookup_key_def executable_lookup_key_def demo_language_def
        demo_hosts_def)
qed


text \<open>A requirement forbids what a rule of the user allows.\<close>

definition user_rules :: "ustr rule_files" where
  "user_rules = \<lparr>
     read_dir = (\<lambda>d. if d = str ''/h/rules'' then Inr [Inr (str ''/h/rules/default.rules'', Inr True)] else Inl missing_file),
     path_extension = (\<lambda>p. map_option snd (rsplit_once 46 p)),
     rules_join = (\<lambda>p name. p @ str ''/'' @ name),
     read_rules = (\<lambda>_. Inr []),
     path_lossy = id\<rparr>"

definition forbidding_policy :: "ustr policy" where
  "forbidding_policy = policy_new (mm_index rule_program [literal_rule git_status Forbidden])"

definition demo_stack :: "(ustr, ustr) config_layer_stack" where
  "demo_stack = \<lparr>layers_low_to_high = [(UserLayer, Some codex_home)],
     ignore_user_and_project_exec_policy_rules = False, requirements_exec_policy = Some forbidding_policy\<rparr>"

definition loaded_policy :: "ustr policy" where
  "loaded_policy = merge_overlay (builder_build demo_builder) forbidding_policy"


end
