(* ===== verification/Spec2Isabelle.thy ===== *)
theory Spec2Isabelle
  imports Examples Exec_Examples Stream_Examples Context_Examples Approval_Examples
begin

text \<open>
  A model of the parts of the coding agent under \<^verbatim>\<open>src/codex-rs\<close> that decide what happens to the user's
  files, commands and conversation, with the theorems that make them correct. An agent turn goes
  through them like this. The model streams text; the stream parsers split off citations and plans.
  A tool call with a patch is parsed, applied to the file system, and its committed changes feed the
  diff of the turn. A tool call with a command is split into its parts and judged by the execution
  policy, the danger check and the file system permissions; its output goes through a bounded buffer, is truncated, and becomes an item of the conversation history, which is
  normalized before it is sent to the model again and rolled back when the user undoes a turn.

  \<^bold>\<open>Conventions.\<close> A Rust \<^verbatim>\<open>String\<close> is a list of Unicode scalar values (\<open>ustr\<close> of \<open>Prelude\<close>); where the code
  counts bytes, the model counts bytes (\<open>Utf8\<close>, \<open>Truncate\<close>). \<^verbatim>\<open>Result\<close> is a sum with the error on the
  left, early return is \<open>and_then\<close> or \<open>try_fold\<close>, a panic is \<open>None\<close> of an outer option. Methods with
  \<^verbatim>\<open>&mut self\<close> take the state and return it. A \<^verbatim>\<open>usize\<close> is a natural number whose saturating operations
  stop at \<open>usize_max\<close> (\<open>Saturating\<close>); an \<^verbatim>\<open>i64\<close> is an integer that panics in a debug build and wraps in a
  release build. Code outside the repository (file systems, the Starlark evaluator, JSON, the line
  differ, tree-sitter, globs, uuids) and the path types are parameters, records of the operations the
  code calls. Code with branches per platform is modelled as compiled for Unix.

  \<^bold>\<open>Patches\<close> (\<^verbatim>\<open>apply-patch/src\<close>). \<open>Patch_Parser\<close> is \<^verbatim>\<open>parser.rs\<close> and \<^verbatim>\<open>streaming_parser.rs\<close>: one function per
  handler of the line machine. \<open>Patch_Parser_Inv\<close> has the steps as an inductive relation and the
  invariant between lines; \<open>Patch_Streaming\<close> shows that the cut into deltas does not matter, that
  hunks once shown are not taken back, and that what is accepted is complete; \<open>Patch_Roundtrip\<close> that
  the parser inverts a printer of the grammar. \<open>Seek_Sequence\<close> is \<^verbatim>\<open>seek_sequence.rs\<close> (complete search, the
  passes ever coarser: locale \<open>coarser_key\<close>), \<open>Text_File\<close> is \<^verbatim>\<open>text_file.rs\<close>, \<open>File_Update\<close> is
  \<^verbatim>\<open>file_update.rs\<close>; \<open>Edits\<close> is the abstract edit that both updaters refine, \<open>Update_Plan\<close> shows that planned
  replacements lie in the file and nothing panics, \<open>Update_Correct\<close> what text results.
  \<open>Patch_Apply\<close> is \<^verbatim>\<open>lib.rs\<close> from \<^verbatim>\<open>apply_patch\<close> to the file system calls; \<open>Patch_Delta\<close> shows that while the
  committed delta is exact, replaying it gives the files, also after a failure half way.
  \<open>Turn_Diff\<close> is \<^verbatim>\<open>core/src/turn_diff_tracker.rs\<close>: the cached diff equals the diff computed anew, and
  tracking a delta follows the files. \<open>Memory_Files\<close> is a file system that meets the laws, and
  \<open>Examples\<close> runs patches on it.

  \<^bold>\<open>Execution policy\<close> (\<^verbatim>\<open>execpolicy/src\<close>). \<open>Exec_Rule\<close> is \<^verbatim>\<open>decision.rs\<close>, \<^verbatim>\<open>error.rs\<close>, \<^verbatim>\<open>executable_name.rs\<close> and
  \<^verbatim>\<open>rule.rs\<close>; \<open>Exec_Policy\<close> is \<^verbatim>\<open>policy.rs\<close>: lookup by program equals a scan (locale \<open>indexed_rules\<close>), the
  strictest match decides, overlays never relax, the last network rule of a host wins.
  \<open>Exec_Parser\<close> is \<^verbatim>\<open>parser.rs\<close> and \<open>Exec_Parser_Laws\<close> its invariant through every file and the truth of
  accepted examples; \<open>Exec_Amend\<close> is \<^verbatim>\<open>amend.rs\<close> and \<^verbatim>\<open>sandbox_migration.rs\<close>: an approved rule is written
  once. \<open>Exec_Examples\<close> has instances and runs.

  \<^bold>\<open>Commands and permissions.\<close> \<open>Unix_Path\<close> is what the checks use of \<^verbatim>\<open>std::path\<close>. \<open>Shell_Parse\<close> is
  \<^verbatim>\<open>shell-command/src/bash.rs\<close> on a syntax tree that the parser parameter gives; \<open>Shell_Parse_Laws\<close> shows that
  the walks are traversals, that accepted words are literal, and that the strict and the lenient parser
  agree. \<open>Command_Safety\<close> is \<^verbatim>\<open>is_dangerous_command.rs\<close>: it finds exactly the commands that reach a forced
  removal, or are nested too deep. \<open>Sandbox_Policy\<close> is \<^verbatim>\<open>protocol/src/permissions.rs\<close> up to the decision on a
  path and the read-deny matcher; \<open>Sandbox_Policy_Laws\<close> shows that the most specific entry decides, what full
  write access means, that denied reads are preserved, and when metadata is protected. \<open>Sandbox_Roots\<close> is the
  construction and rewriting of policies, with the older policies of \<^verbatim>\<open>protocol.rs\<close> and the profiles of
  \<^verbatim>\<open>models.rs\<close>, and their round trip; operations that add to a policy keep its denials (locale
  \<open>denials_kept\<close>). \<open>Exec_Approval\<close> is \<^verbatim>\<open>core/src/exec_policy.rs\<close> with
  \<^verbatim>\<open>model_policy.rs\<close>, \<^verbatim>\<open>executable_identity.rs\<close> and the approval types of \<^verbatim>\<open>core/src/tools/sandboxing.rs\<close>: it
  composes the policy, the script parser, the danger check and the profile. \<open>Exec_Approval_Laws\<close> shows
  what follows when a command runs without asking, when the user may be asked, that an approved prefix is
  not asked again, and that requirements stay in force. \<open>Approval_Examples\<close> has instances and runs.

  \<^bold>\<open>Streams\<close> (\<^verbatim>\<open>utils/stream-parser/src\<close>). The locale \<open>stream_text_parser\<close> of \<open>Stream_Text\<close> is the trait
  \<^verbatim>\<open>StreamTextParser\<close> with its contract: a push returns, and the cut into chunks does not matter. It is
  interpreted by the inline tags and citations (\<open>Inline_Tags\<close>) and the plan blocks (\<open>Tagged_Lines\<close>,
  \<open>Tagged_Lines_Laws\<close>); \<open>Assistant_Text\<close> composes them, \<open>Utf8_Stream\<close> puts bytes in front.
  \<open>Stream_Examples\<close> has runs.

  \<^bold>\<open>Output and conversation.\<close> \<open>Head_Tail_Buffer\<close> is \<^verbatim>\<open>core/src/unified_exec/head_tail_buffer.rs\<close> (the buffer is
  the summary of everything pushed: locale \<open>summarised_output\<close>), \<open>Truncate\<close> is
  \<^verbatim>\<open>utils/string/src/truncate.rs\<close>, \<open>Output_Truncation\<close> is \<^verbatim>\<open>utils/output-truncation/src/lib.rs\<close>.
  \<open>Response_Item\<close> has the items of \<^verbatim>\<open>protocol/src/models.rs\<close>; \<open>Tool_Response\<close> and \<open>Tool_Outputs\<close> are
  \<^verbatim>\<open>core/src/tools/context.rs\<close> and \<^verbatim>\<open>tools/src\<close>: the loop that shrinks a response ends, and an output
  answers the call it belongs to. \<open>Context_Fragments\<close> is injected context (\<^verbatim>\<open>context-fragments/src\<close>,
  \<^verbatim>\<open>core/src/context\<close>, \<^verbatim>\<open>core/src/event_mapping.rs\<close>): what is rendered is recognized (locales
  \<open>contextual_fragment\<close>, \<open>marked_fragment\<close>). \<open>Context_Normalize\<close> and \<open>Context_Normalize_Laws\<close> are
  \<^verbatim>\<open>core/src/context_manager/normalize.rs\<close>: calls and outputs are paired afterwards.
  \<open>Token_Estimates\<close>, \<open>Context_History\<close>, \<open>Context_History_Laws\<close> and \<open>Context_Rollback\<close> are
  \<^verbatim>\<open>core/src/context_manager/history.rs\<close>: what recording appends, what a rollback keeps, that removing the
  oldest item keeps pairs and empties the history in the end, and that estimates stay in range.
  \<open>Context_Examples\<close> has runs.

  \<^bold>\<open>Loops.\<close> No definition uses fuel. Loops are structural or have a termination proof; the push of the
  inline parser and the shrinking loop of \<^verbatim>\<open>response_text\<close> are partial functions, and both are shown to
  return on every input.

  \<^bold>\<open>Not modelled.\<close> The diff text of \<^verbatim>\<open>similar\<close>, serialization, and the session that calls the components
  (asynchronous tasks, the model client, processes and their terminals). Of the permissions, the lists
  of roots that are computed for the platform sandboxes and the comparison of policies; of the approval,
  the texts of load errors, the cache of approvals and the checks for Windows and PowerShell. Of the
  patch program, its command line. The terminal interface, the app server and its protocol, login, the
  network proxy, the platform sandboxes, the state database, rollout files, plugins, MCP clients and
  configuration loading are mostly calls into operating systems and services or generated types, and
  have no theory here.
\<close>

section \<open>From the patch text to the file\<close>

lemma apply_update_in_place_ok:
  assumes "fs_laws F P (follow_symlinks opts)"
    and "note_existing_path_delta_support F fs p (follow_symlinks opts)"
    and "apply_update_in_place F P opts p ap old new fs delta aff = (fs', delta', Inr aff')"
  shows "file_view F (follow_symlinks opts) fs' = (file_view F (follow_symlinks opts) fs)(p := Some new)"
    and "delta' = push_change (p, ChangeUpdate None old None new) delta"
  using assms(3) write_lawD(1) [OF assms(1,2)]
  by (auto simp: apply_update_in_place_def split: prod.splits sum.splits)

lemma apply_hunks_with_options_Inr:
  assumes "apply_hunks_with_options F P W opts cwd hs w = Some (w', Inr delta)"
  obtains aff where "apply_hunks_to_files F P opts cwd hs (files w) delta_empty = Some (files w', delta, Inr aff)"
  using assms
  by (auto simp: apply_hunks_with_options_def split: option.splits sum.splits prod.splits)


section \<open>From the file system to the turn's diff\<close>



section \<open>Applied properties\<close>

definition keep_endings :: apply_patch_options where
  "keep_endings = \<lparr>update_file_mode = PreserveLineEndings, follow_symlinks = True\<rparr>"

definition log_writer :: "ustr writer" where
  "log_writer w t = (w @ t, Inr ())"

definition demo_world :: "(memory, ustr) patch_world" where
  "demo_world = \<lparr>files = demo_files, stdout = [], stderr = []\<rparr>"

definition demo_outcome :: "(memory, ustr, ustr) patch_outcome" where
  "demo_outcome = the (apply_patch_with_options mem_fs mem_paths log_writer keep_endings (str ''/'')
     (print_patch None [UpdateFile (str ''f'') None [demo_chunk]]) demo_world)"

lemma demo_outcome_ok:
  "apply_patch_with_options mem_fs mem_paths log_writer keep_endings (str ''/'')
     (print_patch None [UpdateFile (str ''f'') None [demo_chunk]]) demo_world =
   Some (fst demo_outcome, Inr (projr (snd demo_outcome)))"
  by code_simp



end
